(* ===== verification/Prelude.thy ===== *)
theory Prelude
  imports Main "HOL-Library.Word"
begin

text \<open>
  Shared vocabulary of the development: the machine integers of the 32-bit
  RISC-V target, the outcome of a fallible Rust function (value, error or
  panic), the state-passing operations the kernel components are written in,
  and the list and word lemmas that more than one component uses.

  A Rust function \<open>fn f(&mut self, ..) -> Result<T, E>\<close> becomes an
  operation \<open>'s \<Rightarrow> ('e, 'a) outcome \<times> 's\<close>.  The state is returned on
  every branch: an early \<open>Err\<close> keeps the side effects made before it, as
  it does in the source.  After \<open>Panic\<close> the state is meaningless.
  Arithmetic on the word types wraps, as in the release profile of the
  workspace, which leaves overflow checks off.
\<close>

type_synonym u8 = "8 word"
type_synonym u16 = "16 word"
type_synonym u32 = "32 word"
type_synonym usize = "32 word"

unbundle bit_operations_syntax

section \<open>Outcomes and operations\<close>

datatype (plugins only: code size) ('e, 'a) outcome = Ok 'a | Err 'e | Panic

type_synonym ('s, 'e, 'a) operation = "'s \<Rightarrow> ('e, 'a) outcome \<times> 's"

named_theorems op_defs \<open>unfolding rules of the operation combinators\<close>
named_theorems keeps_intros \<open>composition rules for state invariants\<close>
named_theorems no_err_intros \<open>operations without an error branch\<close>

definition retM :: "'a \<Rightarrow> ('s, 'e, 'a) operation" where
  "retM x s = (Ok x, s)"

definition failM :: "'e \<Rightarrow> ('s, 'e, 'a) operation" where
  "failM e s = (Err e, s)"

definition panicM :: "('s, 'e, 'a) operation" where
  "panicM s = (Panic, s)"

definition bindM :: "('s, 'e, 'a) operation \<Rightarrow> ('a \<Rightarrow> ('s, 'e, 'b) operation) \<Rightarrow> ('s, 'e, 'b) operation" where
  "bindM m f s = (case m s of
     (Ok x, s') \<Rightarrow> f x s'
   | (Err e, s') \<Rightarrow> (Err e, s')
   | (Panic, s') \<Rightarrow> (Panic, s'))"

definition thenM :: "('s, 'e, 'a) operation \<Rightarrow> ('s, 'e, 'b) operation \<Rightarrow> ('s, 'e, 'b) operation" where
  "thenM m k = bindM m (\<lambda>_. k)"

definition getM :: "('s \<Rightarrow> 'a) \<Rightarrow> ('s, 'e, 'a) operation" where
  "getM f s = (Ok (f s), s)"

definition modM :: "('s \<Rightarrow> 's) \<Rightarrow> ('s, 'e, unit) operation" where
  "modM f s = (Ok (), f s)"

definition liftO :: "('e, 'a) outcome \<Rightarrow> ('s, 'e, 'a) operation" where
  "liftO r s = (r, s)"

text \<open>\<open>.unwrap()\<close>, \<open>.expect(..)\<close>, \<open>.ok()\<close> and \<open>assert!\<close>.\<close>

fun unwrap :: "('e, 'a) outcome \<Rightarrow> ('f, 'a) outcome" where
  "unwrap (Ok x) = Ok x"
| "unwrap (Err _) = Panic"
| "unwrap Panic = Panic"

definition unwrapM :: "('s, 'e, 'a) operation \<Rightarrow> ('s, 'f, 'a) operation" where
  "unwrapM m s = (case m s of (r, s') \<Rightarrow> (unwrap r, s'))"

definition tryM :: "('s, 'e, 'a) operation \<Rightarrow> ('s, 'f, 'e + 'a) operation" where
  "tryM m s = (case m s of
     (Ok x, s') \<Rightarrow> (Ok (Inr x), s')
   | (Err e, s') \<Rightarrow> (Ok (Inl e), s')
   | (Panic, s') \<Rightarrow> (Panic, s'))"

text \<open>\<open>let _ = f().ok()\<close>: run for the effect and drop the result.\<close>

definition ignoreM :: "('s, 'e, 'a) operation \<Rightarrow> ('s, 'f, unit) operation" where
  "ignoreM m s = (case m s of (Panic, s') \<Rightarrow> (Panic, s') | (_, s') \<Rightarrow> (Ok (), s'))"

text \<open>\<open>map_err\<close> and \<open>or(Err(..))\<close>.\<close>

definition map_errM :: "('e \<Rightarrow> 'f) \<Rightarrow> ('s, 'e, 'a) operation \<Rightarrow> ('s, 'f, 'a) operation" where
  "map_errM f m s = (case m s of
     (Ok x, s') \<Rightarrow> (Ok x, s') | (Err e, s') \<Rightarrow> (Err (f e), s') | (Panic, s') \<Rightarrow> (Panic, s'))"

definition assertM :: "bool \<Rightarrow> ('s, 'e, unit) operation" where
  "assertM b = (if b then retM () else panicM)"

fun ok_or :: "'a option \<Rightarrow> 'e \<Rightarrow> ('e, 'a) outcome" where
  "ok_or None e = Err e"
| "ok_or (Some x) _ = Ok x"

fun unwrap_opt :: "'a option \<Rightarrow> ('e, 'a) outcome" where
  "unwrap_opt None = Panic"
| "unwrap_opt (Some x) = Ok x"

fun map_outcome2 :: "('a \<Rightarrow> ('e, 'b) outcome) \<Rightarrow> ('e, 'a) outcome \<Rightarrow> ('e, 'b) outcome" where
  "map_outcome2 f (Ok x) = f x"
| "map_outcome2 f (Err e) = Err e"
| "map_outcome2 f Panic = Panic"

text \<open>A \<open>for\<close> loop whose body may leave the function through \<open>?\<close>.\<close>

primrec for_each :: "'a list \<Rightarrow> ('a \<Rightarrow> ('s, 'e, unit) operation) \<Rightarrow> ('s, 'e, unit) operation" where
  "for_each [] f = retM ()"
| "for_each (x # xs) f = thenM (f x) (for_each xs f)"

text \<open>Running an operation of a component on a field of a larger state.\<close>

definition zoom :: "('s \<Rightarrow> 't) \<Rightarrow> ('t \<Rightarrow> 's \<Rightarrow> 's) \<Rightarrow> ('t, 'e, 'a) operation \<Rightarrow> ('s, 'e, 'a) operation" where
  "zoom g p m s = (case m (g s) of (r, t) \<Rightarrow> (r, p t s))"

lemmas op_combinators [op_defs] = retM_def failM_def panicM_def bindM_def thenM_def getM_def
  modM_def liftO_def unwrapM_def tryM_def ignoreM_def map_errM_def assertM_def zoom_def

lemma bindM_ret_left [simp]: "bindM (retM x) f = f x"
  by (rule ext) (simp add: op_defs)

lemma bindM_ret_right [simp]: "bindM m retM = m"
  by (rule ext) (simp add: op_defs split: prod.split outcome.split)

lemma bindM_assoc: "bindM (bindM m f) g = bindM m (\<lambda>x. bindM (f x) g)"
  by (rule ext) (simp add: op_defs split: prod.split outcome.split)

lemma bindM_fail [simp]: "bindM (failM e) f = failM e" "bindM panicM f = panicM"
  by (rule ext, simp add: op_defs)+

lemma thenM_ret [simp]: "thenM (retM x) k = k"
  by (simp add: thenM_def)

lemma for_each_append: "for_each (xs @ ys) f = thenM (for_each xs f) (for_each ys f)"
  by (induction xs) (simp_all add: thenM_def bindM_assoc)

lemma unwrap_opt_not_Err [simp]: "unwrap_opt x \<noteq> Err e"
  by (cases x) simp_all

lemma tryM_liftO [simp]:
  "tryM (liftO (Ok x)) = retM (Inr x)" "tryM (liftO (Err e)) = retM (Inl e)" "tryM (liftO Panic) = panicM"
  by (rule ext, simp add: op_defs)+

text \<open>A run that ends well, step by step.\<close>

lemma bindM_Ok: "bindM m f s = (Ok y, s') \<longleftrightarrow> (\<exists>x s1. m s = (Ok x, s1) \<and> f x s1 = (Ok y, s'))"
  by (auto simp: bindM_def split: prod.splits outcome.splits)

lemma thenM_Ok: "thenM m k s = (Ok y, s') \<longleftrightarrow> (\<exists>x s1. m s = (Ok x, s1) \<and> k s1 = (Ok y, s'))"
  by (auto simp: thenM_def bindM_Ok)

lemma unwrapM_Ok: "unwrapM m s = (Ok y, s') \<longleftrightarrow> m s = (Ok y, s')"
proof -
  have "unwrap r = Ok y \<longleftrightarrow> r = Ok y" for r by (cases r) auto
  thus ?thesis by (auto simp: unwrapM_def split: prod.splits)
qed

lemma basic_Ok:
  "retM x s = (Ok y, s') \<longleftrightarrow> y = x \<and> s' = s" "getM f s = (Ok y, s') \<longleftrightarrow> y = f s \<and> s' = s"
  "modM g s = (Ok u, s') \<longleftrightarrow> s' = g s"
  by (auto simp: retM_def getM_def modM_def)

subsection \<open>Invariants of operations\<close>

text \<open>
  \<open>keeps P m\<close>: the operation preserves \<open>P\<close> on every branch that leaves a
  state behind, the error branch included.
\<close>

definition keeps :: "('s \<Rightarrow> bool) \<Rightarrow> ('s, 'e, 'a) operation \<Rightarrow> bool" where
  "keeps P m = (\<forall>s. P s \<longrightarrow> fst (m s) \<noteq> Panic \<longrightarrow> P (snd (m s)))"

lemma keepsI: "(\<And>s r s'. \<lbrakk>P s; m s = (r, s'); r \<noteq> Panic\<rbrakk> \<Longrightarrow> P s') \<Longrightarrow> keeps P m"
  unfolding keeps_def by (metis prod.collapse)

lemma keepsD: "\<lbrakk>keeps P m; P s; m s = (r, s'); r \<noteq> Panic\<rbrakk> \<Longrightarrow> P s'"
  unfolding keeps_def by (metis fst_conv snd_conv)

lemma keeps_basic [keeps_intros, intro!, simp]:
  "keeps P (retM x)" "keeps P (failM e)" "keeps P panicM" "keeps P (getM f)" "keeps P (liftO r)"
  "keeps P (assertM b)"
  by (auto simp: keeps_def op_defs)

lemma keeps_mod [keeps_intros]: "(\<And>s. P s \<Longrightarrow> P (f s)) \<Longrightarrow> keeps P (modM f)"
  by (simp add: keeps_def op_defs)

lemma keeps_bind [keeps_intros]:
  "\<lbrakk>keeps P m; \<And>x. keeps P (f x)\<rbrakk> \<Longrightarrow> keeps P (bindM m f)"
  by (fastforce simp: keeps_def bindM_def split: prod.splits outcome.splits)

lemma keeps_bind_liftO:
  "(\<And>x. r = Ok x \<Longrightarrow> keeps P (f x)) \<Longrightarrow> keeps P (bindM (liftO r) f)"
  by (cases r) (auto simp: keeps_def op_defs)

lemma keeps_then [keeps_intros]: "\<lbrakk>keeps P m; keeps P k\<rbrakk> \<Longrightarrow> keeps P (thenM m k)"
  unfolding thenM_def by (rule keeps_bind)

lemma keeps_unwrap [keeps_intros]: "keeps P m \<Longrightarrow> keeps P (unwrapM m)"
  by (fastforce simp: keeps_def unwrapM_def split: prod.splits)

lemma keeps_try [keeps_intros]: "keeps P m \<Longrightarrow> keeps P (tryM m)"
  by (fastforce simp: keeps_def tryM_def split: prod.splits outcome.splits)

lemma keeps_ignore [keeps_intros]: "keeps P m \<Longrightarrow> keeps P (ignoreM m)"
  by (fastforce simp: keeps_def ignoreM_def split: prod.splits outcome.splits)

lemma keeps_map_err [keeps_intros]: "keeps P m \<Longrightarrow> keeps P (map_errM f m)"
  by (fastforce simp: keeps_def map_errM_def split: prod.splits outcome.splits)

lemma keeps_for_each [keeps_intros]: "(\<And>x. x \<in> set xs \<Longrightarrow> keeps P (f x)) \<Longrightarrow> keeps P (for_each xs f)"
  by (induction xs) (auto intro!: keeps_then)

lemma keeps_if [keeps_intros]:
  "\<lbrakk>b \<Longrightarrow> keeps P m; \<not> b \<Longrightarrow> keeps P k\<rbrakk> \<Longrightarrow> keeps P (if b then m else k)"
  by simp

lemma keeps_option [keeps_intros]:
  "\<lbrakk>v = None \<Longrightarrow> keeps P m; \<And>x. v = Some x \<Longrightarrow> keeps P (f x)\<rbrakk> \<Longrightarrow> keeps P (case v of None \<Rightarrow> m | Some x \<Rightarrow> f x)"
  by (cases v) simp_all

lemma keeps_pure [keeps_intros]: "keeps P (\<lambda>s. (f s, s))"
  by (simp add: keeps_def)

lemma keeps_prod [keeps_intros]: "(\<And>a b. keeps P (f a b)) \<Longrightarrow> keeps P (case x of (a, b) \<Rightarrow> f a b)"
  by (cases x) simp

lemma keeps_sum [keeps_intros]:
  "\<lbrakk>\<And>a. keeps P (f a); \<And>b. keeps P (g b)\<rbrakk> \<Longrightarrow> keeps P (case x of Inl a \<Rightarrow> f a | Inr b \<Rightarrow> g b)"
  by (cases x) simp_all

lemma keeps_let [keeps_intros]: "keeps P (f x) \<Longrightarrow> keeps P (let y = x in f y)"
  by (simp add: Let_def)

subsection \<open>Pre- and postconditions\<close>

text \<open>
  \<open>triple P m Q R\<close>: started in \<open>P\<close>, a run of \<open>m\<close> that does not panic ends in
  \<open>Q x\<close> if it returns \<open>Ok x\<close> and in \<open>R e\<close> if it returns \<open>Err e\<close>.
\<close>

definition triple :: "('s \<Rightarrow> bool) \<Rightarrow> ('s, 'e, 'a) operation \<Rightarrow> ('a \<Rightarrow> 's \<Rightarrow> bool) \<Rightarrow> ('e \<Rightarrow> 's \<Rightarrow> bool) \<Rightarrow> bool" where
  "triple P m Q R = (\<forall>s. P s \<longrightarrow> (case m s of
     (Ok x, s') \<Rightarrow> Q x s' | (Err e, s') \<Rightarrow> R e s' | (Panic, s') \<Rightarrow> True))"

lemma tripleI: "(\<And>s. P s \<Longrightarrow> case m s of (Ok x, s') \<Rightarrow> Q x s' | (Err e, s') \<Rightarrow> R e s' | (Panic, s') \<Rightarrow> True) \<Longrightarrow> triple P m Q R"
  by (simp add: triple_def)

lemma tripleD: "\<lbrakk>triple P m Q R; P s\<rbrakk> \<Longrightarrow>
    (\<forall>x s'. m s = (Ok x, s') \<longrightarrow> Q x s') \<and> (\<forall>e s'. m s = (Err e, s') \<longrightarrow> R e s')"
  by (auto simp: triple_def dest!: spec [of _ s])

lemma triple_weaken: "\<lbrakk>triple P m Q R; \<And>s. P' s \<Longrightarrow> P s; \<And>x s. Q x s \<Longrightarrow> Q' x s; \<And>e s. R e s \<Longrightarrow> R' e s\<rbrakk> \<Longrightarrow> triple P' m Q' R'"
  by (fastforce simp: triple_def split: prod.splits outcome.splits)

lemma triple_bind:
  "\<lbrakk>triple P m Q R; \<And>x. triple (Q x) (f x) Q' R\<rbrakk> \<Longrightarrow> triple P (bindM m f) Q' R"
  by (fastforce simp: triple_def bindM_def split: prod.splits outcome.splits)

lemma triple_then: "\<lbrakk>triple P m (\<lambda>_. Q) R; triple Q k Q' R\<rbrakk> \<Longrightarrow> triple P (thenM m k) Q' R"
  unfolding thenM_def by (rule triple_bind)

lemma triple_keeps: "keeps P m \<Longrightarrow> triple P m (\<lambda>_. P) (\<lambda>_. P)"
  by (auto simp: triple_def dest: keepsD split: prod.split outcome.split)

lemma triple_for_each:
  assumes "\<And>x. x \<in> set xs \<Longrightarrow> triple P (f x) (\<lambda>_. P) R"
  shows "triple P (for_each xs f) (\<lambda>_. P) R"
  using assms
proof (induction xs)
  case Nil
  then show ?case by (simp add: triple_def retM_def)
next
  case (Cons x xs)
  have "triple P (f x) (\<lambda>_. P) R" "triple P (for_each xs f) (\<lambda>_. P) R" using Cons by simp_all
  then show ?case by (simp add: triple_then [where Q = P])
qed

lemma triple_pure: "(\<phi> \<Longrightarrow> triple P m Q R) \<Longrightarrow> triple (\<lambda>s. P s \<and> \<phi>) m Q R"
  by (auto simp: triple_def)

lemma triple_pre: "\<lbrakk>triple P m Q R; \<And>s. P' s \<Longrightarrow> P s\<rbrakk> \<Longrightarrow> triple P' m Q R"
  by (auto simp: triple_def)

lemma triple_ret: "(\<And>s. P s \<Longrightarrow> Q x s) \<Longrightarrow> triple P (retM x) Q R"
  by (auto simp: triple_def op_defs)

lemma triple_fail: "(\<And>s. P s \<Longrightarrow> R e s) \<Longrightarrow> triple P (failM e) Q R"
  by (auto simp: triple_def op_defs)

lemma triple_panic: "triple P panicM Q R"
  by (auto simp: triple_def op_defs)

lemma triple_get: "(\<And>s. P s \<Longrightarrow> Q (f s) s) \<Longrightarrow> triple P (getM f) Q R"
  by (auto simp: triple_def op_defs)

lemma triple_mod: "(\<And>s. P s \<Longrightarrow> Q () (f s)) \<Longrightarrow> triple P (modM f) Q R"
  by (auto simp: triple_def op_defs)

lemma triple_liftO:
  "\<lbrakk>\<And>x s. \<lbrakk>r = Ok x; P s\<rbrakk> \<Longrightarrow> Q x s; \<And>e s. \<lbrakk>r = Err e; P s\<rbrakk> \<Longrightarrow> R e s\<rbrakk> \<Longrightarrow> triple P (liftO r) Q R"
  by (auto simp: triple_def op_defs split: outcome.split)

lemma triple_assert: "(b \<Longrightarrow> triple P k Q R) \<Longrightarrow> triple P (thenM (assertM b) k) Q R"
  by (auto simp: triple_def op_defs)

lemma triple_unwrap:
  assumes "triple P m Q (\<lambda>_ _. True)"
  shows "triple P (unwrapM m) Q R"
proof (rule tripleI)
  fix s assume s: "P s"
  obtain r s' where "m s = (r, s')" by fastforce
  thus "case unwrapM m s of (Ok x, s') \<Rightarrow> Q x s' | (Err e, s') \<Rightarrow> R e s' | (Panic, s') \<Rightarrow> True"
    using tripleD [OF assms s] by (cases r) (simp_all add: unwrapM_def)
qed

lemma triple_map_err: "triple P m Q (\<lambda>e. R (f e)) \<Longrightarrow> triple P (map_errM f m) Q R"
  by (fastforce simp: triple_def map_errM_def split: prod.splits outcome.splits)

lemma triple_try: "triple P m (\<lambda>x. Q (Inr x)) (\<lambda>e. Q (Inl e)) \<Longrightarrow> triple P (tryM m) Q R"
  by (fastforce simp: triple_def tryM_def split: prod.splits outcome.splits)

lemma triple_ignore: "triple P m (\<lambda>_. Q ()) (\<lambda>_. Q ()) \<Longrightarrow> triple P (ignoreM m) Q R"
  by (fastforce simp: triple_def ignoreM_def split: prod.splits outcome.splits)

lemma triple_if:
  "\<lbrakk>b \<Longrightarrow> triple P m Q R; \<not> b \<Longrightarrow> triple P k Q R\<rbrakk> \<Longrightarrow> triple P (if b then m else k) Q R"
  by simp

lemma triple_post: "\<lbrakk>triple P m Q R; \<And>x s. Q x s \<Longrightarrow> Q' x s; \<And>e s. R e s \<Longrightarrow> R' e s\<rbrakk> \<Longrightarrow> triple P m Q' R'"
  by (fastforce simp: triple_def split: prod.splits outcome.splits)

lemma triple_bind_liftO:
  "\<lbrakk>\<And>x. r = Ok x \<Longrightarrow> triple P (k x) Q R; \<And>e s. \<lbrakk>r = Err e; P s\<rbrakk> \<Longrightarrow> R e s\<rbrakk> \<Longrightarrow> triple P (bindM (liftO r) k) Q R"
  by (cases r) (auto simp: triple_def op_defs)

lemma triple_bind_get: "(\<And>x. triple (\<lambda>s. P s \<and> f s = x) (k x) Q R) \<Longrightarrow> triple P (bindM (getM f) k) Q R"
  by (auto simp: triple_def op_defs)

lemma triple_bind_any: "(\<And>x. triple P (k x) Q R) \<Longrightarrow> triple P (bindM (getM f) k) Q R"
  by (auto simp: triple_def op_defs)

lemma triple_then_mod: "\<lbrakk>\<And>s. P s \<Longrightarrow> P' (f s); triple P' k Q R\<rbrakk> \<Longrightarrow> triple P (thenM (modM f) k) Q R"
  by (auto simp: triple_def op_defs)

lemma triple_bind_try:
  "\<lbrakk>triple P m Q1 R1; \<And>x. triple (Q1 x) (k (Inr x)) Q R; \<And>e. triple (R1 e) (k (Inl e)) Q R\<rbrakk>
   \<Longrightarrow> triple P (bindM (tryM m) k) Q R"
  by (fastforce simp: triple_def tryM_def bindM_def split: prod.splits outcome.splits)

lemma triple_for_each_upt:
  assumes "\<And>i. i < n \<Longrightarrow> triple (P i) (f i) (\<lambda>_. P (Suc i)) R"
  shows "triple (P 0) (for_each [0 ..< n] f) (\<lambda>_. P n) R"
  using assms
proof (induction n)
  case (Suc n)
  have "triple (P n) (for_each [n] f) (\<lambda>_. P (Suc n)) R"
    using Suc.prems [of n] by (auto intro!: triple_then triple_ret)
  thus ?case using Suc by (simp add: for_each_append triple_then [where Q = "P n"])
qed (simp add: triple_ret)

lemma triple_freeze: "(\<And>x. triple (\<lambda>s. P s \<and> f s = x) m Q R) \<Longrightarrow> triple P m Q R"
  by (simp add: triple_def)

lemma triple_assert_end: "(\<And>s. P s \<Longrightarrow> b \<Longrightarrow> Q () s) \<Longrightarrow> triple P (assertM b) Q R"
  by (auto simp: triple_def op_defs)

lemma triple_and_keeps:
  assumes "triple P m Q R" "keeps K m"
  shows "triple (\<lambda>s. P s \<and> K s) m (\<lambda>x s. Q x s \<and> K s) R"
  using assms by (fastforce simp: triple_def keeps_def split: prod.splits outcome.splits)

subsection \<open>Operations without errors\<close>

text \<open>Operations that return or panic, but never report an error.\<close>

definition no_err :: "('s, 'e, 'a) operation \<Rightarrow> bool" where
  "no_err m = (\<forall>s e s'. m s \<noteq> (Err e, s'))"

lemma unwrap_no_Err: "unwrap r \<noteq> Err e"
  by (cases r) auto

lemma no_err_basic [no_err_intros]: "no_err (retM x)" "no_err (getM f)" "no_err (modM g)" "no_err panicM"
  "no_err (assertM b)" "no_err (unwrapM m)"
  by (auto simp: no_err_def op_defs unwrap_no_Err split: prod.split)

lemma no_err_bind [no_err_intros]: "\<lbrakk>no_err m; \<And>x. no_err (f x)\<rbrakk> \<Longrightarrow> no_err (bindM m f)"
  by (fastforce simp: no_err_def bindM_def split: prod.splits outcome.splits)

lemma no_err_then [no_err_intros]: "\<lbrakk>no_err m; no_err k\<rbrakk> \<Longrightarrow> no_err (thenM m k)"
  unfolding thenM_def by (rule no_err_bind)

lemma no_err_for_each [no_err_intros]: "(\<And>x. no_err (f x)) \<Longrightarrow> no_err (for_each xs f)"
  by (induction xs) (auto intro!: no_err_intros)

section \<open>Non-zero integers\<close>

text \<open>
  \<open>NonZeroU8\<close> and \<open>NonZeroUsize\<close> are modelled by the plain word; \<open>nz_new\<close>
  is their constructor.  \<open>nz_get\<close> is \<open>map(|x| x.get()).unwrap_or(0)\<close>, the
  encoding of an optional non-zero value in a register.
\<close>

definition nz_new :: "'a::len word \<Rightarrow> 'a word option" where
  "nz_new w = (if w = 0 then None else Some w)"

fun nz_get :: "'a::len word option \<Rightarrow> 'a word" where
  "nz_get None = 0"
| "nz_get (Some w) = w"

lemma nz_new_get [simp]: "v \<noteq> Some 0 \<Longrightarrow> nz_new (nz_get v) = v"
  by (cases v) (auto simp: nz_new_def)

lemma nz_get_new [simp]: "nz_get (nz_new w) = w"
  by (simp add: nz_new_def)

lemma nz_new_nonzero [simp]: "w \<noteq> 0 \<Longrightarrow> nz_new w = Some w" "nz_new 0 = None" "nz_new w \<noteq> Some 0"
  by (auto simp: nz_new_def)

section \<open>Lists\<close>

lemma nth_list_update_at: "j < length xs \<Longrightarrow> xs[i := y] ! j = (if i = j then y else xs ! j)"
  by (auto simp: nth_list_update)

lemma find_index_Some:
  "find (\<lambda>i. P (xs ! i)) is = Some j \<Longrightarrow> j \<in> set is \<and> P (xs ! j)"
  by (induction "is") (auto split: if_splits)

lemma find_index_None:
  "find (\<lambda>i. P (xs ! i)) is = None \<longleftrightarrow> (\<forall>i\<in>set is. \<not> P (xs ! i))"
  by (induction "is") auto

lemma find_append: "find P (xs @ ys) = (case find P xs of None \<Rightarrow> find P ys | Some x \<Rightarrow> Some x)"
  by (induction xs) auto

lemma unat_sub_succ:
  fixes a b :: "'a::len word"
  assumes "a \<noteq> b"
  shows "unat (a - (b + 1)) = unat (a - b) - 1"
proof -
  have "a - b \<noteq> 0" using assms by simp
  then have "unat (a - b - 1) = unat (a - b) - 1"
    by (simp add: unat_minus_one)
  then show ?thesis by (simp add: algebra_simps)
qed

section \<open>Simulations\<close>

text \<open>A concrete step that refines an abstract one does so along every sequence of steps.\<close>

locale simulation =
  fixes abs :: "'s \<Rightarrow> 'a" and inv :: "'s \<Rightarrow> bool" and step :: "'op \<Rightarrow> 's \<Rightarrow> 's" and spec :: "'op \<Rightarrow> 'a \<Rightarrow> 'a"
  assumes step_inv: "inv s \<Longrightarrow> inv (step x s)"
    and step_abs: "inv s \<Longrightarrow> abs (step x s) = spec x (abs s)"
begin

lemma steps_inv: "inv s \<Longrightarrow> inv (fold step xs s)"
  by (induction xs arbitrary: s) (auto intro: step_inv)

lemma steps_abs: "inv s \<Longrightarrow> abs (fold step xs s) = fold spec xs (abs s)"
  by (induction xs arbitrary: s) (auto simp: step_inv step_abs)

end

end
