(* ===== verification/Xous_Defs.thy ===== *)
theory Xous_Defs
  imports Prelude
begin

text \<open>
  The data exchanged between processes and the kernel, from the crate
  \<open>xous-rs\<close> (\<open>src/definitions.rs\<close>, \<open>src/definitions/\<close> and
  \<open>src/arch/riscv/\<close>): error codes, memory ranges and flags, messages,
  envelopes and senders, server ids, process and thread descriptions,
  exceptions, and the \<open>Result\<close> a system call returns, each with the encoding
  into registers and the decoding back.  The round trips are stated through the
  locale \<open>codec\<close>, interpreted once per encoded type.

  \<open>NonZeroUsize\<close> and \<open>PID\<close> (\<open>NonZeroU8\<close>) are plain words here; that they
  are not zero is part of the well-formedness predicates \<open>*_wf\<close>.
\<close>

section \<open>Basic types\<close>

type_synonym PID = u8
type_synonym CID = u32
type_synonym TID = usize
type_synonym MessageId = usize

definition MAX_CID :: nat where "MAX_CID = 34"

datatype (plugins only: code size) SID = SID u32 u32 u32 u32

datatype (plugins only: code size) Error =
    NoError | BadAlignment | BadAddress | OutOfMemory | MemoryInUse
  | InterruptNotFound | InterruptInUse | InvalidString | ServerExists | ServerNotFound
  | ProcessNotFound | ProcessNotChild | ProcessTerminated | Timeout | InternalError
  | ServerQueueFull | ThreadNotAvailable | UnhandledSyscall | InvalidSyscall | ShareViolation
  | InvalidThread | InvalidPID | UnknownError | AccessDenied | UseBeforeInit
  | DoubleFree | DebugInProgress | InvalidLimit | NotFound | InvalidCoding
  | HardwareError | SerializationError | InvalidArgument | NetworkError | StorageError
  | Unavailable | ParseError | InvalidCore | VerificationError | SecurityError

definition error_from_usize :: "usize \<Rightarrow> Error" where
  "error_from_usize arg =
     (if arg = 0 then NoError else if arg = 1 then BadAlignment
      else if arg = 2 then BadAddress else if arg = 3 then OutOfMemory
      else if arg = 4 then MemoryInUse else if arg = 5 then InterruptNotFound
      else if arg = 6 then InterruptInUse else if arg = 7 then InvalidString
      else if arg = 8 then ServerExists else if arg = 9 then ServerNotFound
      else if arg = 10 then ProcessNotFound else if arg = 11 then ProcessNotChild
      else if arg = 12 then ProcessTerminated else if arg = 13 then Timeout
      else if arg = 14 then InternalError else if arg = 15 then ServerQueueFull
      else if arg = 16 then ThreadNotAvailable else if arg = 17 then UnhandledSyscall
      else if arg = 18 then InvalidSyscall else if arg = 19 then ShareViolation
      else if arg = 20 then InvalidThread else if arg = 21 then InvalidPID
      else if arg = 23 then AccessDenied else if arg = 24 then UseBeforeInit
      else if arg = 25 then DoubleFree else if arg = 26 then DebugInProgress
      else if arg = 27 then InvalidLimit else if arg = 28 then NotFound
      else if arg = 29 then InvalidCoding else if arg = 30 then HardwareError
      else if arg = 31 then SerializationError else if arg = 32 then InvalidArgument
      else if arg = 33 then NetworkError else if arg = 34 then StorageError
      else if arg = 35 then Unavailable else if arg = 36 then ParseError
      else if arg = 37 then InvalidCore else if arg = 38 then VerificationError
      else if arg = 39 then SecurityError else UnknownError)"

primrec error_to_usize :: "Error \<Rightarrow> usize" where
  "error_to_usize NoError = 0"
| "error_to_usize BadAlignment = 1"
| "error_to_usize BadAddress = 2"
| "error_to_usize OutOfMemory = 3"
| "error_to_usize MemoryInUse = 4"
| "error_to_usize InterruptNotFound = 5"
| "error_to_usize InterruptInUse = 6"
| "error_to_usize InvalidString = 7"
| "error_to_usize ServerExists = 8"
| "error_to_usize ServerNotFound = 9"
| "error_to_usize ProcessNotFound = 10"
| "error_to_usize ProcessNotChild = 11"
| "error_to_usize ProcessTerminated = 12"
| "error_to_usize Timeout = 13"
| "error_to_usize InternalError = 14"
| "error_to_usize ServerQueueFull = 15"
| "error_to_usize ThreadNotAvailable = 16"
| "error_to_usize UnhandledSyscall = 17"
| "error_to_usize InvalidSyscall = 18"
| "error_to_usize ShareViolation = 19"
| "error_to_usize InvalidThread = 20"
| "error_to_usize InvalidPID = 21"
| "error_to_usize AccessDenied = 23"
| "error_to_usize UseBeforeInit = 24"
| "error_to_usize DoubleFree = 25"
| "error_to_usize DebugInProgress = 26"
| "error_to_usize InvalidLimit = 27"
| "error_to_usize NotFound = 28"
| "error_to_usize InvalidCoding = 29"
| "error_to_usize HardwareError = 30"
| "error_to_usize SerializationError = 31"
| "error_to_usize InvalidArgument = 32"
| "error_to_usize NetworkError = 33"
| "error_to_usize StorageError = 34"
| "error_to_usize Unavailable = 35"
| "error_to_usize ParseError = 36"
| "error_to_usize InvalidCore = 37"
| "error_to_usize VerificationError = 38"
| "error_to_usize SecurityError = 39"
| "error_to_usize UnknownError = -1"

type_synonym ('s, 'a) kop = "('s, Error, 'a) operation"
type_synonym 'a kresult = "(Error, 'a) outcome"

definition pid_from_usize :: "usize \<Rightarrow> PID kresult" where
  "pid_from_usize src =
     (if src > 255 then Err InvalidPID else ok_or (nz_new (ucast src :: u8)) InvalidPID)"

subsection \<open>Server ids\<close>

fun u32_from_le_bytes :: "u8 list \<Rightarrow> u32" where
  "u32_from_le_bytes [] = 0"
| "u32_from_le_bytes (b # bs) = ucast b + 256 * u32_from_le_bytes bs"

text \<open>The first bytes of \<open>to_le_bytes\<close>.\<close>

fun le_bytes :: "nat \<Rightarrow> u32 \<Rightarrow> u8 list" where
  "le_bytes 0 w = []"
| "le_bytes (Suc n) w = ucast w # le_bytes n (drop_bit 8 w)"

lemma le_bytes_4: "le_bytes 4 w = [ucast w, ucast (drop_bit 8 w), ucast (drop_bit 16 w), ucast (drop_bit 24 w)]"
  by (simp add: numeral_eq_Suc)

lemma length_le_bytes [simp]: "length (le_bytes n w) = n"
  by (induction n arbitrary: w) simp_all

lemma from_to_le_bytes [simp]: "u32_from_le_bytes (le_bytes 4 w) = w"
proof -
  have low: "(ucast (ucast v :: u8) :: u32) = take_bit 8 v" for v :: u32 by (rule bit_word_eqI) (auto simp: bit_simps)
  have join: "take_bit 8 v + 256 * drop_bit 8 v = v" for v :: u32 using bits_ident [of 8 v] by (simp add: push_bit_eq_mult ac_simps)
  have top: "take_bit 8 (drop_bit 24 w) = drop_bit 24 w" by (rule bit_word_eqI) (auto simp: bit_simps dest: bit_imp_le_length)
  show ?thesis using join [of w] join [of "drop_bit 8 w"] join [of "drop_bit 16 w"] top
    by (simp add: le_bytes_4 low)
qed

text \<open>\<open>chunks_exact(4)\<close> yields whole groups only; a trailing partial group is dropped.\<close>

fun chunk4 :: "u8 list \<Rightarrow> nat \<Rightarrow> u32" where
  "chunk4 b i = (if 4 * i + 4 \<le> length b then u32_from_le_bytes (take 4 (drop (4 * i) b)) else 0)"

definition sid_from_bytes :: "u8 list \<Rightarrow> SID option" where
  "sid_from_bytes b =
     (if length b > 16 then None
      else Some (SID (chunk4 b 0) (chunk4 b 1) (chunk4 b 2) (chunk4 b 3)))"

primrec sid_to_u32 :: "SID \<Rightarrow> u32 list" where
  "sid_to_u32 (SID a b c d) = [a, b, c, d]"

subsection \<open>Memory ranges, flags and types\<close>

record memory_range =
  mr_addr :: usize
  mr_size :: usize

definition memory_range_new :: "usize \<Rightarrow> usize \<Rightarrow> memory_range kresult" where
  "memory_range_new addr sz =
     (if addr = 0 then Err BadAddress else if sz = 0 then Err BadAddress
      else Ok \<lparr>mr_addr = addr, mr_size = sz\<rparr>)"

definition memory_range_is_empty :: "memory_range \<Rightarrow> bool" where
  "memory_range_is_empty r = (mr_size r > 0)"

definition range_wf :: "memory_range \<Rightarrow> bool" where
  "range_wf r = (mr_addr r \<noteq> 0 \<and> mr_size r \<noteq> 0)"

type_synonym MemoryFlags = usize

definition MF_FREE :: MemoryFlags where "MF_FREE = 0"
definition MF_RESERVE :: MemoryFlags where "MF_RESERVE = 0x1"
definition MF_R :: MemoryFlags where "MF_R = 0x2"
definition MF_W :: MemoryFlags where "MF_W = 0x4"
definition MF_X :: MemoryFlags where "MF_X = 0x8"
definition MF_DEV :: MemoryFlags where "MF_DEV = 0x10"
definition MF_VIRT :: MemoryFlags where "MF_VIRT = 0x20"
definition MF_P :: MemoryFlags where "MF_P = 0x200"
definition FLAGS_ALL :: MemoryFlags where "FLAGS_ALL = 0x3f"

definition flags_from_bits :: "usize \<Rightarrow> MemoryFlags option" where
  "flags_from_bits raw = (if raw > FLAGS_ALL then None else Some raw)"

definition flags_sub :: "MemoryFlags \<Rightarrow> MemoryFlags \<Rightarrow> MemoryFlags" where
  "flags_sub a b = a AND NOT b"

definition flags_not :: "MemoryFlags \<Rightarrow> MemoryFlags" where
  "flags_not a = NOT a AND 15"

datatype (plugins only: code size) MemoryType = MT_Default | MT_Heap | MT_Messages | MT_Stack

definition memory_type_from :: "usize \<Rightarrow> MemoryType" where
  "memory_type_from arg =
     (if arg = 2 then MT_Heap else if arg = 3 then MT_Messages
      else if arg = 4 then MT_Stack else MT_Default)"

primrec memory_type_as_usize :: "MemoryType \<Rightarrow> usize" where
  "memory_type_as_usize MT_Default = 1"
| "memory_type_as_usize MT_Heap = 2"
| "memory_type_as_usize MT_Messages = 3"
| "memory_type_as_usize MT_Stack = 4"

section \<open>Messages\<close>

record memory_message =
  mm_id :: MessageId
  mm_buf :: memory_range
  mm_offset :: "usize option"
  mm_valid :: "usize option"

record scalar_message =
  sc_id :: MessageId
  sc_arg1 :: usize
  sc_arg2 :: usize
  sc_arg3 :: usize
  sc_arg4 :: usize

datatype (plugins only: code size) Message =
    MutableBorrow memory_message
  | Borrow memory_message
  | Move memory_message
  | Scalar scalar_message
  | BlockingScalar scalar_message

definition memory_message_from_usize ::
  "usize \<Rightarrow> usize \<Rightarrow> usize \<Rightarrow> usize \<Rightarrow> usize \<Rightarrow> memory_message option" where
  "memory_message_from_usize mid addr sz offset valid =
     (if addr = 0 then None else if sz = 0 then None
      else Some \<lparr>mm_id = mid, mm_buf = \<lparr>mr_addr = addr, mr_size = sz\<rparr>,
                 mm_offset = nz_new offset, mm_valid = nz_new valid\<rparr>)"

definition memory_message_to_usize :: "memory_message \<Rightarrow> usize list" where
  "memory_message_to_usize m =
     [mm_id m, mr_addr (mm_buf m), mr_size (mm_buf m), nz_get (mm_offset m), nz_get (mm_valid m)]"

definition scalar_message_from_usize ::
  "usize \<Rightarrow> usize \<Rightarrow> usize \<Rightarrow> usize \<Rightarrow> usize \<Rightarrow> scalar_message" where
  "scalar_message_from_usize mid a1 a2 a3 a4 =
     \<lparr>sc_id = mid, sc_arg1 = a1, sc_arg2 = a2, sc_arg3 = a3, sc_arg4 = a4\<rparr>"

definition scalar_message_to_usize :: "scalar_message \<Rightarrow> usize list" where
  "scalar_message_to_usize s = [sc_id s, sc_arg1 s, sc_arg2 s, sc_arg3 s, sc_arg4 s]"

primrec is_blocking :: "Message \<Rightarrow> bool" where
  "is_blocking (MutableBorrow _) = True"
| "is_blocking (Borrow _) = True"
| "is_blocking (BlockingScalar _) = True"
| "is_blocking (Move _) = False"
| "is_blocking (Scalar _) = False"

primrec message_has_memory :: "Message \<Rightarrow> bool" where
  "message_has_memory (MutableBorrow _) = True"
| "message_has_memory (Borrow _) = True"
| "message_has_memory (Move _) = True"
| "message_has_memory (BlockingScalar _) = False"
| "message_has_memory (Scalar _) = False"

primrec memory_message_of :: "Message \<Rightarrow> memory_message option" where
  "memory_message_of (MutableBorrow m) = Some m"
| "memory_message_of (Borrow m) = Some m"
| "memory_message_of (Move m) = Some m"
| "memory_message_of (BlockingScalar _) = None"
| "memory_message_of (Scalar _) = None"

definition message_memory :: "Message \<Rightarrow> memory_range option" where
  "message_memory msg = map_option mm_buf (memory_message_of msg)"

primrec message_type :: "Message \<Rightarrow> usize" where
  "message_type (MutableBorrow _) = 1"
| "message_type (Borrow _) = 2"
| "message_type (Move _) = 3"
| "message_type (Scalar _) = 4"
| "message_type (BlockingScalar _) = 5"

primrec message_id :: "Message \<Rightarrow> MessageId" where
  "message_id (MutableBorrow m) = mm_id m"
| "message_id (Borrow m) = mm_id m"
| "message_id (Move m) = mm_id m"
| "message_id (Scalar s) = sc_id s"
| "message_id (BlockingScalar s) = sc_id s"

primrec message_set_id :: "MessageId \<Rightarrow> Message \<Rightarrow> Message" where
  "message_set_id i (MutableBorrow m) = MutableBorrow (m\<lparr>mm_id := i\<rparr>)"
| "message_set_id i (Borrow m) = Borrow (m\<lparr>mm_id := i\<rparr>)"
| "message_set_id i (Move m) = Move (m\<lparr>mm_id := i\<rparr>)"
| "message_set_id i (Scalar s) = Scalar (s\<lparr>sc_id := i\<rparr>)"
| "message_set_id i (BlockingScalar s) = BlockingScalar (s\<lparr>sc_id := i\<rparr>)"

primrec message_to_usize :: "Message \<Rightarrow> usize list" where
  "message_to_usize (MutableBorrow m) = 0 # memory_message_to_usize m"
| "message_to_usize (Borrow m) = 1 # memory_message_to_usize m"
| "message_to_usize (Move m) = 2 # memory_message_to_usize m"
| "message_to_usize (Scalar s) = 3 # scalar_message_to_usize s"
| "message_to_usize (BlockingScalar s) = 4 # scalar_message_to_usize s"

text \<open>\<open>TryFrom<(usize, ..)> for Message\<close>: the request encoding, with types 1 to 5.\<close>

definition mk_memory :: "usize \<Rightarrow> usize \<Rightarrow> usize \<Rightarrow> usize \<Rightarrow> usize \<Rightarrow> memory_message kresult" where
  "mk_memory v1 v2 v3 v4 v5 = (case memory_range_new v2 v3 of
     Ok r \<Rightarrow> Ok \<lparr>mm_id = v1, mm_buf = r, mm_offset = nz_new v4, mm_valid = nz_new v5\<rparr>
   | Err e \<Rightarrow> Err e | Panic \<Rightarrow> Panic)"

fun mk_borrow :: "(memory_message \<Rightarrow> Message) \<Rightarrow> memory_message kresult \<Rightarrow> Message option" where
  "mk_borrow c (Ok m) = Some (c m)"
| "mk_borrow c _ = None"

definition message_try_from ::
  "usize \<Rightarrow> usize \<Rightarrow> usize \<Rightarrow> usize \<Rightarrow> usize \<Rightarrow> usize \<Rightarrow> Message option" where
  "message_try_from v0 v1 v2 v3 v4 v5 =
     (if v0 = 1 then mk_borrow MutableBorrow (mk_memory v1 v2 v3 v4 v5)
      else if v0 = 2 then mk_borrow Borrow (mk_memory v1 v2 v3 v4 v5)
      else if v0 = 3 then mk_borrow Move (mk_memory v1 v2 v3 v4 v5)
      else if v0 = 4 then
        Some (Scalar \<lparr>sc_id = v1, sc_arg1 = v2, sc_arg2 = v3, sc_arg3 = v4, sc_arg4 = v5\<rparr>)
      else if v0 = 5 then
        Some (BlockingScalar \<lparr>sc_id = v1, sc_arg1 = v2, sc_arg2 = v3, sc_arg3 = v4, sc_arg4 = v5\<rparr>)
      else None)"

type_synonym MessageSender = usize

definition sender_pid :: "MessageSender \<Rightarrow> PID option" where
  "sender_pid data = nz_new (ucast ((drop_bit 24 data) AND 0xff) :: u8)"

record envelope =
  env_sender :: MessageSender
  env_body :: Message

definition envelope_to_usize :: "envelope \<Rightarrow> usize list" where
  "envelope_to_usize e = env_sender e # message_to_usize (env_body e)"

section \<open>Processes, threads and exceptions\<close>

record process_init =
  pi_stack :: memory_range
  pi_text :: memory_range
  pi_text_destination :: usize
  pi_start :: usize

definition process_init_to_args :: "process_init \<Rightarrow> usize list" where
  "process_init_to_args src =
     [mr_addr (pi_stack src), mr_size (pi_stack src), mr_addr (pi_text src), mr_size (pi_text src),
      pi_text_destination src, pi_start src, 0]"

definition process_init_try_from :: "usize list \<Rightarrow> process_init kresult" where
  "process_init_try_from src =
     (case memory_range_new (src ! 0) (src ! 1) of
        Ok stack \<Rightarrow> (case memory_range_new (src ! 2) (src ! 3) of
           Ok text \<Rightarrow>
             (if src ! 4 = 0 then Err OutOfMemory else if src ! 5 = 0 then Err OutOfMemory
              else Ok \<lparr>pi_stack = stack, pi_text = text,
                       pi_text_destination = src ! 4, pi_start = src ! 5\<rparr>)
         | _ \<Rightarrow> Err OutOfMemory)
      | _ \<Rightarrow> Err OutOfMemory)"

record process_startup =
  ps_pid :: PID
  ps_connection :: CID

definition process_startup_from_args :: "usize list \<Rightarrow> process_startup" where
  "process_startup_from_args src =
     \<lparr>ps_pid = (case nz_new (ucast (src ! 1) :: u8) of Some o' \<Rightarrow> o' | None \<Rightarrow> 255),
      ps_connection = src ! 2\<rparr>"

definition process_startup_to_args :: "process_startup \<Rightarrow> usize list" where
  "process_startup_to_args p = [ucast (ps_pid p), ps_connection p, 0, 0, 0, 0, 0]"

record thread_init =
  ti_call :: usize
  ti_stack :: memory_range
  ti_arg1 :: usize
  ti_arg2 :: usize
  ti_arg3 :: usize
  ti_arg4 :: usize

definition thread_init_default :: thread_init where
  "thread_init_default = \<lparr>ti_call = 1, ti_stack = \<lparr>mr_addr = 4, mr_size = 4\<rparr>,
     ti_arg1 = 0, ti_arg2 = 0, ti_arg3 = 0, ti_arg4 = 0\<rparr>"

definition thread_to_args :: "usize \<Rightarrow> thread_init \<Rightarrow> usize list" where
  "thread_to_args syscall init =
     [syscall, ti_call init, mr_addr (ti_stack init), mr_size (ti_stack init),
      ti_arg1 init, ti_arg2 init, ti_arg3 init, ti_arg4 init]"

definition args_to_thread ::
  "usize \<Rightarrow> usize \<Rightarrow> usize \<Rightarrow> usize \<Rightarrow> usize \<Rightarrow> usize \<Rightarrow> usize \<Rightarrow> thread_init kresult" where
  "args_to_thread a1 a2 a3 a4 a5 a6 a7 = (case memory_range_new a2 a3 of
     Ok r \<Rightarrow> Ok \<lparr>ti_call = a1, ti_stack = r, ti_arg1 = a4, ti_arg2 = a5, ti_arg3 = a6, ti_arg4 = a7\<rparr>
   | _ \<Rightarrow> Err InvalidSyscall)"

datatype (plugins only: code size) Exception =
    InstructionAddressMisaligned usize usize
  | InstructionAccessFault usize usize
  | IllegalInstruction usize usize
  | LoadAddressMisaligned usize usize
  | LoadAccessFault usize usize
  | StoreAddressMisaligned usize usize
  | StoreAccessFault usize usize
  | InstructionPageFault usize usize
  | LoadPageFault usize usize
  | StorePageFault usize usize
  | UnknownException usize usize usize

definition exception_new :: "usize \<Rightarrow> usize \<Rightarrow> usize \<Rightarrow> Exception" where
  "exception_new a0 a1 a2 =
     (if a0 = 0 then InstructionAddressMisaligned a1 a2
      else if a0 = 1 then InstructionAccessFault a1 a2
      else if a0 = 2 then IllegalInstruction a1 a2
      else if a0 = 3 then LoadAddressMisaligned a1 a2
      else if a0 = 4 then LoadAccessFault a1 a2
      else if a0 = 5 then StoreAddressMisaligned a1 a2
      else if a0 = 6 then StoreAccessFault a1 a2
      else if a0 = 7 then InstructionPageFault a1 a2
      else if a0 = 8 then LoadPageFault a1 a2
      else if a0 = 9 then StorePageFault a1 a2
      else UnknownException a0 a1 a2)"

primrec exception_pc :: "Exception \<Rightarrow> usize" where
  "exception_pc (InstructionAddressMisaligned pc _) = pc"
| "exception_pc (InstructionAccessFault pc _) = pc"
| "exception_pc (IllegalInstruction pc _) = pc"
| "exception_pc (LoadAddressMisaligned pc _) = pc"
| "exception_pc (LoadAccessFault pc _) = pc"
| "exception_pc (StoreAddressMisaligned pc _) = pc"
| "exception_pc (StoreAccessFault pc _) = pc"
| "exception_pc (InstructionPageFault pc _) = pc"
| "exception_pc (LoadPageFault pc _) = pc"
| "exception_pc (StorePageFault pc _) = pc"
| "exception_pc (UnknownException _ pc _) = pc"

primrec exception_address :: "Exception \<Rightarrow> usize option" where
  "exception_address (InstructionAddressMisaligned _ a) = Some a"
| "exception_address (InstructionAccessFault _ a) = Some a"
| "exception_address (LoadAddressMisaligned _ a) = Some a"
| "exception_address (LoadAccessFault _ a) = Some a"
| "exception_address (StoreAddressMisaligned _ a) = Some a"
| "exception_address (StoreAccessFault _ a) = Some a"
| "exception_address (InstructionPageFault _ a) = Some a"
| "exception_address (LoadPageFault _ a) = Some a"
| "exception_address (StorePageFault _ a) = Some a"
| "exception_address (IllegalInstruction _ _) = None"
| "exception_address (UnknownException _ _ _) = None"

section \<open>Results of system calls\<close>

datatype (plugins only: code size) XResult =
    R_Ok
  | R_Error Error
  | R_MemoryAddress usize
  | R_MemoryRange memory_range
  | R_ReadyThreads usize usize usize usize usize usize usize
  | R_ResumeProcess
  | R_ServerID SID
  | R_ConnectionID CID
  | R_NewServerID SID CID
  | R_MessageEnvelope envelope
  | R_ThreadID TID
  | R_ProcessID PID
  | R_Unimplemented
  | R_BlockedProcess
  | R_Scalar1 usize
  | R_Scalar2 usize usize
  | R_RetryCall
  | R_None
  | R_MemoryReturned "usize option" "usize option"
  | R_NewProcess process_startup
  | R_Scalar5 usize usize usize usize usize
  | R_Message Message
  | R_UnknownResult usize usize usize usize usize usize usize

primrec result_to_args :: "XResult \<Rightarrow> usize list" where
  "result_to_args R_Ok = [0, 0, 0, 0, 0, 0, 0, 0]"
| "result_to_args (R_Error e) = [1, error_to_usize e, 0, 0, 0, 0, 0, 0]"
| "result_to_args (R_MemoryAddress s) = [2, s, 0, 0, 0, 0, 0, 0]"
| "result_to_args (R_MemoryRange r) = [3, mr_addr r, mr_size r, 0, 0, 0, 0, 0]"
| "result_to_args (R_ReadyThreads count pid0 ctx0 pid1 ctx1 pid2 ctx2) =
     [4, count, pid0, ctx0, pid1, ctx1, pid2, ctx2]"
| "result_to_args R_ResumeProcess = [5, 0, 0, 0, 0, 0, 0, 0]"
| "result_to_args (R_ServerID sid) = 6 # sid_to_u32 sid @ [0, 0, 0]"
| "result_to_args (R_ConnectionID cid) = [7, cid, 0, 0, 0, 0, 0, 0]"
| "result_to_args (R_MessageEnvelope me) = 9 # envelope_to_usize me"
| "result_to_args (R_ThreadID ctx) = [10, ctx, 0, 0, 0, 0, 0, 0]"
| "result_to_args (R_ProcessID pid) = [11, ucast pid, 0, 0, 0, 0, 0, 0]"
| "result_to_args R_Unimplemented = [21, 0, 0, 0, 0, 0, 0, 0]"
| "result_to_args R_BlockedProcess = [13, 0, 0, 0, 0, 0, 0, 0]"
| "result_to_args (R_Scalar1 a) = [14, a, 0, 0, 0, 0, 0, 0]"
| "result_to_args (R_Scalar2 a b) = [15, a, b, 0, 0, 0, 0, 0]"
| "result_to_args (R_NewServerID sid cid) = 8 # sid_to_u32 sid @ [cid, 0, 0]"
| "result_to_args R_RetryCall = [16, 0, 0, 0, 0, 0, 0, 0]"
| "result_to_args R_None = [17, 0, 0, 0, 0, 0, 0, 0]"
| "result_to_args (R_MemoryReturned offset valid) =
     [18, nz_get offset, nz_get valid, 0, 0, 0, 0, 0]"
| "result_to_args (R_NewProcess p) = 19 # process_startup_to_args p"
| "result_to_args (R_Scalar5 a b c d e) = [20, a, b, c, d, e, 0, 0]"
| "result_to_args (R_Message m) = 21 # message_to_usize m @ [0]"
| "result_to_args (R_UnknownResult a1 a2 a3 a4 a5 a6 a7) = [-1, a1, a2, a3, a4, a5, a6, a7]"

text \<open>
  The message part of a result, with types 0 to 4; \<open>None\<close> stands for the early
  return of \<open>Result::Error(Error::InternalError)\<close>.  The source writes this
  match twice, for \<open>MessageEnvelope\<close> and for \<open>Message\<close>.
\<close>

definition message_from_result ::
  "usize \<Rightarrow> usize \<Rightarrow> usize \<Rightarrow> usize \<Rightarrow> usize \<Rightarrow> usize \<Rightarrow> Message option" where
  "message_from_result t a b c d e =
     (if t = 0 then map_option MutableBorrow (memory_message_from_usize a b c d e)
      else if t = 1 then map_option Borrow (memory_message_from_usize a b c d e)
      else if t = 2 then map_option Move (memory_message_from_usize a b c d e)
      else if t = 3 then Some (Scalar (scalar_message_from_usize a b c d e))
      else if t = 4 then Some (BlockingScalar (scalar_message_from_usize a b c d e))
      else None)"

definition result_from_args :: "usize list \<Rightarrow> XResult kresult" where
  "result_from_args src =
     (if src ! 0 = 0 then Ok R_Ok
      else if src ! 0 = 1 then Ok (R_Error (error_from_usize (src ! 1)))
      else if src ! 0 = 2 then
        Ok (case nz_new (src ! 1) of None \<Rightarrow> R_Error InternalError | Some s \<Rightarrow> R_MemoryAddress s)
      else if src ! 0 = 3 then
        Ok (case nz_new (src ! 1) of None \<Rightarrow> R_Error InternalError
            | Some addr \<Rightarrow> (case nz_new (src ! 2) of None \<Rightarrow> R_Error InternalError
               | Some sz \<Rightarrow> R_MemoryRange \<lparr>mr_addr = addr, mr_size = sz\<rparr>))
      else if src ! 0 = 4 then
        Ok (R_ReadyThreads (src ! 1) (src ! 2) (src ! 3) (src ! 4) (src ! 5) (src ! 6) (src ! 7))
      else if src ! 0 = 5 then Ok R_ResumeProcess
      else if src ! 0 = 6 then Ok (R_ServerID (SID (src ! 1) (src ! 2) (src ! 3) (src ! 4)))
      else if src ! 0 = 7 then Ok (R_ConnectionID (src ! 1))
      else if src ! 0 = 8 then
        Ok (R_NewServerID (SID (src ! 1) (src ! 2) (src ! 3) (src ! 4)) (src ! 5))
      else if src ! 0 = 9 then
        Ok (case message_from_result (src ! 2) (src ! 3) (src ! 4) (src ! 5) (src ! 6) (src ! 7) of
              None \<Rightarrow> R_Error InternalError
            | Some m \<Rightarrow> R_MessageEnvelope \<lparr>env_sender = src ! 1, env_body = m\<rparr>)
      else if src ! 0 = 10 then Ok (R_ThreadID (src ! 1))
      else if src ! 0 = 11 then
        (case nz_new (ucast (src ! 1) :: u8) of None \<Rightarrow> Panic | Some p \<Rightarrow> Ok (R_ProcessID p))
      else if src ! 0 = 12 then Ok R_Unimplemented
      else if src ! 0 = 13 then Ok R_BlockedProcess
      else if src ! 0 = 14 then Ok (R_Scalar1 (src ! 1))
      else if src ! 0 = 15 then Ok (R_Scalar2 (src ! 1) (src ! 2))
      else if src ! 0 = 16 then Ok R_RetryCall
      else if src ! 0 = 17 then Ok R_None
      else if src ! 0 = 18 then Ok (R_MemoryReturned (nz_new (src ! 1)) (nz_new (src ! 2)))
      else if src ! 0 = 19 then Ok (R_NewProcess (process_startup_from_args src))
      else if src ! 0 = 20 then
        Ok (R_Scalar5 (src ! 1) (src ! 2) (src ! 3) (src ! 4) (src ! 5))
      else if src ! 0 = 21 then
        Ok (case message_from_result (src ! 1) (src ! 2) (src ! 3) (src ! 4) (src ! 5) (src ! 6) of
              None \<Rightarrow> R_Error InternalError | Some m \<Rightarrow> R_Message m)
      else Ok (R_UnknownResult (src ! 0) (src ! 1) (src ! 2) (src ! 3) (src ! 4) (src ! 5) (src ! 6)))"

definition result_memory :: "XResult \<Rightarrow> memory_range option" where
  "result_memory r = (case r of
     R_MessageEnvelope msg \<Rightarrow> message_memory (env_body msg)
   | R_Message msg \<Rightarrow> message_memory msg
   | _ \<Rightarrow> None)"

section \<open>Well-formed values\<close>

text \<open>What the Rust types guarantee of the values: \<open>NonZero\<close> fields are not zero.\<close>

definition opt_nz :: "'a::len word option \<Rightarrow> bool" where
  "opt_nz v = (v \<noteq> Some 0)"

definition memory_message_wf :: "memory_message \<Rightarrow> bool" where
  "memory_message_wf m = (range_wf (mm_buf m) \<and> opt_nz (mm_offset m) \<and> opt_nz (mm_valid m))"

primrec message_wf :: "Message \<Rightarrow> bool" where
  "message_wf (MutableBorrow m) = memory_message_wf m"
| "message_wf (Borrow m) = memory_message_wf m"
| "message_wf (Move m) = memory_message_wf m"
| "message_wf (Scalar _) = True"
| "message_wf (BlockingScalar _) = True"

definition process_init_wf :: "process_init \<Rightarrow> bool" where
  "process_init_wf p =
     (range_wf (pi_stack p) \<and> range_wf (pi_text p) \<and> pi_text_destination p \<noteq> 0 \<and> pi_start p \<noteq> 0)"

definition result_wf :: "XResult \<Rightarrow> bool" where
  "result_wf r = (case r of
     R_MemoryAddress a \<Rightarrow> a \<noteq> 0
   | R_MemoryRange m \<Rightarrow> range_wf m
   | R_MessageEnvelope e \<Rightarrow> message_wf (env_body e)
   | R_ProcessID p \<Rightarrow> p \<noteq> 0
   | R_MemoryReturned a b \<Rightarrow> opt_nz a \<and> opt_nz b
   | R_NewProcess p \<Rightarrow> ps_pid p \<noteq> 0
   | R_Message m \<Rightarrow> message_wf m
   | _ \<Rightarrow> True)"

text \<open>
  What the receiver of an encoded result decodes.  Two results do not survive:
  \<open>Unimplemented\<close> is encoded as 21, the number of \<open>Message\<close>, and decodes to an
  internal error; \<open>UnknownResult\<close> comes back shifted by one word.
\<close>

definition result_decoded :: "XResult \<Rightarrow> XResult" where
  "result_decoded r = (case r of
     R_Unimplemented \<Rightarrow> R_Error InternalError
   | R_UnknownResult a1 a2 a3 a4 a5 a6 a7 \<Rightarrow> R_UnknownResult (-1) a1 a2 a3 a4 a5 a6
   | _ \<Rightarrow> r)"

section \<open>Encodings and decodings\<close>

fun outcome_opt :: "('e, 'a) outcome \<Rightarrow> 'a option" where
  "outcome_opt (Ok x) = Some x"
| "outcome_opt _ = None"

text \<open>
  An encoding with its partial inverse on the well-formed values.  What a
  client of an encoding needs follows: distinct values have distinct
  encodings, and decoding followed by encoding gives words that decode to
  the same value.
\<close>

locale codec =
  fixes enc :: "'a \<Rightarrow> 'w"
    and dec :: "'w \<Rightarrow> 'a option"
    and wf :: "'a \<Rightarrow> bool"
  assumes dec_enc: "wf x \<Longrightarrow> dec (enc x) = Some x"
begin

lemma enc_inj_on: "inj_on enc {x. wf x}"
  by (rule inj_onI) (metis dec_enc mem_Collect_eq option.inject)

lemma enc_eq_iff: "\<lbrakk>wf x; wf y\<rbrakk> \<Longrightarrow> enc x = enc y \<longleftrightarrow> x = y"
  by (metis dec_enc option.inject)

lemma dec_enc_dec: "\<lbrakk>dec w = Some x; wf x\<rbrakk> \<Longrightarrow> dec (enc x) = dec w"
  by (simp add: dec_enc)

end

lemma memory_range_new_wf [simp]: "range_wf r \<Longrightarrow> memory_range_new (mr_addr r) (mr_size r) = Ok r"
  by (simp add: memory_range_new_def range_wf_def)

lemma memory_range_new_Ok: "memory_range_new a s = Ok r \<Longrightarrow> range_wf r \<and> mr_addr r = a \<and> mr_size r = s"
  by (auto simp: memory_range_new_def range_wf_def split: if_splits)

lemma memory_range_new_not_Panic [simp]: "memory_range_new a s \<noteq> Panic"
  by (simp add: memory_range_new_def)

lemma error_roundtrip [simp]: "error_from_usize (error_to_usize e) = e"
  by (cases e) (simp_all add: error_from_usize_def)

interpretation error_codec: codec error_to_usize "\<lambda>w. Some (error_from_usize w)" "\<lambda>_. True"
  by unfold_locales simp

lemma memory_type_roundtrip [simp]: "memory_type_from (memory_type_as_usize t) = t"
  by (cases t) (simp_all add: memory_type_from_def)

lemma memory_message_roundtrip:
  "memory_message_wf m \<Longrightarrow>
   memory_message_from_usize (mm_id m) (mr_addr (mm_buf m)) (mr_size (mm_buf m))
     (nz_get (mm_offset m)) (nz_get (mm_valid m)) = Some m"
  by (simp add: memory_message_from_usize_def memory_message_wf_def range_wf_def opt_nz_def)

lemma mk_memory_roundtrip:
  "memory_message_wf m \<Longrightarrow>
   mk_memory (mm_id m) (mr_addr (mm_buf m)) (mr_size (mm_buf m))
     (nz_get (mm_offset m)) (nz_get (mm_valid m)) = Ok m"
  by (simp add: mk_memory_def memory_message_wf_def opt_nz_def)

lemma scalar_message_roundtrip [simp]:
  "scalar_message_from_usize (sc_id s) (sc_arg1 s) (sc_arg2 s) (sc_arg3 s) (sc_arg4 s) = s"
  by (simp add: scalar_message_from_usize_def)

text \<open>The request encoding of a message (types 1 to 5) and its decoding.\<close>

fun message_args :: "Message \<Rightarrow> usize list" where
  "message_args msg = message_type msg # tl (message_to_usize msg)"

definition message_of_args :: "usize list \<Rightarrow> Message option" where
  "message_of_args w = message_try_from (w ! 0) (w ! 1) (w ! 2) (w ! 3) (w ! 4) (w ! 5)"

interpretation request_codec: codec message_args message_of_args message_wf
proof
  fix m assume "message_wf m"
  then show "message_of_args (message_args m) = Some m"
    by (cases m) (simp_all add: message_of_args_def message_try_from_def memory_message_to_usize_def
      scalar_message_to_usize_def mk_memory_roundtrip)
qed

lemma message_from_result_to_usize:
  "message_wf m \<Longrightarrow> \<exists>t a b c d e. message_to_usize m = [t, a, b, c, d, e] \<and> message_from_result t a b c d e = Some m"
  by (cases m) (simp_all add: message_from_result_def memory_message_to_usize_def
      scalar_message_to_usize_def memory_message_roundtrip)

lemma length_message_to_usize [simp]: "length (message_to_usize m) = 6"
  by (cases m) (simp_all add: memory_message_to_usize_def scalar_message_to_usize_def)

lemma process_init_roundtrip:
  "process_init_wf p \<Longrightarrow> process_init_try_from (process_init_to_args p) = Ok p"
  by (simp add: process_init_try_from_def process_init_to_args_def process_init_wf_def)

lemma thread_init_roundtrip:
  "range_wf (ti_stack t) \<Longrightarrow>
   args_to_thread (ti_call t) (mr_addr (ti_stack t)) (mr_size (ti_stack t))
     (ti_arg1 t) (ti_arg2 t) (ti_arg3 t) (ti_arg4 t) = Ok t"
  by (simp add: args_to_thread_def)

lemma ucast_u8_u32 [simp]: "ucast (ucast (p :: u8) :: u32) = p"
  by (simp add: ucast_up_ucast_id is_up)

lemma ucast_u8_u32_le: "(ucast (p :: u8) :: u32) \<le> 255"
  using unsigned_less [of p, where 'a = nat]
  by (simp add: word_le_nat_alt unsigned_ucast_eq take_bit_nat_eq_self)

lemma pid_from_usize_ucast [simp]: "p \<noteq> 0 \<Longrightarrow> pid_from_usize (ucast p) = Ok p"
  using ucast_u8_u32_le [of p] by (simp add: pid_from_usize_def not_less)

lemma process_startup_roundtrip:
  "ps_pid p \<noteq> 0 \<Longrightarrow> process_startup_from_args (19 # process_startup_to_args p) = p"
  by (simp add: process_startup_from_args_def process_startup_to_args_def)

lemma result_roundtrip_message:
  "message_wf m \<Longrightarrow> result_from_args (21 # message_to_usize m @ [0]) = Ok (R_Message m)"
  by (drule message_from_result_to_usize) (auto simp: result_from_args_def)

lemma result_roundtrip_envelope:
  "message_wf (env_body e) \<Longrightarrow> result_from_args (9 # envelope_to_usize e) = Ok (R_MessageEnvelope e)"
  by (drule message_from_result_to_usize) (auto simp: result_from_args_def envelope_to_usize_def)

lemma result_roundtrip:
  "result_wf r \<Longrightarrow> result_from_args (result_to_args r) = Ok (result_decoded r)"
proof (cases r)
  case (R_ServerID sid) then show ?thesis by (cases sid) (simp add: result_from_args_def result_decoded_def)
next
  case (R_NewServerID sid c) then show ?thesis by (cases sid) (simp add: result_from_args_def result_decoded_def)
next
  case R_Unimplemented then show ?thesis
    by (simp add: result_from_args_def result_decoded_def message_from_result_def memory_message_from_usize_def)
next
  case (R_MessageEnvelope e)
  assume "result_wf r"
  then show ?thesis using R_MessageEnvelope by (simp add: result_wf_def result_decoded_def result_roundtrip_envelope)
next
  case (R_Message m)
  assume "result_wf r"
  then show ?thesis using R_Message by (simp add: result_wf_def result_decoded_def result_roundtrip_message)
next
  case (R_NewProcess p)
  assume "result_wf r"
  then have "ps_pid p \<noteq> 0" using R_NewProcess by (simp add: result_wf_def)
  from process_startup_roundtrip [OF this] show ?thesis
    using R_NewProcess by (simp add: result_from_args_def result_decoded_def)
qed (simp_all add: result_from_args_def range_wf_def opt_nz_def result_wf_def result_decoded_def)

interpretation result_codec: codec result_to_args "\<lambda>w. outcome_opt (result_from_args w)"
    "\<lambda>r. result_wf r \<and> result_decoded r = r"
  by unfold_locales (simp add: result_roundtrip)

end
