(* ===== verification/Syscall_Abi.thy ===== *)
theory Syscall_Abi
  imports Xous_Defs
begin

text \<open>
  The system-call interface of \<open>xous-rs/src/syscall.rs\<close>: the calls, their
  numbers, the encoding of a call into the eight argument registers
  (\<open>as_args\<close>), the decoding the kernel runs on them (\<open>from_args\<close>), and the
  classification of calls by the memory they carry.  The calls guarded by the
  features \<open>v2p\<close>, \<open>swap\<close> and \<open>raw-trng\<close> are not part of the configuration;
  their numbers decode to \<open>Invalid\<close>.
\<close>

section \<open>System calls and their numbers\<close>

datatype (plugins only: code size) SysCall =
    SC_MapMemory "usize option" "usize option" usize MemoryFlags
  | SC_UnmapMemory memory_range
  | SC_SetMemRegion PID MemoryType usize usize
  | SC_IncreaseHeap usize MemoryFlags
  | SC_DecreaseHeap usize
  | SC_UpdateMemoryFlags memory_range MemoryFlags "PID option"
  | SC_Yield
  | SC_WaitEvent
  | SC_ReceiveMessage SID
  | SC_TryReceiveMessage SID
  | SC_ReturnToParent PID usize
  | SC_ClaimInterrupt usize usize "usize option"
  | SC_FreeInterrupt usize
  | SC_SwitchTo PID usize
  | SC_ReadyThreads PID
  | SC_CreateServerWithAddress SID
  | SC_Connect SID
  | SC_TryConnect SID
  | SC_SendMessage CID Message
  | SC_TrySendMessage CID Message
  | SC_ReturnMemory MessageSender memory_range "usize option" "usize option"
  | SC_ReturnScalar1 MessageSender usize
  | SC_ReturnScalar2 MessageSender usize usize
  | SC_CreateThread thread_init
  | SC_CreateProcess process_init
  | SC_TerminateProcess u32
  | SC_Shutdown
  | SC_CreateServer
  | SC_CreateServerId
  | SC_ConnectForProcess PID SID
  | SC_GetThreadId
  | SC_GetProcessId
  | SC_DestroyServer SID
  | SC_Disconnect CID
  | SC_JoinThread TID
  | SC_SetExceptionHandler usize usize
  | SC_AdjustProcessLimit usize usize usize
  | SC_ReturnScalar5 MessageSender usize usize usize usize usize
  | SC_ReplyAndReceiveNext MessageSender usize usize usize usize usize usize
  | SC_PlatformSpecific usize usize usize usize usize usize usize
  | SC_Invalid usize usize usize usize usize usize usize

datatype (plugins only: code size) SysCallNumber =
    SN_Invalid | SN_MapMemory | SN_Yield | SN_ReturnToParent | SN_ClaimInterrupt | SN_FreeInterrupt
  | SN_SwitchTo | SN_ReadyThreads | SN_WaitEvent | SN_IncreaseHeap | SN_DecreaseHeap
  | SN_UpdateMemoryFlags | SN_SetMemRegion | SN_CreateServerWithAddress | SN_ReceiveMessage
  | SN_SendMessage | SN_Connect | SN_CreateThread | SN_UnmapMemory | SN_ReturnMemory
  | SN_CreateProcess | SN_TerminateProcess | SN_Shutdown | SN_TrySendMessage | SN_TryConnect
  | SN_ReturnScalar1 | SN_ReturnScalar2 | SN_TryReceiveMessage | SN_CreateServer
  | SN_ConnectForProcess | SN_CreateServerId | SN_GetThreadId | SN_GetProcessId | SN_DestroyServer
  | SN_Disconnect | SN_JoinThread | SN_SetExceptionHandler | SN_AdjustProcessLimit
  | SN_ReturnScalar5 | SN_ReplyAndReceiveNext | SN_PlatformSpecific

primrec number_as_usize :: "SysCallNumber \<Rightarrow> usize" where
  "number_as_usize SN_Invalid = 0"
| "number_as_usize SN_MapMemory = 2"
| "number_as_usize SN_Yield = 3"
| "number_as_usize SN_ReturnToParent = 4"
| "number_as_usize SN_ClaimInterrupt = 5"
| "number_as_usize SN_FreeInterrupt = 6"
| "number_as_usize SN_SwitchTo = 7"
| "number_as_usize SN_ReadyThreads = 8"
| "number_as_usize SN_WaitEvent = 9"
| "number_as_usize SN_IncreaseHeap = 10"
| "number_as_usize SN_DecreaseHeap = 11"
| "number_as_usize SN_UpdateMemoryFlags = 12"
| "number_as_usize SN_SetMemRegion = 13"
| "number_as_usize SN_CreateServerWithAddress = 14"
| "number_as_usize SN_ReceiveMessage = 15"
| "number_as_usize SN_SendMessage = 16"
| "number_as_usize SN_Connect = 17"
| "number_as_usize SN_CreateThread = 18"
| "number_as_usize SN_UnmapMemory = 19"
| "number_as_usize SN_ReturnMemory = 20"
| "number_as_usize SN_CreateProcess = 21"
| "number_as_usize SN_TerminateProcess = 22"
| "number_as_usize SN_Shutdown = 23"
| "number_as_usize SN_TrySendMessage = 24"
| "number_as_usize SN_TryConnect = 25"
| "number_as_usize SN_ReturnScalar1 = 26"
| "number_as_usize SN_ReturnScalar2 = 27"
| "number_as_usize SN_TryReceiveMessage = 28"
| "number_as_usize SN_CreateServer = 29"
| "number_as_usize SN_ConnectForProcess = 30"
| "number_as_usize SN_CreateServerId = 31"
| "number_as_usize SN_GetThreadId = 32"
| "number_as_usize SN_GetProcessId = 33"
| "number_as_usize SN_DestroyServer = 34"
| "number_as_usize SN_Disconnect = 35"
| "number_as_usize SN_JoinThread = 36"
| "number_as_usize SN_SetExceptionHandler = 37"
| "number_as_usize SN_AdjustProcessLimit = 38"
| "number_as_usize SN_ReturnScalar5 = 40"
| "number_as_usize SN_ReplyAndReceiveNext = 41"
| "number_as_usize SN_PlatformSpecific = 46"

definition number_from :: "usize \<Rightarrow> SysCallNumber" where
  "number_from val =
     (if val = 2 then SN_MapMemory else if val = 3 then SN_Yield
      else if val = 4 then SN_ReturnToParent else if val = 5 then SN_ClaimInterrupt
      else if val = 6 then SN_FreeInterrupt else if val = 7 then SN_SwitchTo
      else if val = 8 then SN_ReadyThreads else if val = 9 then SN_WaitEvent
      else if val = 10 then SN_IncreaseHeap else if val = 11 then SN_DecreaseHeap
      else if val = 12 then SN_UpdateMemoryFlags else if val = 13 then SN_SetMemRegion
      else if val = 14 then SN_CreateServerWithAddress else if val = 15 then SN_ReceiveMessage
      else if val = 16 then SN_SendMessage else if val = 17 then SN_Connect
      else if val = 18 then SN_CreateThread else if val = 19 then SN_UnmapMemory
      else if val = 20 then SN_ReturnMemory else if val = 21 then SN_CreateProcess
      else if val = 22 then SN_TerminateProcess else if val = 23 then SN_Shutdown
      else if val = 24 then SN_TrySendMessage else if val = 25 then SN_TryConnect
      else if val = 26 then SN_ReturnScalar1 else if val = 27 then SN_ReturnScalar2
      else if val = 28 then SN_TryReceiveMessage else if val = 29 then SN_CreateServer
      else if val = 30 then SN_ConnectForProcess else if val = 31 then SN_CreateServerId
      else if val = 32 then SN_GetThreadId else if val = 33 then SN_GetProcessId
      else if val = 34 then SN_DestroyServer else if val = 35 then SN_Disconnect
      else if val = 36 then SN_JoinThread else if val = 37 then SN_SetExceptionHandler
      else if val = 38 then SN_AdjustProcessLimit else if val = 40 then SN_ReturnScalar5
      else if val = 41 then SN_ReplyAndReceiveNext else if val = 46 then SN_PlatformSpecific
      else SN_Invalid)"

section \<open>Encoding\<close>

definition add_opcode :: "SysCallNumber \<Rightarrow> usize list \<Rightarrow> usize list" where
  "add_opcode opcode args = number_as_usize opcode # args"

primrec send_args :: "SysCallNumber \<Rightarrow> CID \<Rightarrow> Message \<Rightarrow> usize list" where
  "send_args n a1 (MutableBorrow mm) =
     [number_as_usize n, a1, 1, mm_id mm, mr_addr (mm_buf mm), mr_size (mm_buf mm),
      nz_get (mm_offset mm), nz_get (mm_valid mm)]"
| "send_args n a1 (Borrow mm) =
     [number_as_usize n, a1, 2, mm_id mm, mr_addr (mm_buf mm), mr_size (mm_buf mm),
      nz_get (mm_offset mm), nz_get (mm_valid mm)]"
| "send_args n a1 (Move mm) =
     [number_as_usize n, a1, 3, mm_id mm, mr_addr (mm_buf mm), mr_size (mm_buf mm),
      nz_get (mm_offset mm), nz_get (mm_valid mm)]"
| "send_args n a1 (Scalar sc) =
     [number_as_usize n, a1, 4, sc_id sc, sc_arg1 sc, sc_arg2 sc, sc_arg3 sc, sc_arg4 sc]"
| "send_args n a1 (BlockingScalar sc) =
     [number_as_usize n, a1, 5, sc_id sc, sc_arg1 sc, sc_arg2 sc, sc_arg3 sc, sc_arg4 sc]"

primrec as_args :: "SysCall \<Rightarrow> usize list" where
  "as_args (SC_MapMemory a1 a2 a3 a4) =
     [number_as_usize SN_MapMemory, nz_get a1, nz_get a2, a3, a4, 0, 0, 0]"
| "as_args (SC_UnmapMemory rng) =
     [number_as_usize SN_UnmapMemory, mr_addr rng, mr_size rng, 0, 0, 0, 0, 0]"
| "as_args SC_Yield = [number_as_usize SN_Yield, 0, 0, 0, 0, 0, 0, 0]"
| "as_args SC_WaitEvent = [number_as_usize SN_WaitEvent, 0, 0, 0, 0, 0, 0, 0]"
| "as_args (SC_ReceiveMessage sid) =
     number_as_usize SN_ReceiveMessage # sid_to_u32 sid @ [0, 0, 0]"
| "as_args (SC_TryReceiveMessage sid) =
     number_as_usize SN_TryReceiveMessage # sid_to_u32 sid @ [0, 0, 0]"
| "as_args (SC_ConnectForProcess pid sid) =
     number_as_usize SN_ConnectForProcess # ucast pid # sid_to_u32 sid @ [0, 0]"
| "as_args SC_CreateServerId = [number_as_usize SN_CreateServerId, 0, 0, 0, 0, 0, 0, 0]"
| "as_args (SC_ReturnToParent a1 a2) =
     [number_as_usize SN_ReturnToParent, ucast a1, a2, 0, 0, 0, 0, 0]"
| "as_args (SC_ClaimInterrupt a1 a2 a3) =
     [number_as_usize SN_ClaimInterrupt, a1, a2, nz_get a3, 0, 0, 0, 0]"
| "as_args (SC_FreeInterrupt a1) = [number_as_usize SN_FreeInterrupt, a1, 0, 0, 0, 0, 0, 0]"
| "as_args (SC_SwitchTo a1 a2) = [number_as_usize SN_SwitchTo, ucast a1, a2, 0, 0, 0, 0, 0]"
| "as_args (SC_ReadyThreads a1) = [number_as_usize SN_ReadyThreads, ucast a1, 0, 0, 0, 0, 0, 0]"
| "as_args (SC_IncreaseHeap a1 a2) = [number_as_usize SN_IncreaseHeap, a1, a2, 0, 0, 0, 0, 0]"
| "as_args (SC_DecreaseHeap a1) = [number_as_usize SN_DecreaseHeap, a1, 0, 0, 0, 0, 0, 0]"
| "as_args (SC_UpdateMemoryFlags a1 a2 a3) =
     [number_as_usize SN_UpdateMemoryFlags, mr_addr a1, mr_size a1, a2, ucast (nz_get a3), 0, 0, 0]"
| "as_args (SC_SetMemRegion a1 a2 a3 a4) =
     [number_as_usize SN_SetMemRegion, ucast a1, memory_type_as_usize a2, a3, a4, 0, 0, 0]"
| "as_args (SC_CreateServerWithAddress sid) =
     number_as_usize SN_CreateServerWithAddress # sid_to_u32 sid @ [0, 0, 0]"
| "as_args SC_CreateServer = [number_as_usize SN_CreateServer, 0, 0, 0, 0, 0, 0, 0]"
| "as_args (SC_Connect sid) = number_as_usize SN_Connect # sid_to_u32 sid @ [0, 0, 0]"
| "as_args (SC_SendMessage a1 a2) = send_args SN_SendMessage a1 a2"
| "as_args (SC_ReturnMemory sender buf offset valid) =
     [number_as_usize SN_ReturnMemory, sender, mr_addr buf, mr_size buf, nz_get offset, nz_get valid, 0, 0]"
| "as_args (SC_ReplyAndReceiveNext sender arg0 arg1 arg2 arg3 arg4 return_type) =
     [number_as_usize SN_ReplyAndReceiveNext, sender, arg0, arg1, arg2, arg3, arg4, return_type]"
| "as_args (SC_CreateThread init) = thread_to_args (number_as_usize SN_CreateThread) init"
| "as_args (SC_CreateProcess init) = add_opcode SN_CreateProcess (process_init_to_args init)"
| "as_args (SC_TerminateProcess exit_code) =
     [number_as_usize SN_TerminateProcess, exit_code, 0, 0, 0, 0, 0, 0]"
| "as_args SC_Shutdown = [number_as_usize SN_Shutdown, 0, 0, 0, 0, 0, 0, 0]"
| "as_args (SC_TryConnect sid) = number_as_usize SN_TryConnect # sid_to_u32 sid @ [0, 0, 0]"
| "as_args (SC_TrySendMessage a1 a2) = send_args SN_TrySendMessage a1 a2"
| "as_args (SC_ReturnScalar1 sender arg1) =
     [number_as_usize SN_ReturnScalar1, sender, arg1, 0, 0, 0, 0, 0]"
| "as_args (SC_ReturnScalar2 sender arg1 arg2) =
     [number_as_usize SN_ReturnScalar2, sender, arg1, arg2, 0, 0, 0, 0]"
| "as_args SC_GetThreadId = [number_as_usize SN_GetThreadId, 0, 0, 0, 0, 0, 0, 0]"
| "as_args SC_GetProcessId = [number_as_usize SN_GetProcessId, 0, 0, 0, 0, 0, 0, 0]"
| "as_args (SC_DestroyServer sid) = number_as_usize SN_DestroyServer # sid_to_u32 sid @ [0, 0, 0]"
| "as_args (SC_Disconnect cid) = [number_as_usize SN_Disconnect, cid, 0, 0, 0, 0, 0, 0]"
| "as_args (SC_JoinThread tid) = [number_as_usize SN_JoinThread, tid, 0, 0, 0, 0, 0, 0]"
| "as_args (SC_SetExceptionHandler pc sp) =
     [number_as_usize SN_SetExceptionHandler, pc, sp, 0, 0, 0, 0, 0]"
| "as_args (SC_AdjustProcessLimit index current new) =
     [number_as_usize SN_AdjustProcessLimit, index, current, new, 0, 0, 0, 0]"
| "as_args (SC_ReturnScalar5 sender arg1 arg2 arg3 arg4 arg5) =
     [number_as_usize SN_ReturnScalar5, sender, arg1, arg2, arg3, arg4, arg5, 0]"
| "as_args (SC_PlatformSpecific a1 a2 a3 a4 a5 a6 a7) =
     [number_as_usize SN_PlatformSpecific, a1, a2, a3, a4, a5, a6, a7]"
| "as_args (SC_Invalid a1 a2 a3 a4 a5 a6 a7) =
     [number_as_usize SN_Invalid, a1, a2, a3, a4, a5, a6, a7]"

section \<open>Decoding\<close>

text \<open>\<open>?\<close> on a pure fallible call: continue with the value or return the error.\<close>

fun andThen :: "('e, 'a) outcome \<Rightarrow> ('a \<Rightarrow> ('e, 'b) outcome) \<Rightarrow> ('e, 'b) outcome" where
  "andThen (Ok x) f = f x"
| "andThen (Err e) f = Err e"
| "andThen Panic f = Panic"

fun replace_err :: "'e \<Rightarrow> ('e, 'a) outcome \<Rightarrow> ('e, 'a) outcome" where
  "replace_err e' (Err _) = Err e'"
| "replace_err e' (Ok x) = Ok x"
| "replace_err e' Panic = Panic"

text \<open>
  The two message-sending calls differ on a bad buffer: \<open>SendMessage\<close> goes
  through \<open>Message::try_from\<close> and becomes \<open>Invalid\<close>, \<open>TrySendMessage\<close> builds
  the message in place and returns the error of \<open>MemoryRange::new\<close>.
\<close>

definition decode_try_send ::
  "usize \<Rightarrow> usize \<Rightarrow> usize \<Rightarrow> usize \<Rightarrow> usize \<Rightarrow> usize \<Rightarrow> usize \<Rightarrow> SysCall kresult" where
  "decode_try_send a1 a2 a3 a4 a5 a6 a7 =
     (if a2 = 1 then andThen (mk_memory a3 a4 a5 a6 a7) (\<lambda>m. Ok (SC_TrySendMessage a1 (MutableBorrow m)))
      else if a2 = 2 then andThen (mk_memory a3 a4 a5 a6 a7) (\<lambda>m. Ok (SC_TrySendMessage a1 (Borrow m)))
      else if a2 = 3 then andThen (mk_memory a3 a4 a5 a6 a7) (\<lambda>m. Ok (SC_TrySendMessage a1 (Move m)))
      else if a2 = 4 then Ok (SC_TrySendMessage a1 (Scalar
          \<lparr>sc_id = a3, sc_arg1 = a4, sc_arg2 = a5, sc_arg3 = a6, sc_arg4 = a7\<rparr>))
      else if a2 = 5 then Ok (SC_TrySendMessage a1 (BlockingScalar
          \<lparr>sc_id = a3, sc_arg1 = a4, sc_arg2 = a5, sc_arg3 = a6, sc_arg4 = a7\<rparr>))
      else Ok (SC_Invalid a1 a2 a3 a4 a5 a6 a7))"

definition decode_map_memory :: "usize \<Rightarrow> usize \<Rightarrow> usize \<Rightarrow> usize \<Rightarrow> SysCall kresult" where
  "decode_map_memory a1 a2 a3 a4 =
     andThen (ok_or (nz_new a3) InvalidSyscall) (\<lambda>sz.
     andThen (ok_or (flags_from_bits a4) InvalidSyscall) (\<lambda>flags.
     Ok (SC_MapMemory (nz_new a1) (nz_new a2) sz flags)))"

definition from_args ::
  "usize \<Rightarrow> usize \<Rightarrow> usize \<Rightarrow> usize \<Rightarrow> usize \<Rightarrow> usize \<Rightarrow> usize \<Rightarrow> usize \<Rightarrow> SysCall kresult" where
  "from_args a0 a1 a2 a3 a4 a5 a6 a7 = (case number_from a0 of
     SN_MapMemory \<Rightarrow> decode_map_memory a1 a2 a3 a4
   | SN_UnmapMemory \<Rightarrow> andThen (replace_err InvalidSyscall (memory_range_new a1 a2)) (\<lambda>r. Ok (SC_UnmapMemory r))
   | SN_Yield \<Rightarrow> Ok SC_Yield
   | SN_WaitEvent \<Rightarrow> Ok SC_WaitEvent
   | SN_ReceiveMessage \<Rightarrow> Ok (SC_ReceiveMessage (SID a1 a2 a3 a4))
   | SN_TryReceiveMessage \<Rightarrow> Ok (SC_TryReceiveMessage (SID a1 a2 a3 a4))
   | SN_ReturnToParent \<Rightarrow> andThen (pid_from_usize a1) (\<lambda>p. Ok (SC_ReturnToParent p a2))
   | SN_ClaimInterrupt \<Rightarrow> andThen (ok_or (nz_new a2) InvalidSyscall) (\<lambda>f. Ok (SC_ClaimInterrupt a1 f (nz_new a3)))
   | SN_FreeInterrupt \<Rightarrow> Ok (SC_FreeInterrupt a1)
   | SN_SwitchTo \<Rightarrow> andThen (pid_from_usize a1) (\<lambda>p. Ok (SC_SwitchTo p a2))
   | SN_ReadyThreads \<Rightarrow> andThen (pid_from_usize a1) (\<lambda>p. Ok (SC_ReadyThreads p))
   | SN_IncreaseHeap \<Rightarrow> andThen (ok_or (flags_from_bits a2) InvalidSyscall) (\<lambda>f. Ok (SC_IncreaseHeap a1 f))
   | SN_DecreaseHeap \<Rightarrow> Ok (SC_DecreaseHeap a1)
   | SN_UpdateMemoryFlags \<Rightarrow> andThen (memory_range_new a1 a2) (\<lambda>r.
       andThen (ok_or (flags_from_bits a3) InvalidSyscall) (\<lambda>f.
       Ok (SC_UpdateMemoryFlags r f (nz_new (ucast a4 :: u8)))))
   | SN_SetMemRegion \<Rightarrow> andThen (pid_from_usize a1) (\<lambda>p.
       andThen (ok_or (nz_new a3) InvalidSyscall) (\<lambda>addr.
       Ok (SC_SetMemRegion p (memory_type_from a2) addr a4)))
   | SN_CreateServerWithAddress \<Rightarrow> Ok (SC_CreateServerWithAddress (SID a1 a2 a3 a4))
   | SN_CreateServer \<Rightarrow> Ok SC_CreateServer
   | SN_Connect \<Rightarrow> Ok (SC_Connect (SID a1 a2 a3 a4))
   | SN_SendMessage \<Rightarrow> (case message_try_from a2 a3 a4 a5 a6 a7 of
       Some m \<Rightarrow> Ok (SC_SendMessage a1 m)
     | None \<Rightarrow> Ok (SC_Invalid a1 a2 a3 a4 a5 a6 a7))
   | SN_ReturnMemory \<Rightarrow> andThen (memory_range_new a2 a3) (\<lambda>r.
       Ok (SC_ReturnMemory a1 r (nz_new a4) (nz_new a5)))
   | SN_ReplyAndReceiveNext \<Rightarrow> Ok (SC_ReplyAndReceiveNext a1 a2 a3 a4 a5 a6 a7)
   | SN_CreateThread \<Rightarrow> andThen (args_to_thread a1 a2 a3 a4 a5 a6 a7) (\<lambda>t. Ok (SC_CreateThread t))
   | SN_CreateProcess \<Rightarrow> andThen (process_init_try_from [a1, a2, a3, a4, a5, a6, a7]) (\<lambda>p. Ok (SC_CreateProcess p))
   | SN_TerminateProcess \<Rightarrow> Ok (SC_TerminateProcess a1)
   | SN_Shutdown \<Rightarrow> Ok SC_Shutdown
   | SN_TryConnect \<Rightarrow> Ok (SC_TryConnect (SID a1 a2 a3 a4))
   | SN_TrySendMessage \<Rightarrow> decode_try_send a1 a2 a3 a4 a5 a6 a7
   | SN_ReturnScalar1 \<Rightarrow> Ok (SC_ReturnScalar1 a1 a2)
   | SN_ReturnScalar2 \<Rightarrow> Ok (SC_ReturnScalar2 a1 a2 a3)
   | SN_ConnectForProcess \<Rightarrow> andThen (ok_or (nz_new (ucast a1 :: u8)) InvalidSyscall) (\<lambda>p.
       Ok (SC_ConnectForProcess p (SID a2 a3 a4 a5)))
   | SN_CreateServerId \<Rightarrow> Ok SC_CreateServerId
   | SN_GetThreadId \<Rightarrow> Ok SC_GetThreadId
   | SN_GetProcessId \<Rightarrow> Ok SC_GetProcessId
   | SN_DestroyServer \<Rightarrow> Ok (SC_DestroyServer (SID a1 a2 a3 a4))
   | SN_Disconnect \<Rightarrow> Ok (SC_Disconnect a1)
   | SN_JoinThread \<Rightarrow> Ok (SC_JoinThread a1)
   | SN_SetExceptionHandler \<Rightarrow> Ok (SC_SetExceptionHandler a1 a2)
   | SN_AdjustProcessLimit \<Rightarrow> Ok (SC_AdjustProcessLimit a1 a2 a3)
   | SN_ReturnScalar5 \<Rightarrow> Ok (SC_ReturnScalar5 a1 a2 a3 a4 a5 a6)
   | SN_PlatformSpecific \<Rightarrow> Ok (SC_PlatformSpecific a1 a2 a3 a4 a5 a6 a7)
   | SN_Invalid \<Rightarrow> Ok (SC_Invalid a1 a2 a3 a4 a5 a6 a7))"

section \<open>Classification\<close>

text \<open>\<open>usize::MAX\<close> as the return type marks a reply that carries memory.\<close>

definition syscall_has_memory :: "SysCall \<Rightarrow> bool" where
  "syscall_has_memory sc = (case sc of
     SC_TrySendMessage _ msg \<Rightarrow> message_has_memory msg
   | SC_SendMessage _ msg \<Rightarrow> message_has_memory msg
   | SC_ReturnMemory _ _ _ _ \<Rightarrow> True
   | SC_ReplyAndReceiveNext _ _ _ _ _ _ t \<Rightarrow> (t = -1)
   | _ \<Rightarrow> False)"

fun message_is_move :: "Message \<Rightarrow> bool" where
  "message_is_move (Move _) = True"
| "message_is_move _ = False"

definition is_move :: "SysCall \<Rightarrow> bool" where
  "is_move sc = (case sc of
     SC_TrySendMessage _ msg \<Rightarrow> message_is_move msg
   | SC_SendMessage _ msg \<Rightarrow> message_is_move msg
   | _ \<Rightarrow> False)"

definition is_return_memory :: "SysCall \<Rightarrow> bool" where
  "is_return_memory sc = (case sc of
     SC_ReturnMemory _ _ _ _ \<Rightarrow> True
   | SC_ReplyAndReceiveNext _ _ _ _ _ _ t \<Rightarrow> (t = -1)
   | _ \<Rightarrow> False)"

definition syscall_memory :: "SysCall \<Rightarrow> memory_range option" where
  "syscall_memory sc = (case sc of
     SC_TrySendMessage _ msg \<Rightarrow> message_memory msg
   | SC_SendMessage _ msg \<Rightarrow> message_memory msg
   | SC_ReturnMemory _ rng _ _ \<Rightarrow> Some rng
   | SC_ReplyAndReceiveNext _ _ a1 a2 _ _ t \<Rightarrow>
       (if t = -1 then outcome_opt (memory_range_new a1 a2) else None)
   | _ \<Rightarrow> None)"

fun message_replace_memory :: "memory_range \<Rightarrow> Message \<Rightarrow> Message" where
  "message_replace_memory new (Move m) = Move (m\<lparr>mm_buf := new\<rparr>)"
| "message_replace_memory new (Borrow m) = Borrow (m\<lparr>mm_buf := new\<rparr>)"
| "message_replace_memory new (MutableBorrow m) = MutableBorrow (m\<lparr>mm_buf := new\<rparr>)"
| "message_replace_memory new msg = msg"

definition replace_memory :: "memory_range \<Rightarrow> SysCall \<Rightarrow> SysCall" where
  "replace_memory new sc = (case sc of
     SC_TrySendMessage c msg \<Rightarrow> SC_TrySendMessage c (message_replace_memory new msg)
   | SC_SendMessage c msg \<Rightarrow> SC_SendMessage c (message_replace_memory new msg)
   | SC_ReturnMemory s rng o' v \<Rightarrow> SC_ReturnMemory s new o' v
   | SC_ReplyAndReceiveNext s a0 a1 a2 a3 a4 t \<Rightarrow>
       (if t = -1 then SC_ReplyAndReceiveNext s a0 (mr_addr new) (mr_size new) a3 a4 t
        else SC_ReplyAndReceiveNext s a0 a1 a2 a3 a4 t)
   | sc \<Rightarrow> sc)"

definition can_call_from_interrupt :: "SysCall \<Rightarrow> bool" where
  "can_call_from_interrupt sc = (case sc of
     SC_TrySendMessage _ msg \<Rightarrow> (\<not> is_blocking msg)
   | SC_TryConnect _ \<Rightarrow> True
   | SC_FreeInterrupt _ \<Rightarrow> True
   | SC_ClaimInterrupt _ _ _ \<Rightarrow> True
   | SC_TryReceiveMessage _ \<Rightarrow> True
   | SC_ReturnToParent _ _ \<Rightarrow> True
   | SC_ReturnScalar5 _ _ _ _ _ _ \<Rightarrow> True
   | SC_ReturnScalar2 _ _ _ \<Rightarrow> True
   | SC_ReturnScalar1 _ _ \<Rightarrow> True
   | SC_ReturnMemory _ _ _ _ \<Rightarrow> True
   | _ \<Rightarrow> False)"

section \<open>Well-formed calls and the round trip\<close>

definition syscall_wf :: "SysCall \<Rightarrow> bool" where
  "syscall_wf sc = (case sc of
     SC_MapMemory a1 a2 a3 a4 \<Rightarrow> (opt_nz a1 \<and> opt_nz a2 \<and> a3 \<noteq> 0 \<and> a4 \<le> FLAGS_ALL)
   | SC_UnmapMemory r \<Rightarrow> range_wf r
   | SC_SetMemRegion p _ a _ \<Rightarrow> (p \<noteq> 0 \<and> a \<noteq> 0)
   | SC_IncreaseHeap _ f \<Rightarrow> (f \<le> FLAGS_ALL)
   | SC_UpdateMemoryFlags r f p \<Rightarrow> (range_wf r \<and> f \<le> FLAGS_ALL \<and> opt_nz p)
   | SC_ReturnToParent p _ \<Rightarrow> (p \<noteq> 0)
   | SC_ClaimInterrupt _ f a \<Rightarrow> (f \<noteq> 0 \<and> opt_nz a)
   | SC_SwitchTo p _ \<Rightarrow> (p \<noteq> 0)
   | SC_ReadyThreads p \<Rightarrow> (p \<noteq> 0)
   | SC_SendMessage _ m \<Rightarrow> message_wf m
   | SC_TrySendMessage _ m \<Rightarrow> message_wf m
   | SC_ReturnMemory _ r a b \<Rightarrow> (range_wf r \<and> opt_nz a \<and> opt_nz b)
   | SC_CreateThread t \<Rightarrow> range_wf (ti_stack t)
   | SC_CreateProcess p \<Rightarrow> process_init_wf p
   | SC_ConnectForProcess p _ \<Rightarrow> (p \<noteq> 0)
   | _ \<Rightarrow> True)"

definition from_args_list :: "usize list \<Rightarrow> SysCall kresult" where
  "from_args_list w = from_args (w ! 0) (w ! 1) (w ! 2) (w ! 3) (w ! 4) (w ! 5) (w ! 6) (w ! 7)"

lemma number_roundtrip [simp]: "number_from (number_as_usize n) = n"
  by (cases n) (simp_all add: number_from_def)

lemma andThen_Ok_iff: "andThen r f = Ok y \<longleftrightarrow> (\<exists>x. r = Ok x \<and> f x = Ok y)"
  by (cases r) auto

lemma ok_or_Ok_iff [simp]: "ok_or v e = Ok x \<longleftrightarrow> v = Some x"
  by (cases v) auto

lemma ok_or_not_Panic [simp]: "ok_or v e \<noteq> Panic"
  by (cases v) auto

lemma replace_err_simps2 [simp]:
  "replace_err e r = Ok x \<longleftrightarrow> r = Ok x" "replace_err e r = Panic \<longleftrightarrow> r = Panic"
  by (cases r; auto)+

lemma andThen_not_Panic: "\<lbrakk>r \<noteq> Panic; \<And>x. f x \<noteq> Panic\<rbrakk> \<Longrightarrow> andThen r f \<noteq> Panic"
  by (cases r) auto

lemma send_roundtrip:
  assumes "message_wf m"
  shows "from_args_list (send_args SN_SendMessage c m) = Ok (SC_SendMessage c m)"
  using assms
  by (cases m) (simp_all add: from_args_list_def from_args_def message_try_from_def mk_memory_roundtrip
    del: number_as_usize.simps)

lemma try_send_roundtrip:
  assumes "message_wf m"
  shows "from_args_list (send_args SN_TrySendMessage c m) = Ok (SC_TrySendMessage c m)"
  using assms
  by (cases m) (simp_all add: from_args_list_def from_args_def decode_try_send_def mk_memory_roundtrip
    del: number_as_usize.simps)

lemma flags_from_bits_ok [simp]: "f \<le> FLAGS_ALL \<Longrightarrow> flags_from_bits f = Some f"
  by (simp add: flags_from_bits_def not_less)

lemmas decode_simps = from_args_list_def from_args_def decode_map_memory_def thread_to_args_def
  thread_init_roundtrip add_opcode_def process_init_wf_def process_init_try_from_def
  process_init_to_args_def opt_nz_def syscall_wf_def

lemma syscall_roundtrip:
  "syscall_wf sc \<Longrightarrow> from_args_list (as_args sc) = Ok sc"
proof (cases sc)
  case (SC_SendMessage c m)
  assume "syscall_wf sc" then show ?thesis using SC_SendMessage send_roundtrip by (simp add: syscall_wf_def)
next
  case (SC_TrySendMessage c m)
  assume "syscall_wf sc" then show ?thesis using SC_TrySendMessage try_send_roundtrip by (simp add: syscall_wf_def)
next
  case (SC_ReceiveMessage s) then show ?thesis by (cases s) (simp add: decode_simps del: number_as_usize.simps)
next
  case (SC_TryReceiveMessage s) then show ?thesis by (cases s) (simp add: decode_simps del: number_as_usize.simps)
next
  case (SC_ConnectForProcess p s)
  assume "syscall_wf sc" then show ?thesis using SC_ConnectForProcess by (cases s) (simp add: decode_simps del: number_as_usize.simps)
next
  case (SC_CreateServerWithAddress s) then show ?thesis by (cases s) (simp add: decode_simps del: number_as_usize.simps)
next
  case (SC_Connect s) then show ?thesis by (cases s) (simp add: decode_simps del: number_as_usize.simps)
next
  case (SC_TryConnect s) then show ?thesis by (cases s) (simp add: decode_simps del: number_as_usize.simps)
next
  case (SC_DestroyServer s) then show ?thesis by (cases s) (simp add: decode_simps del: number_as_usize.simps)
qed (simp_all add: decode_simps del: number_as_usize.simps)

interpretation syscall_codec: codec as_args "\<lambda>w. outcome_opt (from_args_list w)" syscall_wf
  by unfold_locales (simp add: syscall_roundtrip)

end
