(* ===== verification/Server_Queue.thy ===== *)
theory Server_Queue
  imports Xous_Defs
begin

text \<open>
  The message queue of a server, from \<open>kernel/src/server.rs\<close>.  A server owns
  one page of 128 slots.  A message enters an empty slot stamped with the
  current \<open>tail_generation\<close>, is delivered when its stamp equals
  \<open>head_generation\<close>, and, if its sender blocks, leaves a \<open>Waiting\<close> entry in
  the slot until the server replies.  The theory has the operations of
  \<open>Server\<close>, the queue invariant, the refinement of a first-in first-out list,
  and the pairing of a reply with the sender of the message it answers.

  \<open>destroy\<close> also acts on threads and memory and is modelled with the system
  services.  Slot indices are natural numbers; the generations are \<open>u8\<close> and
  wrap.
\<close>

section \<open>Data\<close>

datatype (plugins only: code size) QueuedMessage =
    QEmpty
  | QBlockingScalarMessage u16 u8 u8 usize usize usize usize usize usize
  | QScalarMessage u16 u8 u8 usize usize usize usize usize usize
  | QMemoryMessageSend u16 u8 u8 usize usize usize usize usize usize
  | QMemoryMessageROLend u16 u8 u8 usize usize usize usize usize usize
  | QMemoryMessageRWLend u16 u8 u8 usize usize usize usize usize usize
  | QMemoryMessageROLendTerminated u16 u8 u8 usize usize usize usize usize usize
  | QMemoryMessageRWLendTerminated u16 u8 u8 usize usize usize usize usize usize
  | QBlockingScalarTerminated u16 u8 u8 usize usize usize usize usize usize
  | QWaitingReturnMemory u16 u8 u8 usize usize usize
  | QWaitingForget u16 u8 u8 usize usize usize
  | QWaitingReturnScalar u16 u8 u8 usize

datatype (plugins only: code size) WaitingMessage =
    WM_None
  | WM_BorrowedMemory PID TID usize usize usize
  | WM_MovedMemory
  | WM_ScalarMessage PID TID
  | WM_ForgetMemory memory_range

text \<open>\<open>queue\<close> is a slice over the backing page; \<open>queue_base\<close> is its address.\<close>

record server =
  srv_sid :: SID
  srv_pid :: PID
  queue_head :: nat
  queue_tail :: nat
  head_generation :: u8
  tail_generation :: u8
  queue_base :: usize
  queue :: "QueuedMessage list"
  ready_threads :: usize

record sender_id =
  sid_sidx :: usize
  sid_idx :: usize
  sid_pid :: "PID option"

definition sender_id_from_usize :: "usize \<Rightarrow> sender_id" where
  "sender_id_from_usize item =
     \<lparr>sid_sidx = drop_bit 16 item AND 0xff, sid_idx = item AND 0xffff,
      sid_pid = nz_new (ucast (drop_bit 24 item) :: u8)\<rparr>"

definition sender_id_to_usize :: "sender_id \<Rightarrow> usize" where
  "sender_id_to_usize val =
     (push_bit 24 (ucast (nz_get (sid_pid val))) OR (push_bit 16 (sid_sidx val) AND 0x00ff0000))
     OR (sid_idx val AND 0xffff)"

primrec is_in_server :: "QueuedMessage \<Rightarrow> bool" where
  "is_in_server QEmpty = False"
| "is_in_server (QBlockingScalarMessage _ _ _ _ _ _ _ _ _) = False"
| "is_in_server (QScalarMessage _ _ _ _ _ _ _ _ _) = False"
| "is_in_server (QMemoryMessageSend _ _ _ _ _ _ _ _ _) = False"
| "is_in_server (QMemoryMessageROLend _ _ _ _ _ _ _ _ _) = False"
| "is_in_server (QMemoryMessageRWLend _ _ _ _ _ _ _ _ _) = False"
| "is_in_server (QMemoryMessageROLendTerminated _ _ _ _ _ _ _ _ _) = False"
| "is_in_server (QMemoryMessageRWLendTerminated _ _ _ _ _ _ _ _ _) = False"
| "is_in_server (QBlockingScalarTerminated _ _ _ _ _ _ _ _ _) = False"
| "is_in_server (QWaitingReturnMemory _ _ _ _ _ _) = True"
| "is_in_server (QWaitingForget _ _ _ _ _ _) = True"
| "is_in_server (QWaitingReturnScalar _ _ _ _) = True"

section \<open>Operations\<close>

text \<open>
  \<open>Server::init\<close>.  A \<open>QueuedMessage\<close> takes 32 bytes and the discriminant of
  \<open>Empty\<close> is 0, so a zeroed backing page is a queue of empty slots.
\<close>

definition server_init :: "PID \<Rightarrow> SID \<Rightarrow> memory_range \<Rightarrow> server option \<Rightarrow> (Error, unit) outcome \<times> server option" where
  "server_init pid sid backing new =
     (case new of Some s \<Rightarrow> (Err MemoryInUse, new)
      | None \<Rightarrow> (Ok (), Some \<lparr>srv_sid = sid, srv_pid = pid, queue_head = 0, queue_tail = 0,
          head_generation = 0, tail_generation = 0, queue_base = mr_addr backing,
          queue = replicate (unat (mr_size backing) div 32) QEmpty, ready_threads = 0\<rparr>))"

definition bump :: "nat \<Rightarrow> nat \<Rightarrow> nat" where
  "bump n i = (if i + 1 \<ge> n then 0 else i + 1)"

definition discard_slot :: "PID \<Rightarrow> QueuedMessage \<Rightarrow> QueuedMessage" where
  "discard_slot pid entry = (case entry of
     QMemoryMessageROLend msg_pid tid idx a1 a2 a3 a4 a5 a6 \<Rightarrow>
       (if msg_pid = ucast pid then QMemoryMessageROLendTerminated msg_pid tid idx a1 a2 a3 a4 a5 a6 else entry)
   | QMemoryMessageRWLend msg_pid tid idx a1 a2 a3 a4 a5 a6 \<Rightarrow>
       (if msg_pid = ucast pid then QMemoryMessageRWLendTerminated msg_pid tid idx a1 a2 a3 a4 a5 a6 else entry)
   | QBlockingScalarMessage msg_pid tid idx a1 a2 a3 a4 a5 a6 \<Rightarrow>
       (if msg_pid = ucast pid then QBlockingScalarTerminated msg_pid tid idx a1 a2 a3 a4 a5 a6 else entry)
   | _ \<Rightarrow> entry)"

definition discard_messages_for_pid :: "PID \<Rightarrow> server \<Rightarrow> server" where
  "discard_messages_for_pid pid s = s\<lparr>queue := map (discard_slot pid) (queue s)\<rparr>"

text \<open>
  The loop that skips a run of empty slots after a reply at the tail.  It stops
  at \<open>queue_head\<close>, so the number of slots is enough fuel.
\<close>

fun skip_empty :: "nat \<Rightarrow> server \<Rightarrow> nat \<Rightarrow> nat" where
  "skip_empty 0 s t = t"
| "skip_empty (Suc k) s t =
     (if t \<noteq> queue_head s \<and> queue s ! t = QEmpty then skip_empty k s (bump (length (queue s)) t) else t)"

record waiting_fields =
  wf_pid :: u16
  wf_tid :: u8
  wf_server_addr :: usize
  wf_client_addr :: usize
  wf_len :: usize
  wf_forget :: bool
  wf_is_memory :: bool

definition waiting_fields_of :: "QueuedMessage \<Rightarrow> waiting_fields option" where
  "waiting_fields_of m = (case m of
     QWaitingReturnMemory pid tid idx server_addr client_addr len \<Rightarrow>
       Some \<lparr>wf_pid = pid, wf_tid = tid, wf_server_addr = server_addr, wf_client_addr = client_addr,
             wf_len = len, wf_forget = False, wf_is_memory = True\<rparr>
   | QWaitingForget pid tid idx server_addr client_addr len \<Rightarrow>
       Some \<lparr>wf_pid = pid, wf_tid = tid, wf_server_addr = server_addr, wf_client_addr = client_addr,
             wf_len = len, wf_forget = True, wf_is_memory = True\<rparr>
   | QWaitingReturnScalar pid tid idx return_address \<Rightarrow>
       Some \<lparr>wf_pid = pid, wf_tid = tid, wf_server_addr = return_address, wf_client_addr = 0,
             wf_len = 0, wf_forget = True, wf_is_memory = False\<rparr>
   | _ \<Rightarrow> None)"

text \<open>What \<open>take_waiting_message\<close> answers once the slot has been emptied.\<close>

definition waiting_result :: "waiting_fields \<Rightarrow> WaitingMessage kresult" where
  "waiting_result w =
     (if \<not> wf_is_memory w then
        (case nz_new (ucast (wf_pid w) :: u8) of
           None \<Rightarrow> Panic | Some pid \<Rightarrow> Ok (WM_ScalarMessage pid (ucast (wf_tid w))))
      else if wf_forget w then
        (case memory_range_new (wf_server_addr w) (wf_len w) of
           Ok r \<Rightarrow> Ok (WM_ForgetMemory r) | Err e \<Rightarrow> Err e | Panic \<Rightarrow> Panic)
      else (case nz_new (wf_server_addr w) of
           None \<Rightarrow> Ok WM_MovedMemory
         | Some server_addr \<Rightarrow> (case nz_new (wf_client_addr w) of
             None \<Rightarrow> Panic
           | Some client_addr \<Rightarrow> (case nz_new (wf_len w) of
               None \<Rightarrow> Panic
             | Some len \<Rightarrow> (case nz_new (ucast (wf_pid w) :: u8) of
                 None \<Rightarrow> Panic
               | Some pid \<Rightarrow> Ok (WM_BorrowedMemory pid (ucast (wf_tid w)) server_addr client_addr len))))))"

definition free_slot :: "nat \<Rightarrow> server \<Rightarrow> server" where
  "free_slot i s =
     (let s' = s\<lparr>queue := (queue s)[i := QEmpty]\<rparr>
      in if i = queue_tail s
         then s'\<lparr>queue_tail := skip_empty (length (queue s)) s' (bump (length (queue s)) i)\<rparr>
         else s')"

definition take_waiting_message :: "nat \<Rightarrow> memory_range option \<Rightarrow> (server, WaitingMessage) kop" where
  "take_waiting_message message_index buf s =
     (if \<not> message_index < length (queue s) then (Err BadAddress, s)
      else (case waiting_fields_of (queue s ! message_index) of
          None \<Rightarrow> (Ok WM_None, s)
        | Some w \<Rightarrow>
            (if wf_is_memory w \<and> (case buf of None \<Rightarrow> False
                 | Some b \<Rightarrow> wf_server_addr w \<noteq> mr_addr b \<or> wf_len w \<noteq> mr_size b)
             then (Err BadAddress, s)
             else (waiting_result w, free_slot message_index s))))"

text \<open>
  The scan both \<open>take_next_message\<close> and \<open>queue_response\<close> make: visit the slots
  in circular order from \<open>start\<close> and give up on coming back to it.
\<close>

fun circ_scan :: "nat \<Rightarrow> nat \<Rightarrow> nat \<Rightarrow> (nat \<Rightarrow> bool) \<Rightarrow> nat \<Rightarrow> nat option" where
  "circ_scan 0 n start P i = None"
| "circ_scan (Suc k) n start P i =
     (if P i then Some i
      else let i' = bump n i in if i' = start then None else circ_scan k n start P i')"

text \<open>The stamp of a slot that holds a message the server has not yet seen.\<close>

primrec slot_gen :: "QueuedMessage \<Rightarrow> u8 option" where
  "slot_gen QEmpty = None"
| "slot_gen (QBlockingScalarMessage _ _ idx _ _ _ _ _ _) = Some idx"
| "slot_gen (QScalarMessage _ _ idx _ _ _ _ _ _) = Some idx"
| "slot_gen (QMemoryMessageSend _ _ idx _ _ _ _ _ _) = Some idx"
| "slot_gen (QMemoryMessageROLend _ _ idx _ _ _ _ _ _) = Some idx"
| "slot_gen (QMemoryMessageRWLend _ _ idx _ _ _ _ _ _) = Some idx"
| "slot_gen (QMemoryMessageROLendTerminated _ _ idx _ _ _ _ _ _) = Some idx"
| "slot_gen (QMemoryMessageRWLendTerminated _ _ idx _ _ _ _ _ _) = Some idx"
| "slot_gen (QBlockingScalarTerminated _ _ idx _ _ _ _ _ _) = Some idx"
| "slot_gen (QWaitingReturnMemory _ _ _ _ _ _) = None"
| "slot_gen (QWaitingForget _ _ _ _ _ _) = None"
| "slot_gen (QWaitingReturnScalar _ _ _ _) = None"

text \<open>
  The envelope and the replacement entry of a slot whose stamp matched.
  \<open>pid.try_into().unwrap()\<close> panics above 255; \<open>Ok None\<close> stands for the \<open>?\<close> on a
  \<open>MemoryRange\<close> that cannot be built, which returns from the function.
\<close>

definition deliver_sender :: "usize \<Rightarrow> nat \<Rightarrow> u16 \<Rightarrow> MessageSender" where
  "deliver_sender sidx i pid = sender_id_to_usize
     \<lparr>sid_sidx = sidx, sid_idx = of_nat i, sid_pid = nz_new (ucast pid :: u8)\<rparr>"

definition deliver_memory ::
  "(memory_message \<Rightarrow> Message) \<Rightarrow> usize \<Rightarrow> nat \<Rightarrow> u16 \<Rightarrow> usize \<Rightarrow> usize \<Rightarrow> usize \<Rightarrow> usize \<Rightarrow> usize \<Rightarrow>
   QueuedMessage \<Rightarrow> (envelope \<times> QueuedMessage) option kresult" where
  "deliver_memory c sidx i pid mid server_addr buf_size offset valid response =
     (if pid > 255 then Panic
      else (case memory_range_new server_addr buf_size of
          Ok r \<Rightarrow> Ok (Some (\<lparr>env_sender = deliver_sender sidx i pid,
             env_body = c \<lparr>mm_id = mid, mm_buf = r, mm_offset = nz_new offset, mm_valid = nz_new valid\<rparr>\<rparr>, response))
        | _ \<Rightarrow> Ok None))"

definition deliver_scalar ::
  "(scalar_message \<Rightarrow> Message) \<Rightarrow> usize \<Rightarrow> nat \<Rightarrow> u16 \<Rightarrow> usize \<Rightarrow> usize \<Rightarrow> usize \<Rightarrow> usize \<Rightarrow> usize \<Rightarrow>
   QueuedMessage \<Rightarrow> (envelope \<times> QueuedMessage) option kresult" where
  "deliver_scalar c sidx i pid mid a1 a2 a3 a4 response =
     (if pid > 255 then Panic
      else Ok (Some (\<lparr>env_sender = deliver_sender sidx i pid,
             env_body = c \<lparr>sc_id = mid, sc_arg1 = a1, sc_arg2 = a2, sc_arg3 = a3, sc_arg4 = a4\<rparr>\<rparr>, response)))"

definition slot_deliver :: "usize \<Rightarrow> nat \<Rightarrow> QueuedMessage \<Rightarrow> (envelope \<times> QueuedMessage) option kresult" where
  "slot_deliver sidx i m = (case m of
     QMemoryMessageROLend pid tid idx client_addr mid server_addr buf_size offset valid \<Rightarrow>
       deliver_memory Borrow sidx i pid mid server_addr buf_size offset valid
         (QWaitingReturnMemory pid tid idx server_addr client_addr buf_size)
   | QMemoryMessageRWLend pid tid idx client_addr mid server_addr buf_size offset valid \<Rightarrow>
       deliver_memory MutableBorrow sidx i pid mid server_addr buf_size offset valid
         (QWaitingReturnMemory pid tid idx server_addr client_addr buf_size)
   | QMemoryMessageROLendTerminated pid tid idx client_addr mid server_addr buf_size offset valid \<Rightarrow>
       deliver_memory Borrow sidx i pid mid server_addr buf_size offset valid
         (QWaitingReturnMemory pid tid idx server_addr client_addr buf_size)
   | QMemoryMessageRWLendTerminated pid tid idx client_addr mid server_addr buf_size offset valid \<Rightarrow>
       deliver_memory MutableBorrow sidx i pid mid server_addr buf_size offset valid
         (QWaitingReturnMemory pid tid idx server_addr client_addr buf_size)
   | QBlockingScalarMessage pid tid idx client_addr mid a1 a2 a3 a4 \<Rightarrow>
       deliver_scalar BlockingScalar sidx i pid mid a1 a2 a3 a4 (QWaitingReturnScalar pid tid idx client_addr)
   | QMemoryMessageSend pid tid idx reserved mid server_addr buf_size offset valid \<Rightarrow>
       deliver_memory Move sidx i pid mid server_addr buf_size offset valid QEmpty
   | QScalarMessage pid tid idx reserved mid a1 a2 a3 a4 \<Rightarrow>
       deliver_scalar Scalar sidx i pid mid a1 a2 a3 a4 QEmpty
   | QBlockingScalarTerminated pid tid idx reserved mid a1 a2 a3 a4 \<Rightarrow>
       deliver_scalar Scalar sidx i pid mid a1 a2 a3 a4 QEmpty
   | _ \<Rightarrow> Ok None)"

definition take_next_message :: "usize \<Rightarrow> (server, envelope option) kop" where
  "take_next_message sidx s =
     (if tail_generation s = head_generation s then (Ok None, s)
      else if \<not> queue_tail s < length (queue s) then (Panic, s)
      else (case circ_scan (length (queue s)) (length (queue s)) (queue_tail s)
                   (\<lambda>i. slot_gen (queue s ! i) = Some (head_generation s)) (queue_tail s) of
          None \<Rightarrow> (Ok None, s)
        | Some i \<Rightarrow> (case slot_deliver sidx i (queue s ! i) of
              Ok None \<Rightarrow> (Ok None, s)
            | Ok (Some (msg, response)) \<Rightarrow>
                (Ok (Some msg),
                 s\<lparr>queue_tail := (if i = queue_tail s then bump (length (queue s)) i else queue_tail s),
                   queue := (queue s)[i := response],
                   head_generation := head_generation s + 1\<rparr>)
            | Err e \<Rightarrow> (Err e, s)
            | Panic \<Rightarrow> (Panic, s))))"

definition queued_entry :: "u8 \<Rightarrow> PID \<Rightarrow> TID \<Rightarrow> Message \<Rightarrow> usize option \<Rightarrow> QueuedMessage" where
  "queued_entry gen pid tid message original_address = (case message of
     Scalar msg \<Rightarrow> QScalarMessage (ucast pid) (ucast tid) gen 0
       (sc_id msg) (sc_arg1 msg) (sc_arg2 msg) (sc_arg3 msg) (sc_arg4 msg)
   | BlockingScalar msg \<Rightarrow> QBlockingScalarMessage (ucast pid) (ucast tid) gen 0
       (sc_id msg) (sc_arg1 msg) (sc_arg2 msg) (sc_arg3 msg) (sc_arg4 msg)
   | Move msg \<Rightarrow> QMemoryMessageSend (ucast pid) (ucast tid) gen (nz_get original_address)
       (mm_id msg) (mr_addr (mm_buf msg)) (mr_size (mm_buf msg)) (nz_get (mm_offset msg)) (nz_get (mm_valid msg))
   | MutableBorrow msg \<Rightarrow> QMemoryMessageRWLend (ucast pid) (ucast tid) gen (nz_get original_address)
       (mm_id msg) (mr_addr (mm_buf msg)) (mr_size (mm_buf msg)) (nz_get (mm_offset msg)) (nz_get (mm_valid msg))
   | Borrow msg \<Rightarrow> QMemoryMessageROLend (ucast pid) (ucast tid) gen (nz_get original_address)
       (mm_id msg) (mr_addr (mm_buf msg)) (mr_size (mm_buf msg)) (nz_get (mm_offset msg)) (nz_get (mm_valid msg)))"

text \<open>The two \<open>for\<close> loops of \<open>queue_message\<close>: from the head to the end, then from 0 to the head.\<close>

definition find_empty :: "server \<Rightarrow> nat option" where
  "find_empty s = (case find (\<lambda>i. queue s ! i = QEmpty) [queue_head s ..< length (queue s)] of
     Some i \<Rightarrow> Some i
   | None \<Rightarrow> find (\<lambda>i. queue s ! i = QEmpty) [0 ..< queue_head s])"

definition advance_head :: "nat \<Rightarrow> server \<Rightarrow> server" where
  "advance_head i s =
     (if i = queue_head s then s\<lparr>queue_head := bump (length (queue s)) i\<rparr> else s)"

definition queue_message :: "PID \<Rightarrow> TID \<Rightarrow> Message \<Rightarrow> usize option \<Rightarrow> (server, nat) kop" where
  "queue_message pid tid message original_address s =
     (if tail_generation s = head_generation s - 1 then (Err ServerQueueFull, s)
      else (case find_empty s of
          None \<Rightarrow> (Err ServerQueueFull, s)
        | Some i \<Rightarrow>
            (Ok i, advance_head i
               (s\<lparr>queue := (queue s)[i := queued_entry (tail_generation s) pid tid message original_address],
                  tail_generation := tail_generation s + 1\<rparr>))))"

definition response_entry :: "PID \<Rightarrow> TID \<Rightarrow> Message \<Rightarrow> usize option \<Rightarrow> QueuedMessage" where
  "response_entry pid tid message client_address = (case message of
     Scalar _ \<Rightarrow> QWaitingReturnScalar (ucast pid) (ucast tid) 0 (nz_get client_address)
   | BlockingScalar _ \<Rightarrow> QWaitingReturnScalar (ucast pid) (ucast tid) 0 (nz_get client_address)
   | Move msg \<Rightarrow> QWaitingForget (ucast pid) (ucast tid) 0
       (mr_addr (mm_buf msg)) (nz_get client_address) (mr_size (mm_buf msg))
   | MutableBorrow msg \<Rightarrow> QWaitingReturnMemory (ucast pid) (ucast tid) 0
       (mr_addr (mm_buf msg)) (nz_get client_address) (mr_size (mm_buf msg))
   | Borrow msg \<Rightarrow> QWaitingReturnMemory (ucast pid) (ucast tid) 0
       (mr_addr (mm_buf msg)) (nz_get client_address) (mr_size (mm_buf msg)))"

definition queue_response :: "PID \<Rightarrow> TID \<Rightarrow> Message \<Rightarrow> usize option \<Rightarrow> (server, nat) kop" where
  "queue_response pid tid message client_address s =
     (if \<not> queue_head s < length (queue s) then (Panic, s)
      else (case circ_scan (length (queue s)) (length (queue s)) (queue_head s)
                   (\<lambda>i. queue s ! i = QEmpty) (queue_head s) of
          None \<Rightarrow> (Err ServerQueueFull, s)
        | Some i \<Rightarrow>
            (Ok i, advance_head i (s\<lparr>queue := (queue s)[i := response_entry pid tid message client_address]\<rparr>))))"

text \<open>\<open>1 << tid\<close>: the shift amount is taken modulo the width.\<close>

definition thread_bit :: "TID \<Rightarrow> usize" where
  "thread_bit tid = push_bit (unat tid mod 32) 1"

fun take_thread_loop :: "nat \<Rightarrow> usize \<Rightarrow> TID \<Rightarrow> server \<Rightarrow> (Error, TID option) outcome \<times> server" where
  "take_thread_loop 0 tmask n s = (Panic, s)"
| "take_thread_loop (Suc k) tmask n s =
     (if ready_threads s AND tmask = tmask
      then (Ok (Some n), s\<lparr>ready_threads := ready_threads s AND NOT tmask\<rparr>)
      else let tmask' = word_rotl 1 tmask in
        if tmask' = 1 then (Panic, s) else take_thread_loop k tmask' (n + 1) s)"

definition take_available_thread :: "(server, TID option) kop" where
  "take_available_thread s =
     (if ready_threads s = 0 then (Ok None, s) else take_thread_loop 32 1 0 s)"

definition return_available_thread :: "TID \<Rightarrow> (server, unit) kop" where
  "return_available_thread tid s =
     (if ready_threads s AND thread_bit tid \<noteq> 0 then (Panic, s)
      else (Ok (), s\<lparr>ready_threads := ready_threads s OR thread_bit tid\<rparr>))"

definition park_thread :: "TID \<Rightarrow> (server, unit) kop" where
  "park_thread tid s =
     (if ready_threads s AND thread_bit tid \<noteq> 0 then (Panic, s)
      else (Ok (), s\<lparr>ready_threads := ready_threads s OR thread_bit tid\<rparr>))"

section \<open>The queue invariant\<close>

definition QUEUE_SLOTS :: nat where [simp]: "QUEUE_SLOTS = 128"

definition pid_ok :: "u16 \<Rightarrow> bool" where
  "pid_ok pid = (pid \<noteq> 0 \<and> pid \<le> 255)"

definition slot_wf :: "QueuedMessage \<Rightarrow> bool" where
  "slot_wf m = (case m of
     QEmpty \<Rightarrow> True
   | QBlockingScalarMessage pid _ _ _ _ _ _ _ _ \<Rightarrow> pid_ok pid
   | QScalarMessage pid _ _ _ _ _ _ _ _ \<Rightarrow> pid_ok pid
   | QBlockingScalarTerminated pid _ _ _ _ _ _ _ _ \<Rightarrow> pid_ok pid
   | QMemoryMessageSend pid _ _ _ _ a l _ _ \<Rightarrow> pid_ok pid \<and> a \<noteq> 0 \<and> l \<noteq> 0
   | QMemoryMessageROLend pid _ _ c _ a l _ _ \<Rightarrow> pid_ok pid \<and> c \<noteq> 0 \<and> a \<noteq> 0 \<and> l \<noteq> 0
   | QMemoryMessageRWLend pid _ _ c _ a l _ _ \<Rightarrow> pid_ok pid \<and> c \<noteq> 0 \<and> a \<noteq> 0 \<and> l \<noteq> 0
   | QMemoryMessageROLendTerminated pid _ _ c _ a l _ _ \<Rightarrow> pid_ok pid \<and> c \<noteq> 0 \<and> a \<noteq> 0 \<and> l \<noteq> 0
   | QMemoryMessageRWLendTerminated pid _ _ c _ a l _ _ \<Rightarrow> pid_ok pid \<and> c \<noteq> 0 \<and> a \<noteq> 0 \<and> l \<noteq> 0
   | QWaitingReturnMemory pid _ _ a c l \<Rightarrow> pid_ok pid \<and> c \<noteq> 0 \<and> a \<noteq> 0 \<and> l \<noteq> 0
   | QWaitingForget pid _ _ a _ l \<Rightarrow> pid_ok pid \<and> a \<noteq> 0 \<and> l \<noteq> 0
   | QWaitingReturnScalar pid _ _ _ \<Rightarrow> pid_ok pid)"

text \<open>
  The stamps present in the queue are exactly the generations from
  \<open>head_generation\<close> up to \<open>tail_generation\<close> (modulo 256), each in one slot.
\<close>

definition queue_inv :: "server \<Rightarrow> bool" where
  "queue_inv s =
     (length (queue s) = QUEUE_SLOTS \<and> queue_head s < QUEUE_SLOTS \<and> queue_tail s < QUEUE_SLOTS \<and>
      (\<forall>i<QUEUE_SLOTS. slot_wf (queue s ! i)) \<and>
      (\<forall>i<QUEUE_SLOTS. \<forall>j<QUEUE_SLOTS. slot_gen (queue s ! i) = slot_gen (queue s ! j) \<longrightarrow>
         slot_gen (queue s ! i) \<noteq> None \<longrightarrow> i = j) \<and>
      (\<forall>g. (\<exists>i<QUEUE_SLOTS. slot_gen (queue s ! i) = Some g) \<longleftrightarrow>
         unat (g - head_generation s) < unat (tail_generation s - head_generation s)))"

section \<open>The first-in first-out view\<close>

text \<open>What a slot says about an undelivered message, and the list of them in order.\<close>

record pending =
  p_pid :: u16
  p_tid :: u8
  p_addr :: usize
  p_msg :: Message

definition pending_memory ::
  "(memory_message \<Rightarrow> Message) \<Rightarrow> u16 \<Rightarrow> u8 \<Rightarrow> usize \<Rightarrow> usize \<Rightarrow> usize \<Rightarrow> usize \<Rightarrow> usize \<Rightarrow> usize \<Rightarrow> pending" where
  "pending_memory c pid tid client mid addr len offset valid =
     \<lparr>p_pid = pid, p_tid = tid, p_addr = client,
      p_msg = c \<lparr>mm_id = mid, mm_buf = \<lparr>mr_addr = addr, mr_size = len\<rparr>,
                 mm_offset = nz_new offset, mm_valid = nz_new valid\<rparr>\<rparr>"

definition pending_scalar ::
  "(scalar_message \<Rightarrow> Message) \<Rightarrow> u16 \<Rightarrow> u8 \<Rightarrow> usize \<Rightarrow> usize \<Rightarrow> usize \<Rightarrow> usize \<Rightarrow> usize \<Rightarrow> usize \<Rightarrow> pending" where
  "pending_scalar c pid tid client mid a1 a2 a3 a4 =
     \<lparr>p_pid = pid, p_tid = tid, p_addr = client,
      p_msg = c \<lparr>sc_id = mid, sc_arg1 = a1, sc_arg2 = a2, sc_arg3 = a3, sc_arg4 = a4\<rparr>\<rparr>"

definition slot_pending :: "QueuedMessage \<Rightarrow> pending option" where
  "slot_pending m = (case m of
     QBlockingScalarMessage pid tid _ c mid a1 a2 a3 a4 \<Rightarrow> Some (pending_scalar BlockingScalar pid tid c mid a1 a2 a3 a4)
   | QScalarMessage pid tid _ c mid a1 a2 a3 a4 \<Rightarrow> Some (pending_scalar Scalar pid tid c mid a1 a2 a3 a4)
   | QBlockingScalarTerminated pid tid _ c mid a1 a2 a3 a4 \<Rightarrow> Some (pending_scalar Scalar pid tid c mid a1 a2 a3 a4)
   | QMemoryMessageSend pid tid _ c mid a l ofs v \<Rightarrow> Some (pending_memory Move pid tid c mid a l ofs v)
   | QMemoryMessageROLend pid tid _ c mid a l ofs v \<Rightarrow> Some (pending_memory Borrow pid tid c mid a l ofs v)
   | QMemoryMessageRWLend pid tid _ c mid a l ofs v \<Rightarrow> Some (pending_memory MutableBorrow pid tid c mid a l ofs v)
   | QMemoryMessageROLendTerminated pid tid _ c mid a l ofs v \<Rightarrow> Some (pending_memory Borrow pid tid c mid a l ofs v)
   | QMemoryMessageRWLendTerminated pid tid _ c mid a l ofs v \<Rightarrow> Some (pending_memory MutableBorrow pid tid c mid a l ofs v)
   | _ \<Rightarrow> None)"

definition slot_of :: "server \<Rightarrow> u8 \<Rightarrow> nat option" where
  "slot_of s g = find (\<lambda>i. slot_gen (queue s ! i) = Some g) [0 ..< length (queue s)]"

definition fifo :: "server \<Rightarrow> pending list" where
  "fifo s = map (\<lambda>k. the (slot_pending (queue s ! the (slot_of s (head_generation s + of_nat k)))))
     [0 ..< unat (tail_generation s - head_generation s)]"

text \<open>What a message looks like once queued.\<close>

definition pending_of :: "PID \<Rightarrow> TID \<Rightarrow> Message \<Rightarrow> usize option \<Rightarrow> pending" where
  "pending_of pid tid msg addr =
     \<lparr>p_pid = ucast pid, p_tid = ucast tid,
      p_addr = (if message_has_memory msg then nz_get addr else 0), p_msg = msg\<rparr>"

definition sendable :: "PID \<Rightarrow> Message \<Rightarrow> usize option \<Rightarrow> bool" where
  "sendable pid msg addr =
     (pid \<noteq> 0 \<and> message_wf msg \<and> (message_has_memory msg \<and> is_blocking msg \<longrightarrow> nz_get addr \<noteq> 0))"

definition discard_pending :: "PID \<Rightarrow> pending \<Rightarrow> pending" where
  "discard_pending pid p = (case p_msg p of
     BlockingScalar sc \<Rightarrow> (if p_pid p = ucast pid then p\<lparr>p_msg := Scalar sc\<rparr> else p)
   | _ \<Rightarrow> p)"

section \<open>The circular scan\<close>

definition circ_order :: "nat \<Rightarrow> nat \<Rightarrow> nat \<Rightarrow> nat list" where
  "circ_order n start i = (if i < start then [i ..< start] else [i ..< n] @ [0 ..< start])"

lemma circ_scan_find:
  assumes "start < n" "i < n" "length (circ_order n start i) \<le> k"
  shows "circ_scan k n start P i = find P (circ_order n start i)"
  using assms
proof (induction k arbitrary: i)
  case 0
  then show ?case by (auto simp: circ_order_def split: if_splits)
next
  case (Suc k)
  have cons: "circ_order n start i = i # (if bump n i = start then [] else circ_order n start (bump n i))"
    using Suc.prems by (auto simp: circ_order_def bump_def upt_conv_Cons)
  have "bump n i < n" using Suc.prems by (auto simp: bump_def)
  then show ?case using Suc.IH [of "bump n i"] Suc.prems(1,3) by (auto simp: cons Let_def)
qed

lemma circ_scan_full:
  "start < n \<Longrightarrow> circ_scan n n start P start = find P ([start ..< n] @ [0 ..< start])"
  using circ_scan_find [of start n start n P] by (simp add: circ_order_def)

lemma circ_scan_Some:
  "\<lbrakk>start < n; circ_scan n n start P start = Some i\<rbrakk> \<Longrightarrow> i < n \<and> P i"
  by (auto simp: circ_scan_full find_Some_iff nth_append)

lemma circ_scan_None:
  "start < n \<Longrightarrow> circ_scan n n start P start = None \<longleftrightarrow> (\<forall>i<n. \<not> P i)"
  by (auto simp: circ_scan_full find_None_iff)

lemma find_empty_scan:
  "queue_head s < length (queue s) \<Longrightarrow>
   find_empty s = circ_scan (length (queue s)) (length (queue s)) (queue_head s) (\<lambda>i. queue s ! i = QEmpty) (queue_head s)"
  by (simp add: find_empty_def circ_scan_full find_append)

lemma bump_less [simp]: "0 < n \<Longrightarrow> bump n i < n"
  by (auto simp: bump_def)

lemma skip_empty_less: "t < length (queue s) \<Longrightarrow> skip_empty k s t < length (queue s)"
proof (induction k arbitrary: t)
  case (Suc k)
  then have "0 < length (queue s)" by linarith
  then show ?case using Suc by simp
qed simp

section \<open>Generations\<close>

lemma gen_window_pop:
  fixes g h t :: "'a::len word"
  assumes "t \<noteq> h"
  shows "unat (g - (h + 1)) < unat (t - (h + 1)) \<longleftrightarrow> unat (g - h) < unat (t - h) \<and> g \<noteq> h"
proof (cases "g = h")
  case True
  have "unat (t - (h + 1)) < unat (t - h)"
    using assms unat_sub_succ [OF assms] by (simp add: unat_gt_0)
  moreover have "unat (h - (h + 1)) \<ge> unat (t - (h+1))"
    by (simp add: word_le_nat_alt [symmetric])
  ultimately show ?thesis using True by simp
next
  case False
  have "unat (g - h) > 0" "unat (t - h) > 0" using False assms by (simp_all add: unat_gt_0)
  then show ?thesis using unat_sub_succ [OF False] unat_sub_succ [OF assms] False by auto
qed

lemma unat_succ:
  fixes a :: "'a::len word"
  assumes "a \<noteq> -1" shows "unat (a + 1) = unat a + 1"
  using assms by (metis Suc_eq_plus1 add.commute unatSuc add_eq_0_iff)

lemma gen_window_push:
  fixes g h t :: "'a::len word"
  assumes "t \<noteq> h - 1"
  shows "unat (g - h) < unat (t + 1 - h) \<longleftrightarrow> unat (g - h) < unat (t - h) \<or> g = t"
proof -
  have "t - h \<noteq> -1" using assms by (auto simp: algebra_simps)
  then have "unat (t + 1 - h) = unat (t - h) + 1"
    using unat_succ [of "t - h"] by (simp add: algebra_simps)
  moreover have "unat (g - h) = unat (t - h) \<longleftrightarrow> g = t" by (simp flip: word_unat_eq_iff)
  ultimately show ?thesis by auto
qed

section \<open>Slots\<close>

lemma slot_pending_gen: "slot_pending m = None \<longleftrightarrow> slot_gen m = None"
  by (cases m) (simp_all add: slot_pending_def)

lemma slot_gen_queued [simp]: "slot_gen (queued_entry g pid tid msg addr) = Some g"
  by (cases msg) (simp_all add: queued_entry_def)

lemma slot_gen_response [simp]: "slot_gen (response_entry pid tid msg addr) = None"
  by (cases msg) (simp_all add: response_entry_def)

lemma slot_pending_response [simp]: "slot_pending (response_entry pid tid msg addr) = None" "slot_pending QEmpty = None"
  by (simp_all add: slot_pending_gen)

lemma slot_gen_discard [simp]: "slot_gen (discard_slot pid m) = slot_gen m"
  by (cases m) (simp_all add: discard_slot_def)

lemma slot_pending_queued:
  "message_wf msg \<Longrightarrow> slot_pending (queued_entry g pid tid msg addr) = Some (pending_of pid tid msg addr)"
  by (cases msg)
    (simp_all add: queued_entry_def slot_pending_def pending_scalar_def pending_memory_def pending_of_def
       memory_message_wf_def opt_nz_def)

lemma slot_pending_discard:
  "slot_pending (discard_slot pid m) = map_option (discard_pending pid) (slot_pending m)"
  by (cases m) (simp_all add: discard_slot_def slot_pending_def discard_pending_def
       pending_scalar_def pending_memory_def)

lemma ucast_u8_u16_le: "(ucast (p :: u8) :: u16) \<le> 255"
  using unsigned_less [of p, where 'a = nat]
  by (simp add: word_le_nat_alt unsigned_ucast_eq take_bit_nat_eq_self)

lemma ucast_u8_u16 [simp]: "ucast (ucast (p :: u8) :: u16) = p"
  by (simp add: ucast_up_ucast_id is_up)

lemma ucast_u8_u16_zero [simp]: "(ucast (p :: u8) :: u16) = 0 \<longleftrightarrow> p = 0"
  by (metis ucast_u8_u16 ucast_0)

lemma pid_ok_ucast [simp]: "pid_ok (ucast (p :: u8)) \<longleftrightarrow> p \<noteq> 0"
  by (simp add: pid_ok_def ucast_u8_u16_le)

lemma slot_wf_queued: "sendable pid msg addr \<Longrightarrow> slot_wf (queued_entry g pid tid msg addr)"
  by (cases msg) (auto simp: slot_wf_def queued_entry_def sendable_def memory_message_wf_def range_wf_def)

lemma slot_wf_response: "sendable pid msg addr \<Longrightarrow> slot_wf (response_entry pid tid msg addr)"
  by (cases msg) (auto simp: slot_wf_def response_entry_def sendable_def memory_message_wf_def range_wf_def)

lemma slot_wf_discard [simp]: "slot_wf (discard_slot pid m) = slot_wf m"
  by (cases m) (simp_all add: slot_wf_def discard_slot_def)

text \<open>Delivery of a well-formed pending slot never fails.\<close>

definition response_slot :: "QueuedMessage \<Rightarrow> QueuedMessage" where
  "response_slot m = (case m of
     QMemoryMessageROLend pid tid idx c mid a l ofs v \<Rightarrow> QWaitingReturnMemory pid tid idx a c l
   | QMemoryMessageRWLend pid tid idx c mid a l ofs v \<Rightarrow> QWaitingReturnMemory pid tid idx a c l
   | QMemoryMessageROLendTerminated pid tid idx c mid a l ofs v \<Rightarrow> QWaitingReturnMemory pid tid idx a c l
   | QMemoryMessageRWLendTerminated pid tid idx c mid a l ofs v \<Rightarrow> QWaitingReturnMemory pid tid idx a c l
   | QBlockingScalarMessage pid tid idx c mid a1 a2 a3 a4 \<Rightarrow> QWaitingReturnScalar pid tid idx c
   | _ \<Rightarrow> QEmpty)"

lemma slot_deliver_wf:
  assumes "slot_wf m" "slot_pending m = Some p"
  shows "slot_deliver sidx i m = Ok (Some (\<lparr>env_sender = deliver_sender sidx i (p_pid p), env_body = p_msg p\<rparr>, response_slot m))"
  using assms
  by (cases m) (auto simp: slot_wf_def slot_pending_def slot_deliver_def deliver_memory_def deliver_scalar_def
     pending_memory_def pending_scalar_def response_slot_def pid_ok_def memory_range_new_def not_less)

lemma slot_gen_response_slot [simp]: "slot_gen (response_slot m) = None"
  by (cases m) (simp_all add: response_slot_def)

lemma slot_wf_response_slot: "slot_wf m \<Longrightarrow> slot_wf (response_slot m)"
  by (cases m) (simp_all add: response_slot_def slot_wf_def)

section \<open>The abstraction is well defined\<close>

lemma queue_invD:
  assumes "queue_inv s"
  shows "length (queue s) = 128" "queue_head s < 128" "queue_tail s < 128"
    and "i < 128 \<Longrightarrow> slot_wf (queue s ! i)"
    and "\<lbrakk>slot_gen (queue s ! i) = Some g; slot_gen (queue s ! j) = Some g; i < 128; j < 128\<rbrakk> \<Longrightarrow> i = j"
    and "(\<exists>i<128. slot_gen (queue s ! i) = Some g) \<longleftrightarrow>
         unat (g - head_generation s) < unat (tail_generation s - head_generation s)"
  using assms by (auto simp: queue_inv_def)

lemma fifo_length [simp]: "length (fifo s) = unat (tail_generation s - head_generation s)"
  by (simp add: fifo_def)

lemma fifo_length_u8: "length (fifo s) < 256"
  using unsigned_less [of "tail_generation s - head_generation s", where 'a = nat] by simp

lemma unat_gen_offset: "k < length (fifo s) \<Longrightarrow> unat (head_generation s + of_nat k - head_generation s) = k"
  using fifo_length_u8 [of s] by (simp add: unsigned_of_nat take_bit_nat_eq_self)

lemma slot_of_eq:
  assumes "queue_inv s" "i < 128" "slot_gen (queue s ! i) = Some g"
  shows "slot_of s g = Some i"
proof -
  obtain j where "slot_of s g = Some j"
    using assms queue_invD(1) [OF assms(1)]
    by (cases "slot_of s g") (auto simp: slot_of_def find_None_iff)
  moreover from this have "j < 128 \<and> slot_gen (queue s ! j) = Some g"
    using queue_invD(1) [OF assms(1)] by (auto simp: slot_of_def find_Some_iff)
  ultimately show ?thesis using queue_invD(5) [OF assms(1)] assms by blast
qed

lemma fifo_nth:
  assumes "queue_inv s" "k < length (fifo s)" "i < 128"
    "slot_gen (queue s ! i) = Some (head_generation s + of_nat k)"
  shows "slot_pending (queue s ! i) = Some (fifo s ! k)"
proof -
  have "fifo s ! k = the (slot_pending (queue s ! i))"
    using assms(2) slot_of_eq [OF assms(1,3,4)] by (simp add: fifo_def)
  then show ?thesis using assms(4) slot_pending_gen by (metis option.collapse option.distinct(1))
qed

lemma fifo_slot:
  assumes "queue_inv s" "k < length (fifo s)"
  obtains i where "i < 128" "slot_gen (queue s ! i) = Some (head_generation s + of_nat k)"
    "slot_pending (queue s ! i) = Some (fifo s ! k)"
proof -
  have "unat (head_generation s + of_nat k - head_generation s) < unat (tail_generation s - head_generation s)"
    using unat_gen_offset [OF assms(2)] assms(2) by simp
  then obtain i where "i < 128" "slot_gen (queue s ! i) = Some (head_generation s + of_nat k)"
    using queue_invD(6) [OF assms(1)] by blast
  with fifo_nth [OF assms this] that show ?thesis by blast
qed

text \<open>
  A list is the abstraction of a queue as soon as its length is the distance of
  the generations and every element is found in the slot with its stamp.
\<close>

lemma fifo_eqI:
  assumes "queue_inv s" "length xs = length (fifo s)"
    and "\<And>k. k < length xs \<Longrightarrow> \<exists>i<128. slot_gen (queue s ! i) = Some (head_generation s + of_nat k) \<and>
                 slot_pending (queue s ! i) = Some (xs ! k)"
  shows "fifo s = xs"
proof (rule nth_equalityI)
  show "length (fifo s) = length xs" using assms(2) by simp
next
  fix k assume k: "k < length (fifo s)"
  then obtain i where "i < 128" "slot_gen (queue s ! i) = Some (head_generation s + of_nat k)"
     "slot_pending (queue s ! i) = Some (xs ! k)" using assms(2,3) by auto
  with fifo_nth [OF assms(1) k this(1,2)] show "fifo s ! k = xs ! k" by simp
qed

section \<open>Operations and the abstraction\<close>

lemma queue_inv_frame:
  assumes "queue_inv s" "length (queue s') = 128" "queue_head s' < 128" "queue_tail s' < 128"
    and "head_generation s' = head_generation s" "tail_generation s' = tail_generation s"
    and "\<And>i. i < 128 \<Longrightarrow> slot_wf (queue s' ! i) \<and> slot_gen (queue s' ! i) = slot_gen (queue s ! i)"
  shows "queue_inv s'"
  using assms(1) unfolding queue_inv_def by (simp add: assms(2-7) cong: conj_cong)

lemma fifo_map_frame:
  assumes "queue_inv s" "queue_inv s'"
    and "head_generation s' = head_generation s" "tail_generation s' = tail_generation s"
    and "\<And>i. i < 128 \<Longrightarrow> slot_gen (queue s' ! i) = slot_gen (queue s ! i) \<and>
           slot_pending (queue s' ! i) = map_option f (slot_pending (queue s ! i))"
  shows "fifo s' = map f (fifo s)"
proof (rule fifo_eqI [OF assms(2)])
  show "length (map f (fifo s)) = length (fifo s')" using assms(3,4) by simp
next
  fix k assume "k < length (map f (fifo s))"
  then have k: "k < length (fifo s)" by simp
  from fifo_slot [OF assms(1) k] obtain i where
    "i < 128" "slot_gen (queue s ! i) = Some (head_generation s + of_nat k)"
    "slot_pending (queue s ! i) = Some (fifo s ! k)" .
  then show "\<exists>i<128. slot_gen (queue s' ! i) = Some (head_generation s' + of_nat k) \<and>
         slot_pending (queue s' ! i) = Some (map f (fifo s) ! k)"
    using assms(3,5) k by auto
qed

lemma queue_pop:
  assumes inv: "queue_inv s" and ne: "tail_generation s \<noteq> head_generation s"
    and i: "i < 128" "slot_gen (queue s ! i) = Some (head_generation s)"
    and r: "slot_gen r = None" "slot_wf r" and t: "t < 128"
  defines "s' \<equiv> s\<lparr>queue_tail := t, queue := (queue s)[i := r], head_generation := head_generation s + 1\<rparr>"
  shows "queue_inv s'" "fifo s' = tl (fifo s)"
proof -
  note D = queue_invD [OF inv]
  have gen: "slot_gen (queue s' ! j) = (if j = i then None else slot_gen (queue s ! j))" if "j < 128" for j
    using that D(1) r(1) by (simp add: s'_def nth_list_update)
  have "(\<exists>j<128. slot_gen (queue s' ! j) = Some g) \<longleftrightarrow>
      (\<exists>j<128. slot_gen (queue s ! j) = Some g) \<and> g \<noteq> head_generation s" for g
    using gen i D(5) by (metis option.inject option.distinct(1))
  then have win: "(\<exists>j<128. slot_gen (queue s' ! j) = Some g) \<longleftrightarrow>
      unat (g - head_generation s') < unat (tail_generation s' - head_generation s')" for g
    using D(6) gen_window_pop [OF ne] by (simp add: s'_def)
  have "\<forall>j<128. slot_wf (queue s' ! j)" using D(1,4) i(1) r(2) by (auto simp: s'_def nth_list_update)
  moreover have "\<forall>j<128. \<forall>l<128. slot_gen (queue s' ! j) = slot_gen (queue s' ! l) \<longrightarrow>
      slot_gen (queue s' ! j) \<noteq> None \<longrightarrow> j = l"
    using gen D(5) by (metis option.exhaust)
  ultimately show inv': "queue_inv s'" unfolding queue_inv_def
    using D(1,2) t win by (simp add: s'_def)
  have len: "length (fifo s) = Suc (length (fifo s'))"
    using unat_sub_succ [OF ne] ne by (simp add: s'_def unat_gt_0)
  show "fifo s' = tl (fifo s)"
  proof (rule fifo_eqI [OF inv'])
    show "length (tl (fifo s)) = length (fifo s')" using len by simp
  next
    fix k assume "k < length (tl (fifo s))"
    then have k: "Suc k < length (fifo s)" by simp
    from fifo_slot [OF inv k] obtain j where
      j: "j < 128" "slot_gen (queue s ! j) = Some (head_generation s + of_nat (Suc k))"
      "slot_pending (queue s ! j) = Some (fifo s ! Suc k)" .
    have "(of_nat (Suc k) :: u8) \<noteq> 0"
      using unat_gen_offset [OF k] by (metis add_diff_cancel_left' nat.distinct(1) unat_0)
    then have "j \<noteq> i" using i(2) j(2) by auto
    then show "\<exists>i<128. slot_gen (queue s' ! i) = Some (head_generation s' + of_nat k) \<and>
         slot_pending (queue s' ! i) = Some (tl (fifo s) ! k)"
      using j k by (intro exI [of _ j]) (simp add: s'_def nth_tl algebra_simps)
  qed
qed

lemma queue_push:
  assumes inv: "queue_inv s" and room: "tail_generation s \<noteq> head_generation s - 1"
    and i: "i < 128" "slot_gen (queue s ! i) = None"
    and r: "slot_gen r = Some (tail_generation s)" "slot_wf r" "slot_pending r = Some p" and h: "h < 128"
  defines "s' \<equiv> s\<lparr>queue := (queue s)[i := r], tail_generation := tail_generation s + 1, queue_head := h\<rparr>"
  shows "queue_inv s'" "fifo s' = fifo s @ [p]"
proof -
  note D = queue_invD [OF inv]
  have gen: "slot_gen (queue s' ! j) = (if j = i then Some (tail_generation s) else slot_gen (queue s ! j))"
    if "j < 128" for j
    using that D(1) r(1) by (simp add: s'_def nth_list_update)
  have fresh: "slot_gen (queue s ! j) \<noteq> Some (tail_generation s)" if "j < 128" for j
    using D(6) [of "tail_generation s"] that by auto
  have "(\<exists>j<128. slot_gen (queue s' ! j) = Some g) \<longleftrightarrow>
      (\<exists>j<128. slot_gen (queue s ! j) = Some g) \<or> g = tail_generation s" for g
    using gen i by (metis option.inject option.distinct(1))
  then have win: "(\<exists>j<128. slot_gen (queue s' ! j) = Some g) \<longleftrightarrow>
      unat (g - head_generation s') < unat (tail_generation s' - head_generation s')" for g
    using D(6) gen_window_push [OF room] by (simp add: s'_def)
  have "\<forall>j<128. slot_wf (queue s' ! j)" using D(1,4) i(1) r(2) by (auto simp: s'_def nth_list_update)
  moreover have "\<forall>j<128. \<forall>l<128. slot_gen (queue s' ! j) = slot_gen (queue s' ! l) \<longrightarrow>
      slot_gen (queue s' ! j) \<noteq> None \<longrightarrow> j = l"
    using gen D(5) fresh by (metis option.exhaust)
  ultimately show inv': "queue_inv s'" unfolding queue_inv_def
    using D(1,3) h win by (simp add: s'_def)
  have "tail_generation s - head_generation s \<noteq> -1" using room by (auto simp: algebra_simps)
  then have len: "length (fifo s') = Suc (length (fifo s))"
    using unat_succ [of "tail_generation s - head_generation s"] by (simp add: s'_def algebra_simps)
  show "fifo s' = fifo s @ [p]"
  proof (rule fifo_eqI [OF inv'])
    show "length (fifo s @ [p]) = length (fifo s')" using len by simp
  next
    fix k assume k: "k < length (fifo s @ [p])"
    show "\<exists>i<128. slot_gen (queue s' ! i) = Some (head_generation s' + of_nat k) \<and>
         slot_pending (queue s' ! i) = Some ((fifo s @ [p]) ! k)"
    proof (cases "k < length (fifo s)")
      case True
      from fifo_slot [OF inv True] obtain j where
        j: "j < 128" "slot_gen (queue s ! j) = Some (head_generation s + of_nat k)"
        "slot_pending (queue s ! j) = Some (fifo s ! k)" .
      then have "j \<noteq> i" using i(2) by auto
      then show ?thesis using j True by (intro exI [of _ j]) (simp add: s'_def nth_append)
    next
      case False
      then have "k = unat (tail_generation s - head_generation s)" using k by simp
      then show ?thesis using i r D(1) by (intro exI [of _ i]) (simp add: s'_def nth_append)
    qed
  qed
qed

lemma fifo_bound:
  assumes "queue_inv s" shows "length (fifo s) \<le> 128"
proof -
  let ?h = "head_generation s"
  have "inj_on (\<lambda>k. Some (?h + of_nat k)) {..<length (fifo s)}"
    by (rule inj_onI) (metis lessThan_iff option.inject unat_gen_offset)
  then have "length (fifo s) = card ((\<lambda>k. Some (?h + of_nat k)) ` {..<length (fifo s)})"
    by (simp add: card_image)
  also have "\<dots> \<le> card ((\<lambda>i. slot_gen (queue s ! i)) ` {..<128})"
    by (intro card_mono) (auto elim!: fifo_slot [OF assms] intro: rev_image_eqI simp del: fifo_length)
  also have "\<dots> \<le> 128" by (metis card_image_le card_lessThan finite_lessThan)
  finally show ?thesis .
qed

lemma generation_room:
  assumes "queue_inv s" shows "tail_generation s \<noteq> head_generation s - 1"
proof
  assume "tail_generation s = head_generation s - 1"
  then have "length (fifo s) = 255" by (simp add: unsigned_minus_1_eq_mask mask_eq_exp_minus_1)
  then show False using fifo_bound [OF assms] by simp
qed

lemma take_next_empty: "fifo s = [] \<Longrightarrow> take_next_message sidx s = (Ok None, s)"
  by (simp add: take_next_message_def fifo_def unat_eq_0 del: fifo_length)

lemma take_next_cons:
  assumes inv: "queue_inv s" and fifo: "fifo s = p # ps"
  shows "\<exists>i s'. i < 128 \<and> slot_pending (queue s ! i) = Some p \<and>
    take_next_message sidx s =
      (Ok (Some \<lparr>env_sender = deliver_sender sidx i (p_pid p), env_body = p_msg p\<rparr>), s') \<and>
    queue s' = (queue s)[i := response_slot (queue s ! i)] \<and> queue_inv s' \<and> fifo s' = ps"
proof -
  note D = queue_invD [OF inv]
  have ne: "tail_generation s \<noteq> head_generation s" using fifo by (auto simp: fifo_def)
  have "0 < length (fifo s)" using fifo by simp
  from fifo_slot [OF inv this] obtain i where
    i: "i < 128" "slot_gen (queue s ! i) = Some (head_generation s)" "slot_pending (queue s ! i) = Some p"
    using fifo by auto
  have scan: "circ_scan 128 128 (queue_tail s) (\<lambda>i. slot_gen (queue s ! i) = Some (head_generation s)) (queue_tail s) = Some i"
    (is "?scan = _")
  proof (cases ?scan)
    case None
    then show ?thesis using circ_scan_None [OF D(3)] i(1,2) by auto
  next
    case (Some j)
    then show ?thesis using circ_scan_Some [OF D(3) Some] i(1,2) D(5) by auto
  qed
  define s' where "s' = s\<lparr>queue_tail := (if i = queue_tail s then bump 128 i else queue_tail s),
     queue := (queue s)[i := response_slot (queue s ! i)], head_generation := head_generation s + 1\<rparr>"
  have "take_next_message sidx s = (Ok (Some \<lparr>env_sender = deliver_sender sidx i (p_pid p), env_body = p_msg p\<rparr>), s')"
    using ne D(1,3) scan slot_deliver_wf [OF D(4) [OF i(1)] i(3)]
    by (simp add: take_next_message_def s'_def)
  moreover have "queue_inv s' \<and> fifo s' = ps"
    using queue_pop [OF inv ne i(1,2), of "response_slot (queue s ! i)"] slot_wf_response_slot [OF D(4) [OF i(1)]] D(3) fifo
    by (simp add: s'_def)
  ultimately show ?thesis using i by (intro exI [of _ i] exI [of _ s']) (simp add: s'_def)
qed

lemma find_empty_Some:
  "\<lbrakk>queue_inv s; find_empty s = Some i\<rbrakk> \<Longrightarrow> i < 128 \<and> queue s ! i = QEmpty"
  using circ_scan_Some [of "queue_head s" 128 "\<lambda>i. queue s ! i = QEmpty" i]
  by (simp add: find_empty_scan queue_invD)

lemma find_empty_None:
  "queue_inv s \<Longrightarrow> find_empty s = None \<longleftrightarrow> (\<forall>i<128. queue s ! i \<noteq> QEmpty)"
  by (frule queue_invD(2)) (simp add: find_empty_scan queue_invD circ_scan_None)

lemma queue_message_cases:
  assumes inv: "queue_inv s" and ok: "sendable pid msg addr"
  shows "case queue_message pid tid msg addr s of
      (Ok i, s') \<Rightarrow> i < 128 \<and> queue s ! i = QEmpty \<and>
         queue s' = (queue s)[i := queued_entry (tail_generation s) pid tid msg addr] \<and>
         queue_inv s' \<and> fifo s' = fifo s @ [pending_of pid tid msg addr]
    | (Err e, s') \<Rightarrow> e = ServerQueueFull \<and> s' = s \<and> (\<forall>i<128. queue s ! i \<noteq> QEmpty)
    | (Panic, s') \<Rightarrow> False"
proof (cases "find_empty s")
  case None
  then show ?thesis using generation_room [OF inv] find_empty_None [OF inv]
    by (simp add: queue_message_def)
next
  case (Some i)
  note D = queue_invD [OF inv]
  have i: "i < 128" "queue s ! i = QEmpty" using find_empty_Some [OF inv Some] by auto
  have wf: "message_wf msg" using ok by (simp add: sendable_def)
  define h where "h = (if i = queue_head s then bump 128 i else queue_head s)"
  have "h < 128" using D(2) by (simp add: h_def)
  from queue_push [OF inv generation_room [OF inv] i(1), of "queued_entry (tail_generation s) pid tid msg addr"
      "pending_of pid tid msg addr" h]
  have P: "queue_inv (s\<lparr>queue := (queue s)[i := queued_entry (tail_generation s) pid tid msg addr],
                     tail_generation := tail_generation s + 1, queue_head := h\<rparr>)"
      "fifo (s\<lparr>queue := (queue s)[i := queued_entry (tail_generation s) pid tid msg addr],
                     tail_generation := tail_generation s + 1, queue_head := h\<rparr>) = fifo s @ [pending_of pid tid msg addr]"
    using i slot_pending_queued [OF wf] slot_wf_queued [OF ok] \<open>h < 128\<close> by simp_all
  have "snd (queue_message pid tid msg addr s) = s\<lparr>queue := (queue s)[i := queued_entry (tail_generation s) pid tid msg addr],
                     tail_generation := tail_generation s + 1, queue_head := h\<rparr>"
       "fst (queue_message pid tid msg addr s) = Ok i"
    using Some generation_room [OF inv] D(1) by (simp_all add: queue_message_def advance_head_def h_def)
  then show ?thesis using P i by (simp add: split_beta)
qed

lemma queue_response_cases:
  assumes inv: "queue_inv s" and ok: "sendable pid msg addr"
  shows "case queue_response pid tid msg addr s of
      (Ok i, s') \<Rightarrow> i < 128 \<and> queue s ! i = QEmpty \<and>
         queue s' = (queue s)[i := response_entry pid tid msg addr] \<and> queue_inv s' \<and> fifo s' = fifo s
    | (Err e, s') \<Rightarrow> e = ServerQueueFull \<and> s' = s \<and> (\<forall>i<128. queue s ! i \<noteq> QEmpty)
    | (Panic, s') \<Rightarrow> False"
proof (cases "find_empty s")
  case None
  then show ?thesis using queue_invD [OF inv] find_empty_None [OF inv]
    by (simp add: queue_response_def find_empty_scan)
next
  case (Some i)
  note D = queue_invD [OF inv]
  have i: "i < 128" "queue s ! i = QEmpty" using find_empty_Some [OF inv Some] by auto
  obtain s' where s': "queue_response pid tid msg addr s = (Ok i, s')"
    "queue s' = (queue s)[i := response_entry pid tid msg addr]" "queue_head s' < 128" "queue_tail s' = queue_tail s"
    "head_generation s' = head_generation s" "tail_generation s' = tail_generation s"
    using Some D by (simp add: queue_response_def find_empty_scan advance_head_def)
  have inv': "queue_inv s'"
    by (rule queue_inv_frame [OF inv]) (use s' D i slot_wf_response [OF ok] in \<open>auto simp: nth_list_update\<close>)
  have "fifo s' = map id (fifo s)"
    by (rule fifo_map_frame [OF inv inv'])
      (use s' D(1) i in \<open>auto simp: nth_list_update option.map_id\<close>)
  then show ?thesis using s' i inv' by simp
qed

section \<open>Sender ids\<close>

lemma byte_masks:
  "(0xff :: usize) = mask 8" "(0xffff :: usize) = mask 16" "(0x00ff0000 :: usize) = push_bit 16 (mask 8)"
  by (simp_all add: mask_eq_exp_minus_1)

lemma sender_id_fields:
  "drop_bit 16 (sender_id_to_usize v) AND 0xff = sid_sidx v AND 0xff"
  "sender_id_to_usize v AND 0xffff = sid_idx v AND 0xffff"
  "(ucast (drop_bit 24 (sender_id_to_usize v)) :: u8) = nz_get (sid_pid v)"
  unfolding sender_id_to_usize_def byte_masks
  by (rule bit_word_eqI; auto simp: bit_simps)+

definition sender_id_wf :: "sender_id \<Rightarrow> bool" where
  "sender_id_wf v = (sid_sidx v < 0x100 \<and> sid_idx v < 0x10000 \<and> opt_nz (sid_pid v))"

lemma sender_id_roundtrip: "sender_id_wf v \<Longrightarrow> sender_id_from_usize (sender_id_to_usize v) = v"
  using less_mask_eq [of "sid_sidx v" 8] less_mask_eq [of "sid_idx v" 16]
  by (simp add: sender_id_wf_def sender_id_from_usize_def sender_id_fields opt_nz_def)
     (simp add: byte_masks)

interpretation sender_codec: codec sender_id_to_usize "\<lambda>w. Some (sender_id_from_usize w)" sender_id_wf
  by unfold_locales (simp add: sender_id_roundtrip)

lemma sender_pid_sidx: "sender_pid data = sid_pid (sender_id_from_usize data)"
proof -
  have "(ucast (drop_bit 24 data AND 0xff) :: u8) = ucast (drop_bit 24 data)"
    unfolding byte_masks by (rule bit_word_eqI) (auto simp: bit_simps)
  then show ?thesis by (simp add: sender_pid_def sender_id_from_usize_def)
qed

lemma deliver_sender_fields:
  assumes "i < 128" "sidx < 0x100"
  shows "sid_pid (sender_id_from_usize (deliver_sender sidx i pid)) = nz_new (ucast pid)"
    and "sid_idx (sender_id_from_usize (deliver_sender sidx i pid)) = of_nat i"
    and "sid_sidx (sender_id_from_usize (deliver_sender sidx i pid)) = sidx"
proof -
  have "(of_nat i :: usize) < 0x10000"
    using assms(1) by (simp add: word_less_nat_alt unsigned_of_nat take_bit_nat_eq_self)
  then have "sender_id_wf \<lparr>sid_sidx = sidx, sid_idx = of_nat i, sid_pid = nz_new (ucast pid :: u8)\<rparr>"
    using assms(2) by (simp add: sender_id_wf_def opt_nz_def)
  from sender_id_roundtrip [OF this]
  show "sid_pid (sender_id_from_usize (deliver_sender sidx i pid)) = nz_new (ucast pid)"
    and "sid_idx (sender_id_from_usize (deliver_sender sidx i pid)) = of_nat i"
    and "sid_sidx (sender_id_from_usize (deliver_sender sidx i pid)) = sidx"
    by (simp_all add: deliver_sender_def)
qed

section \<open>Replies\<close>

lemma waiting_slot: "waiting_fields_of m = None \<longleftrightarrow> \<not> is_in_server m"
  by (cases m) (simp_all add: waiting_fields_of_def)

lemma in_server_no_gen: "is_in_server m \<Longrightarrow> slot_gen m = None"
  by (cases m) simp_all

text \<open>The skipping loop has enough fuel: it ends at the head or at a slot in use.\<close>

definition dist_head :: "server \<Rightarrow> nat \<Rightarrow> nat" where
  "dist_head s t = (if t \<le> queue_head s then queue_head s - t else queue_head s + length (queue s) - t)"

lemma skip_empty_stops:
  assumes "queue_head s < length (queue s)" "t < length (queue s)" "dist_head s t \<le> k"
  shows "skip_empty k s t = queue_head s \<or> queue s ! skip_empty k s t \<noteq> QEmpty"
  using assms
proof (induction k arbitrary: t)
  case 0
  then show ?case by (auto simp: dist_head_def split: if_splits)
next
  case (Suc k)
  show ?case
  proof (cases "t \<noteq> queue_head s \<and> queue s ! t = QEmpty")
    case True
    have "bump (length (queue s)) t < length (queue s)" using Suc.prems(2) by (intro bump_less) linarith
    moreover have "dist_head s (bump (length (queue s)) t) \<le> k"
      using True Suc.prems by (auto simp: dist_head_def bump_def split: if_splits)
    ultimately show ?thesis using Suc.IH Suc.prems(1) True by simp
  qed auto
qed

lemma free_slot_frame:
  assumes inv: "queue_inv s" and i: "i < 128" "slot_gen (queue s ! i) = None"
  shows "queue_inv (free_slot i s)" "fifo (free_slot i s) = fifo s"
    "queue (free_slot i s) = (queue s)[i := QEmpty]" "ready_threads (free_slot i s) = ready_threads s"
proof -
  note D = queue_invD [OF inv]
  define s' where "s' = free_slot i s"
  have s': "queue s' = (queue s)[i := QEmpty]" "queue_head s' = queue_head s" "ready_threads s' = ready_threads s"
    "head_generation s' = head_generation s" "tail_generation s' = tail_generation s"
    by (simp_all add: s'_def free_slot_def Let_def)
  have tail: "queue_tail s' < 128"
    using D(1,3) skip_empty_less [of "bump 128 i" "s\<lparr>queue := (queue s)[i := QEmpty]\<rparr>" 128]
    by (auto simp: s'_def free_slot_def Let_def)
  have inv': "queue_inv s'"
    by (rule queue_inv_frame [OF inv]) (use s' tail D(1,2,4) i in \<open>auto simp: nth_list_update slot_wf_def\<close>)
  have "fifo s' = map id (fifo s)"
    by (rule fifo_map_frame [OF inv inv'])
      (use s' D(1) i slot_pending_gen [of "queue s ! i"] in \<open>auto simp: nth_list_update option.map_id\<close>)
  with inv' s' show "queue_inv (free_slot i s)" "fifo (free_slot i s) = fifo s"
    "queue (free_slot i s) = (queue s)[i := QEmpty]" "ready_threads (free_slot i s) = ready_threads s"
    by (simp_all add: s'_def)
qed

text \<open>A reply either leaves the queue alone or empties exactly the slot it names.\<close>

lemma take_waiting_cases:
  assumes inv: "queue_inv s" and run: "take_waiting_message i buf s = (r, s')"
  shows "s' = s \<or> (i < 128 \<and> is_in_server (queue s ! i) \<and> s' = free_slot i s)"
  using run queue_invD(1) [OF inv] waiting_slot [of "queue s ! i"]
  by (auto simp: take_waiting_message_def split: if_splits option.splits)

lemma take_waiting_frame:
  assumes "queue_inv s" "take_waiting_message i buf s = (r, s')"
  shows "queue_inv s' \<and> fifo s' = fifo s \<and> (\<forall>j<128. j \<noteq> i \<longrightarrow> queue s' ! j = queue s ! j)"
  using take_waiting_cases [OF assms] free_slot_frame [OF assms(1)] in_server_no_gen assms(1)
  by (metis nth_list_update_neq)

lemma waiting_result_wf:
  assumes "slot_wf m" "waiting_fields_of m = Some w"
  shows "waiting_result w \<noteq> Panic \<and> (\<forall>e. waiting_result w \<noteq> Err e)"
proof -
  have nz: "pid_ok p \<Longrightarrow> (ucast p :: u8) \<noteq> 0" for p :: u16
    using less_mask_eq [of p 8]
    by (auto simp: pid_ok_def word_le_nat_alt word_less_nat_alt unsigned_ucast_eq take_bit_nat_eq_self
        simp flip: unat_0_iff)
  show ?thesis using assms nz
    by (cases m) (auto simp: slot_wf_def waiting_fields_of_def waiting_result_def memory_range_new_def)
qed


lemma discard_frame:
  assumes inv: "queue_inv s"
  shows "queue_inv (discard_messages_for_pid pid s)"
    "fifo (discard_messages_for_pid pid s) = map (discard_pending pid) (fifo s)"
proof -
  note D = queue_invD [OF inv]
  show inv': "queue_inv (discard_messages_for_pid pid s)"
    by (rule queue_inv_frame [OF inv]) (use D in \<open>auto simp: discard_messages_for_pid_def\<close>)
  show "fifo (discard_messages_for_pid pid s) = map (discard_pending pid) (fifo s)"
    by (rule fifo_map_frame [OF inv inv']) (use D(1) in \<open>auto simp: discard_messages_for_pid_def slot_pending_discard\<close>)
qed

lemma discard_in_server [simp]: "is_in_server m \<Longrightarrow> discard_slot pid m = m"
  by (cases m) (simp_all add: discard_slot_def)

lemma queue_inv_ready [simp]: "queue_inv (s\<lparr>ready_threads := r\<rparr>) = queue_inv s" "fifo (s\<lparr>ready_threads := r\<rparr>) = fifo s"
  by (simp_all add: queue_inv_def fifo_def slot_of_def)

section \<open>Waiting threads\<close>

lemma pred_mod_32: "m < 32 \<Longrightarrow> (m + 31) mod 32 = (if m = 0 then 31 else m - 1 :: nat)"
  by (cases m) auto

lemma rotl_thread_bit: "n < 31 \<Longrightarrow> word_rotl (Suc 0) (2 ^ n :: usize) = 2 ^ Suc n"
  by (rule bit_word_eqI) (auto simp: bit_simps bit_word_rotl_iff pred_mod_32 simp del: power_Suc split: if_splits)

lemma and_thread_bit_eq: "r AND 2 ^ n = (if bit r n then 2 ^ n else 0 :: usize)"
  by (rule bit_word_eqI) (auto simp: bit_simps)

lemma thread_bit_nonzero [simp]: "n < 32 \<Longrightarrow> (2 ^ n :: usize) \<noteq> 0"
  by (simp add: exp_eq_zero_iff)

lemma and_thread_bit: "n < 32 \<Longrightarrow> r AND 2 ^ n = (2 ^ n :: usize) \<longleftrightarrow> bit r n"
  by (simp add: and_thread_bit_eq)

lemma and_not_thread_bit: "r AND NOT (2 ^ n) = unset_bit n (r :: usize)"
  by (rule bit_word_eqI) (auto simp: bit_simps)

lemma thread_bit_not_one: "n < 31 \<Longrightarrow> (2 ^ Suc n :: usize) \<noteq> 1"
proof
  assume n: "n < 31" and eq: "(2 ^ Suc n :: usize) = 1"
  have "bit (2 ^ Suc n :: usize) (Suc n)" using n by (simp add: bit_exp_iff del: power_Suc)
  then show False unfolding eq by simp
qed

text \<open>The loop finds the lowest ready thread and cannot run past the last bit.\<close>

lemma take_thread_loop_spec:
  assumes "n + k = 32" "\<And>m. m < n \<Longrightarrow> \<not> bit (ready_threads s) m" "ready_threads s \<noteq> 0"
  shows "\<exists>t<32. take_thread_loop k (2 ^ n) (of_nat n) s =
            (Ok (Some (of_nat t)), s\<lparr>ready_threads := unset_bit t (ready_threads s)\<rparr>) \<and>
          bit (ready_threads s) t \<and> (\<forall>m<t. \<not> bit (ready_threads s) m)"
  using assms(1,2)
proof (induction k arbitrary: n)
  case 0
  then have "ready_threads s = 0" by (intro bit_word_eqI) simp
  then show ?case using assms(3) by simp
next
  case (Suc k)
  have n: "n < 32" using Suc.prems(1) by simp
  show ?case
  proof (cases "bit (ready_threads s) n")
    case True
    then show ?thesis using Suc.prems(2) n
      by (intro exI [of _ n]) (simp add: and_thread_bit_eq and_not_thread_bit)
  next
    case False
    then have none: "\<And>m. m < Suc n \<Longrightarrow> \<not> bit (ready_threads s) m" using Suc.prems(2) less_Suc_eq by auto
    have "n \<noteq> 31"
    proof
      assume "n = 31"
      then have "ready_threads s = 0" using none by (intro bit_word_eqI) simp
      then show False using assms(3) by simp
    qed
    then have "n < 31" using n by simp
    then show ?thesis
      using False n thread_bit_not_one [of n] Suc.IH [of "Suc n"] none Suc.prems(1)
      by (simp add: Let_def add.commute and_thread_bit_eq rotl_thread_bit del: power_Suc)
  qed
qed

lemma take_available_thread_spec:
  assumes "ready_threads s \<noteq> 0"
  shows "\<exists>t<32. take_available_thread s =
            (Ok (Some (of_nat t)), s\<lparr>ready_threads := unset_bit t (ready_threads s)\<rparr>) \<and>
          bit (ready_threads s) t \<and> (\<forall>m<t. \<not> bit (ready_threads s) m)"
proof -
  have "take_available_thread s = take_thread_loop 32 (2 ^ 0) (of_nat 0) s"
    using assms by (simp add: take_available_thread_def)
  then show ?thesis by (simp only:) (rule take_thread_loop_spec, simp_all add: assms)
qed

lemma thread_bit_eq: "unat tid < 32 \<Longrightarrow> thread_bit tid = 2 ^ unat tid"
  by (simp add: thread_bit_def)

lemma or_thread_bit: "r OR 2 ^ n = set_bit n (r :: usize)"
  by (rule bit_word_eqI) (auto simp: bit_or_iff bit_exp_iff bit_set_bit_iff)

lemma thread_bit_test: "unat tid < 32 \<Longrightarrow> r AND thread_bit tid = 0 \<longleftrightarrow> \<not> bit r (unat tid)"
  by (simp add: thread_bit_eq and_thread_bit_eq)

section \<open>Steps of a server\<close>

text \<open>
  One kernel operation on the server, other than a reply to slot \<open>i\<close>.
\<close>

inductive server_step :: "nat \<Rightarrow> server \<Rightarrow> server \<Rightarrow> bool" for i where
  step_queue: "\<lbrakk>sendable pid msg addr; queue_message pid tid msg addr s = (r, s')\<rbrakk> \<Longrightarrow> server_step i s s'"
| step_take: "take_next_message sidx s = (r, s') \<Longrightarrow> server_step i s s'"
| step_respond: "\<lbrakk>sendable pid msg addr; queue_response pid tid msg addr s = (r, s')\<rbrakk> \<Longrightarrow> server_step i s s'"
| step_reply: "\<lbrakk>j \<noteq> i; take_waiting_message j buf s = (r, s')\<rbrakk> \<Longrightarrow> server_step i s s'"
| step_discard: "server_step i s (discard_messages_for_pid pid s)"
| step_park: "park_thread tid s = (r, s') \<Longrightarrow> server_step i s s'"
| step_unpark: "return_available_thread tid s = (r, s') \<Longrightarrow> server_step i s s'"
| step_wake: "take_available_thread s = (r, s') \<Longrightarrow> server_step i s s'"

lemma take_next_frame:
  assumes inv: "queue_inv s" and run: "take_next_message sidx s = (r, s')"
  shows "queue_inv s' \<and> (\<forall>j<128. is_in_server (queue s ! j) \<longrightarrow> queue s' ! j = queue s ! j)"
proof (cases "fifo s")
  case Nil
  then show ?thesis using take_next_empty [OF Nil] run inv by simp
next
  case (Cons p ps)
  from take_next_cons [OF inv Cons, of sidx] run obtain i where
    "slot_pending (queue s ! i) = Some p" "queue s' = (queue s)[i := response_slot (queue s ! i)]" "queue_inv s'"
    by auto
  moreover have "\<not> is_in_server (queue s ! i)"
    using calculation(1) in_server_no_gen slot_pending_gen by (metis option.distinct(1))
  ultimately show ?thesis by (metis nth_list_update_neq)
qed

lemma in_server_update_empty:
  "\<lbrakk>xs ! x = QEmpty; is_in_server (xs ! i)\<rbrakk> \<Longrightarrow> xs[x := m] ! i = xs ! i"
  by (cases "i = x") auto

lemma take_available_frame:
  "take_available_thread s = (r, s') \<Longrightarrow> \<exists>w. s' = s\<lparr>ready_threads := w\<rparr>"
  using take_available_thread_spec [of s]
  by (cases "ready_threads s = 0") (auto simp: take_available_thread_def intro: exI [of _ "ready_threads s"])

lemma server_step_frame:
  assumes "server_step i s s'" "queue_inv s"
  shows "queue_inv s' \<and> (\<forall>j<128. is_in_server (queue s ! j) \<longrightarrow> j = i \<longrightarrow> queue s' ! j = queue s ! j)"
  using assms
proof (induction rule: server_step.induct)
  case (step_queue pid msg addr tid s r s')
  then show ?case using queue_message_cases [of s pid msg addr tid]
    by (cases r) (auto simp: in_server_update_empty)
next
  case (step_take sidx s r s')
  then show ?case using take_next_frame by blast
next
  case (step_respond pid msg addr tid s r s')
  then show ?case using queue_response_cases [of s pid msg addr tid]
    by (cases r) (auto simp: in_server_update_empty)
next
  case (step_reply j buf s r s')
  then show ?case using take_waiting_frame by blast
next
  case (step_discard s pid)
  then show ?case using discard_frame(1) queue_invD(1) by (auto simp: discard_messages_for_pid_def)
next
  case (step_park tid s r s')
  then show ?case by (auto simp: park_thread_def split: if_splits)
next
  case (step_unpark tid s r s')
  then show ?case by (auto simp: return_available_thread_def split: if_splits)
next
  case (step_wake s r s')
  then show ?case using take_available_frame by fastforce
qed

lemma server_run_frame:
  assumes "(server_step i)\<^sup>*\<^sup>* s s'" "queue_inv s" "i < 128" "is_in_server (queue s ! i)"
  shows "queue_inv s' \<and> queue s' ! i = queue s ! i"
  using assms
proof (induction rule: rtranclp_induct)
  case (step t u)
  then show ?case using server_step_frame [OF step.hyps(2)] by auto
qed simp

text \<open>The answer a reply to a delivered message must produce.\<close>

definition reply_target :: "pending \<Rightarrow> WaitingMessage" where
  "reply_target p = (case message_memory (p_msg p) of
     None \<Rightarrow> WM_ScalarMessage (ucast (p_pid p)) (ucast (p_tid p))
   | Some r \<Rightarrow> WM_BorrowedMemory (ucast (p_pid p)) (ucast (p_tid p)) (mr_addr r) (p_addr p) (mr_size r))"

lemma pid_ok_ucast_nz: "pid_ok p \<Longrightarrow> (ucast p :: u8) \<noteq> 0"
  using less_mask_eq [of p 8]
  by (auto simp: pid_ok_def word_le_nat_alt word_less_nat_alt unsigned_ucast_eq take_bit_nat_eq_self
      simp flip: unat_0_iff)

lemma response_slot_blocking:
  assumes "slot_wf m" "slot_pending m = Some p" "is_blocking (p_msg p)"
  shows "is_in_server (response_slot m) \<and>
    (\<exists>w. waiting_fields_of (response_slot m) = Some w \<and> waiting_result w = Ok (reply_target p) \<and>
       (wf_is_memory w \<longrightarrow> message_memory (p_msg p) = Some \<lparr>mr_addr = wf_server_addr w, mr_size = wf_len w\<rparr>))"
  using assms pid_ok_ucast_nz
  by (cases m) (auto simp: slot_wf_def slot_pending_def pending_scalar_def pending_memory_def response_slot_def
     waiting_fields_of_def waiting_result_def reply_target_def message_memory_def)

lemma take_waiting_pairing:
  assumes "slot_wf m" "slot_pending m = Some p" "is_blocking (p_msg p)"
    and "i < length (queue s)" "queue s ! i = response_slot m"
    and "buf = None \<or> buf = message_memory (p_msg p)"
  shows "take_waiting_message i buf s = (Ok (reply_target p), free_slot i s)"
proof -
  from response_slot_blocking [OF assms(1-3)] obtain w where
    w: "waiting_fields_of (response_slot m) = Some w" "waiting_result w = Ok (reply_target p)"
    "wf_is_memory w \<longrightarrow> message_memory (p_msg p) = Some \<lparr>mr_addr = wf_server_addr w, mr_size = wf_len w\<rparr>" by auto
  then show ?thesis using assms(4-6) by (auto simp: take_waiting_message_def split: option.splits)
qed

section \<open>First in, first out\<close>

text \<open>
  The contract a client of a message queue relies on, for any interleaving of
  insertions, removals and operations that leave the pending messages alone.
\<close>

datatype ('m, 'o) qop = Put 'm | Get | Other 'o

fun run_ops :: "('m \<Rightarrow> 's \<Rightarrow> 's option) \<Rightarrow> ('s \<Rightarrow> ('d \<times> 's) option) \<Rightarrow> ('o \<Rightarrow> 's \<Rightarrow> 's) \<Rightarrow>
    ('m, 'o) qop list \<Rightarrow> 's \<Rightarrow> 'm list \<times> 'd list \<times> 's" where
  "run_ops put get other [] s = ([], [], s)"
| "run_ops put get other (Put m # ops) s = (case put m s of
     None \<Rightarrow> run_ops put get other ops s
   | Some s' \<Rightarrow> (case run_ops put get other ops s' of (acc, del, t) \<Rightarrow> (m # acc, del, t)))"
| "run_ops put get other (Get # ops) s = (case get s of
     None \<Rightarrow> run_ops put get other ops s
   | Some (d, s') \<Rightarrow> (case run_ops put get other ops s' of (acc, del, t) \<Rightarrow> (acc, d # del, t)))"
| "run_ops put get other (Other x # ops) s = run_ops put get other ops (other x s)"

fun qop_ok :: "('m \<Rightarrow> bool) \<Rightarrow> ('o \<Rightarrow> bool) \<Rightarrow> ('m, 'o) qop \<Rightarrow> bool" where
  "qop_ok okm oko (Put m) = okm m"
| "qop_ok okm oko Get = True"
| "qop_ok okm oko (Other x) = oko x"

locale fifo_queue =
  fixes put :: "'m \<Rightarrow> 's \<Rightarrow> 's option"
    and get :: "'s \<Rightarrow> ('d \<times> 's) option"
    and other :: "'o \<Rightarrow> 's \<Rightarrow> 's"
    and contents :: "'s \<Rightarrow> 'd list"
    and view :: "'m \<Rightarrow> 'd"
    and inv :: "'s \<Rightarrow> bool"
    and okm :: "'m \<Rightarrow> bool"
    and oko :: "'o \<Rightarrow> bool"
  assumes put_Some: "\<lbrakk>inv s; okm m; put m s = Some s'\<rbrakk> \<Longrightarrow> inv s' \<and> contents s' = contents s @ [view m]"
    and get_None: "\<lbrakk>inv s; get s = None\<rbrakk> \<Longrightarrow> contents s = []"
    and get_Some: "\<lbrakk>inv s; get s = Some (d, s')\<rbrakk> \<Longrightarrow> inv s' \<and> contents s = d # contents s'"
    and other_frame: "\<lbrakk>inv s; oko x\<rbrakk> \<Longrightarrow> inv (other x s) \<and> contents (other x s) = contents s"
begin

lemma order_preserved:
  assumes "inv s" "list_all (qop_ok okm oko) ops" "run_ops put get other ops s = (acc, del, s')"
  shows "inv s' \<and> contents s @ map view acc = del @ contents s'"
  using assms
proof (induction ops arbitrary: s acc del s')
  case (Cons x ops)
  have ops: "list_all (qop_ok okm oko) ops" and x: "qop_ok okm oko x" using Cons.prems(2) by simp_all
  show ?case
  proof (cases x)
    case (Put m)
    show ?thesis
    proof (cases "put m s")
      case None
      then show ?thesis using Cons.IH [OF Cons.prems(1) ops] Cons.prems(3) Put by simp
    next
      case (Some s1)
      obtain acc' where "run_ops put get other ops s1 = (acc', del, s')" "acc = m # acc'"
        using Cons.prems(3) Put Some by (auto split: prod.splits)
      then show ?thesis using Cons.IH [OF _ ops] put_Some [OF Cons.prems(1) _ Some] x Put by fastforce
    qed
  next
    case Get
    show ?thesis
    proof (cases "get s")
      case None
      then show ?thesis using Cons.IH [OF Cons.prems(1) ops] Cons.prems(3) Get by simp
    next
      case (Some q)
      obtain d s1 where q: "q = (d, s1)" by (cases q)
      obtain del' where "run_ops put get other ops s1 = (acc, del', s')" "del = d # del'"
        using Cons.prems(3) Get Some q by (auto split: prod.splits)
      then show ?thesis using Cons.IH [OF _ ops] get_Some [OF Cons.prems(1), of d s1] Some q by fastforce
    qed
  next
    case (Other y)
    then show ?thesis using Cons.IH [OF _ ops] Cons.prems(1,3) other_frame [of s y] x by fastforce
  qed
qed simp

lemma all_delivered:
  assumes "inv s" "list_all (qop_ok okm oko) ops" "run_ops put get other ops s = (acc, del, s')"
    and "get s' = None"
  shows "del = contents s @ map view acc"
  using order_preserved [OF assms(1-3)] get_None assms(4) by (metis append_Nil2)

end

definition srv_put :: "PID \<times> TID \<times> Message \<times> usize option \<Rightarrow> server \<Rightarrow> server option" where
  "srv_put m s = (case m of (pid, tid, msg, addr) \<Rightarrow>
     (case queue_message pid tid msg addr s of (Ok _, s') \<Rightarrow> Some s' | _ \<Rightarrow> None))"

definition srv_get :: "usize \<Rightarrow> server \<Rightarrow> ((PID option \<times> Message) \<times> server) option" where
  "srv_get sidx s = (case take_next_message sidx s of
     (Ok (Some env), s') \<Rightarrow> Some ((sender_pid (env_sender env), env_body env), s')
   | _ \<Rightarrow> None)"

datatype srv_op =
    O_Reply nat "memory_range option"
  | O_Respond PID TID Message "usize option"
  | O_Park TID
  | O_Wake

fun srv_other :: "srv_op \<Rightarrow> server \<Rightarrow> server" where
  "srv_other (O_Reply i buf) s = snd (take_waiting_message i buf s)"
| "srv_other (O_Respond pid tid msg addr) s = snd (queue_response pid tid msg addr s)"
| "srv_other (O_Park tid) s = snd (park_thread tid s)"
| "srv_other O_Wake s = snd (take_available_thread s)"

definition srv_contents :: "server \<Rightarrow> (PID option \<times> Message) list" where
  "srv_contents s = map (\<lambda>p. (nz_new (ucast (p_pid p)), p_msg p)) (fifo s)"

fun srv_view :: "PID \<times> TID \<times> Message \<times> usize option \<Rightarrow> PID option \<times> Message" where
  "srv_view (pid, tid, msg, addr) = (Some pid, msg)"

fun srv_put_ok :: "PID \<times> TID \<times> Message \<times> usize option \<Rightarrow> bool" where
  "srv_put_ok (pid, tid, msg, addr) = sendable pid msg addr"

fun srv_other_ok :: "srv_op \<Rightarrow> bool" where
  "srv_other_ok (O_Respond pid tid msg addr) = sendable pid msg addr"
| "srv_other_ok _ = True"

lemma sender_pid_deliver [simp]: "sender_pid (deliver_sender sidx i pid) = nz_new (ucast pid)"
  by (simp add: sender_pid_sidx sender_id_from_usize_def deliver_sender_def sender_id_fields)

interpretation srv_fifo: fifo_queue srv_put "srv_get sidx" srv_other srv_contents srv_view queue_inv
  srv_put_ok srv_other_ok for sidx
proof
  fix s m s' assume s: "queue_inv s" "srv_put_ok m" "srv_put m s = Some s'"
  obtain pid tid msg addr where m: "m = (pid, tid, msg, addr)" by (cases m)
  have "pid \<noteq> 0" using s(2) m by (simp add: sendable_def)
  then show "queue_inv s' \<and> srv_contents s' = srv_contents s @ [srv_view m]"
    using s m queue_message_cases [of s pid msg addr tid]
    by (auto simp: srv_put_def srv_contents_def pending_of_def split: prod.splits outcome.splits)
next
  fix s assume s: "queue_inv s" "srv_get sidx s = None"
  show "srv_contents s = []"
  proof (cases "fifo s")
    case (Cons p ps)
    from take_next_cons [OF s(1) Cons, of sidx] show ?thesis using s(2) by (auto simp: srv_get_def)
  qed (simp add: srv_contents_def)
next
  fix s d s' assume s: "queue_inv s" "srv_get sidx s = Some (d, s')"
  show "queue_inv s' \<and> srv_contents s = d # srv_contents s'"
  proof (cases "fifo s")
    case Nil
    from take_next_empty [OF Nil] s(2) show ?thesis by (simp add: srv_get_def)
  next
    case (Cons p ps)
    from take_next_cons [OF s(1) Cons, of sidx] show ?thesis
      using s(2) Cons by (auto simp: srv_get_def srv_contents_def)
  qed
next
  fix s x assume s: "queue_inv s" "srv_other_ok x"
  show "queue_inv (srv_other x s) \<and> srv_contents (srv_other x s) = srv_contents s"
  proof (cases x)
    case (O_Reply i buf)
    then show ?thesis using take_waiting_frame [OF s(1), of i buf] by (cases "take_waiting_message i buf s") (simp add: srv_contents_def)
  next
    case (O_Respond pid tid msg addr)
    then show ?thesis using queue_response_cases [of s pid msg addr tid] s
      by (auto simp: srv_contents_def split: prod.splits outcome.splits)
  next
    case (O_Park tid)
    then show ?thesis using s by (auto simp: srv_contents_def park_thread_def)
  next
    case O_Wake
    then show ?thesis using s take_available_frame [of s] by (cases "take_available_thread s") (auto simp: srv_contents_def)
  qed
qed

section \<open>Properties\<close>

lemma server_init_inv:
  assumes "mr_size backing = 4096"
  shows "\<exists>s. server_init pid sid backing None = (Ok (), Some s) \<and> queue_inv s \<and> fifo s = []"
  using assms by (simp add: server_init_def queue_inv_def slot_wf_def fifo_def)

definition fresh_server :: server where
  "fresh_server = the (snd (server_init 3 (SID 1 2 3 4) \<lparr>mr_addr = 0x1000, mr_size = 4096\<rparr> None))"

lemma fresh_server_inv [simp]: "queue_inv fresh_server" "fifo fresh_server = []"
  using server_init_inv [of "\<lparr>mr_addr = 0x1000, mr_size = 4096\<rparr>" 3 "SID 1 2 3 4"]
  by (auto simp: fresh_server_def)

text \<open>
  C3: A server's queue is first-in first-out.  For every sequence of messages
  queued, messages taken, replies, responses and thread parkings on a server
  in a consistent state, the messages delivered followed by the messages
  still pending are the messages pending at the start followed by those
  accepted since, in that order, each with the process that sent it.  The u8
  generation counters may wrap any number of times.
\<close>
theorem server_fifo_order:
  assumes "queue_inv s" "list_all (qop_ok srv_put_ok srv_other_ok) ops"
    and "run_ops srv_put (srv_get sidx) srv_other ops s = (accepted, delivered, s')"
  shows "queue_inv s' \<and> srv_contents s @ map srv_view accepted = delivered @ srv_contents s'"
  using assms by (rule srv_fifo.order_preserved)

definition demo_ops :: "(PID \<times> TID \<times> Message \<times> usize option, srv_op) qop list" where
  "demo_ops = [Put (4, 2, Scalar \<lparr>sc_id = 1, sc_arg1 = 5, sc_arg2 = 6, sc_arg3 = 7, sc_arg4 = 8\<rparr>, None),
     Put (5, 3, BlockingScalar \<lparr>sc_id = 2, sc_arg1 = 0, sc_arg2 = 0, sc_arg3 = 0, sc_arg4 = 0\<rparr>, None),
     Get, Other (O_Park 2), Get, Other (O_Reply 1 None)]"

theorem server_fifo_order_witness:
  "let (accepted, delivered, s') = run_ops srv_put (srv_get 7) srv_other demo_ops fresh_server
   in queue_inv s' \<and> delivered @ srv_contents s' = map srv_view accepted \<and>
      map fst delivered = [Some 4, Some 5]"
proof -
  obtain accepted delivered s' where
    run: "run_ops srv_put (srv_get 7) srv_other demo_ops fresh_server = (accepted, delivered, s')"
    by (metis prod_cases3)
  have ok: "list_all (qop_ok srv_put_ok srv_other_ok) demo_ops"
    by (simp add: demo_ops_def sendable_def)
  have "map fst (fst (snd (run_ops srv_put (srv_get 7) srv_other demo_ops fresh_server))) = [Some 4, Some 5]"
    by code_simp
  then show ?thesis
    using server_fifo_order [OF fresh_server_inv(1) ok run] run by (simp add: srv_contents_def)
qed



definition demo_message :: Message where
  "demo_message = BlockingScalar \<lparr>sc_id = 2, sc_arg1 = 0, sc_arg2 = 0, sc_arg3 = 0, sc_arg4 = 0\<rparr>"

lemma demo_queued:
  obtains s where "queue_message 5 3 demo_message None fresh_server = (Ok 0, s)" "queue_inv s"
    "fifo s = [pending_of 5 3 demo_message None]"
proof -
  have ok: "sendable 5 demo_message None" by (simp add: sendable_def demo_message_def)
  have "fst (queue_message 5 3 demo_message None fresh_server) = Ok 0" by code_simp
  then obtain s where "queue_message 5 3 demo_message None fresh_server = (Ok 0, s)" by (metis prod.collapse)
  then show ?thesis using queue_message_cases [OF fresh_server_inv(1) ok, of 3] that by auto
qed


text \<open>
  C12: A message is accepted exactly when some slot is empty.  The generation
  check never refuses one on its own: with 128 slots the counters cannot get
  255 apart.  A refused message leaves the queue as it was.
\<close>
theorem queue_message_accepts:
  assumes "queue_inv s" "sendable pid msg addr"
  shows "if \<exists>i<128. queue s ! i = QEmpty
    then \<exists>i s'. queue_message pid tid msg addr s = (Ok i, s') \<and> queue s ! i = QEmpty \<and>
           fifo s' = fifo s @ [pending_of pid tid msg addr]
    else queue_message pid tid msg addr s = (Err ServerQueueFull, s)"
  using queue_message_cases [OF assms, of tid] generation_room [OF assms(1)] find_empty_None [OF assms(1)]
  by (auto simp: queue_message_def split: prod.splits outcome.splits option.splits)

theorem queue_message_accepts_witness:
  "\<exists>i s'. queue_message 5 3 demo_message None fresh_server = (Ok i, s') \<and>
     fifo s' = [pending_of 5 3 demo_message None]"
proof -
  have "queue fresh_server ! 0 = QEmpty" by (simp add: fresh_server_def server_init_def)
  then show ?thesis
    using queue_message_accepts [of fresh_server 5 demo_message None 3]
    by (auto simp: sendable_def demo_message_def split: if_splits)
qed

text \<open>
  C11: No queue operation of a consistent server panics, and each one leaves
  the server consistent.
\<close>
theorem server_ops_safe:
  assumes "queue_inv s" "sendable pid msg addr"
  shows "fst (take_next_message sidx s) \<noteq> Panic \<and> queue_inv (snd (take_next_message sidx s)) \<and>
    fst (take_waiting_message i buf s) \<noteq> Panic \<and> queue_inv (snd (take_waiting_message i buf s)) \<and>
    fst (queue_message pid tid msg addr s) \<noteq> Panic \<and> queue_inv (snd (queue_message pid tid msg addr s)) \<and>
    fst (queue_response pid tid msg addr s) \<noteq> Panic \<and> queue_inv (snd (queue_response pid tid msg addr s)) \<and>
    fst (take_available_thread s) \<noteq> Panic \<and> queue_inv (discard_messages_for_pid dead s)"
proof -
  have 1: "fst (take_next_message sidx s) \<noteq> Panic"
    using take_next_empty [of s sidx] take_next_cons [OF assms(1), of _ _ sidx] by (cases "fifo s") fastforce+
  have 2: "fst (take_waiting_message i buf s) \<noteq> Panic"
    using waiting_result_wf [of "queue s ! i"] queue_invD(1,4) [OF assms(1)]
    by (auto simp: take_waiting_message_def split: option.splits)
  have 3: "fst (take_available_thread s) \<noteq> Panic"
    using take_available_thread_spec [of s] by (cases "ready_threads s = 0") (auto simp: take_available_thread_def)
  show ?thesis
    using 1 2 3 take_next_frame [OF assms(1), of sidx] take_waiting_frame [OF assms(1), of i buf]
      queue_message_cases [OF assms, of tid] queue_response_cases [OF assms, of tid] discard_frame(1) [OF assms(1)]
    by (cases "take_next_message sidx s"; cases "take_waiting_message i buf s";
        cases "queue_message pid tid msg addr s"; cases "queue_response pid tid msg addr s")
       (auto split: outcome.splits simp: assms(1))
qed

theorem server_ops_safe_witness:
  "fst (queue_message 5 3 demo_message None fresh_server) \<noteq> Panic \<and>
   queue_inv (snd (queue_response 5 3 demo_message None fresh_server))"
  using server_ops_safe [of fresh_server 5 demo_message None 7 0 None 3 5]
  by (simp add: sendable_def demo_message_def)

text \<open>
  C15: When a server has parked threads, \<open>take_available_thread\<close> returns the
  lowest-numbered one and unparks only it; the search cannot run off the end
  of the 32-bit mask, so the panic in its loop is unreachable.
\<close>
theorem take_available_thread_lowest:
  assumes "ready_threads s \<noteq> 0"
  shows "\<exists>t<32. take_available_thread s =
            (Ok (Some (of_nat t)), s\<lparr>ready_threads := unset_bit t (ready_threads s)\<rparr>) \<and>
          bit (ready_threads s) t \<and> (\<forall>m<t. \<not> bit (ready_threads s) m)"
  using take_available_thread_spec [OF assms] .

theorem take_available_thread_lowest_witness:
  "\<exists>t<32. take_available_thread (fresh_server\<lparr>ready_threads := 0b1100\<rparr>) =
     (Ok (Some (of_nat t)), fresh_server\<lparr>ready_threads := unset_bit t 0b1100\<rparr>) \<and> bit (0b1100 :: usize) t"
  using take_available_thread_lowest [of "fresh_server\<lparr>ready_threads := 0b1100\<rparr>"] by auto

text \<open>
  C16: A sender id survives the trip through the message sender word: server
  index (8 bits), slot index (16 bits) and process id are read back as
  packed, so no two of them share an encoding.
\<close>
theorem sender_id_codec:
  assumes "sender_id_wf v" "sender_id_wf w"
  shows "sender_id_from_usize (sender_id_to_usize v) = v \<and>
    (sender_id_to_usize v = sender_id_to_usize w \<longleftrightarrow> v = w)"
  using sender_codec.enc_eq_iff [OF assms] sender_id_roundtrip [OF assms(1)] by simp

theorem sender_id_codec_witness:
  "sender_id_from_usize (sender_id_to_usize \<lparr>sid_sidx = 7, sid_idx = 12, sid_pid = Some 5\<rparr>) =
     \<lparr>sid_sidx = 7, sid_idx = 12, sid_pid = Some 5\<rparr>"
  using sender_id_codec [of "\<lparr>sid_sidx = 7, sid_idx = 12, sid_pid = Some 5\<rparr>" "\<lparr>sid_sidx = 7, sid_idx = 12, sid_pid = Some 5\<rparr>"]
  by (simp add: sender_id_wf_def opt_nz_def)

end
