(* ===== verification/Memory_State.thy ===== *)
theory Memory_State
  imports Xous_Defs
begin

text \<open>
  The machine state the memory code works on, shared by the theories of the
  memory manager, the page tables, the thread contexts and the system
  services.

  An address space is named by its \<open>satp\<close> value, as \<open>MemoryMapping\<close> names it.
  The kernel reaches the page tables of the active space through two fixed
  windows: the root table at \<open>PAGE_TABLE_ROOT_OFFSET\<close> and the leaf table of
  superpage \<open>v\<close> at \<open>PAGE_TABLE_OFFSET + v * 4096\<close>.  A \<open>space\<close> holds what
  these windows show (\<open>l1\<close> and \<open>l0\<close>) and the page at 0xff801000, which has the
  thread contexts and the \<open>ProcessInner\<close> of the process.  Writing \<open>satp\<close>
  makes another space the active one.  The contents of pages
  are not part of the state, page tables and thread contexts apart: zeroing a
  page table is an update of \<open>l0\<close>, and zeroing any other page is the access
  check of the store (\<open>zeropage\<close> in \<open>Page_Table\<close>), which panics where the
  hardware would fault.
\<close>

section \<open>Constants\<close>

definition PAGE_SIZE :: usize where "PAGE_SIZE = 4096"
definition DEFAULT_HEAP_BASE :: usize where "DEFAULT_HEAP_BASE = 0x20000000"
definition DEFAULT_MESSAGE_BASE :: usize where "DEFAULT_MESSAGE_BASE = 0x40000000"
definition DEFAULT_BASE :: usize where "DEFAULT_BASE = 0x60000000"
definition MMAP_VIRT_BASE :: usize where "MMAP_VIRT_BASE = 0xb0000000"
definition USER_AREA_END :: usize where "USER_AREA_END = 0xff000000"
definition PAGE_TABLE_OFFSET :: usize where "PAGE_TABLE_OFFSET = 0xff400000"
definition PAGE_TABLE_ROOT_OFFSET :: usize where "PAGE_TABLE_ROOT_OFFSET = 0xff800000"
definition THREAD_CONTEXT_AREA :: usize where "THREAD_CONTEXT_AREA = 0xff801000"

definition FLG_VALID :: usize where "FLG_VALID = 0x1"
definition FLG_R :: usize where "FLG_R = 0x2"
definition FLG_W :: usize where "FLG_W = 0x4"
definition FLG_X :: usize where "FLG_X = 0x8"
definition FLG_U :: usize where "FLG_U = 0x10"
definition FLG_A :: usize where "FLG_A = 0x40"
definition FLG_D :: usize where "FLG_D = 0x80"
definition FLG_S :: usize where "FLG_S = 0x100"
definition FLG_P :: usize where "FLG_P = 0x200"

lemmas mmu_flag_defs = FLG_VALID_def FLG_R_def FLG_W_def FLG_X_def FLG_U_def FLG_A_def FLG_D_def
  FLG_S_def FLG_P_def

section \<open>Process-private data\<close>

record process_inner =
  mem_default_base :: usize
  mem_default_last :: usize
  mem_message_base :: usize
  mem_message_last :: usize
  mem_heap_base :: usize
  mem_heap_size :: usize
  mem_heap_max :: usize
  connection_map :: "u8 option list"
  inner_pid :: PID

definition process_inner_default :: process_inner where
  "process_inner_default = \<lparr>mem_default_base = DEFAULT_BASE, mem_default_last = DEFAULT_BASE,
     mem_message_base = DEFAULT_MESSAGE_BASE, mem_message_last = DEFAULT_MESSAGE_BASE,
     mem_heap_base = DEFAULT_HEAP_BASE, mem_heap_size = 0, mem_heap_max = 1024 * 512,
     connection_map = replicate 32 None, inner_pid = 1\<rparr>"

record thread =
  registers :: "usize list"
  sepc :: usize

definition thread_default :: thread where
  "thread_default = \<lparr>registers = replicate 31 0, sepc = 0\<rparr>"

record space =
  l1 :: "nat \<Rightarrow> usize"
  l0 :: "nat \<Rightarrow> nat \<Rightarrow> usize"
  hardware_thread :: usize
  inner :: process_inner
  last_tid_allocated :: u8
  threads :: "thread list"

section \<open>Memory manager and machine\<close>

record region =
  mem_start :: u32
  mem_size :: u32
  mem_tag :: u32

record mstate =
  ram_start :: usize
  ram_size :: usize
  last_ram_page :: nat
  mem_allocs :: "PID option list"
  extra_regions :: "region list"
  extra_allocs :: "PID option list"
  spaces :: "usize \<Rightarrow> space"
  satp :: usize
  table_current :: PID
  proc_table :: "bool list"

abbreviation cur_space :: "'z mstate_scheme \<Rightarrow> space" where
  "cur_space s \<equiv> spaces s (satp s)"

definition upd_space :: "(space \<Rightarrow> space) \<Rightarrow> 'z mstate_scheme \<Rightarrow> 'z mstate_scheme" where
  "upd_space f s = s\<lparr>spaces := (spaces s)(satp s := f (spaces s (satp s)))\<rparr>"

text \<open>\<open>MemoryMapping::activate\<close>: write \<open>satp\<close>.\<close>

definition activate_mapping :: "usize \<Rightarrow> 'z mstate_scheme \<Rightarrow> 'z mstate_scheme" where
  "activate_mapping sp s = s\<lparr>satp := sp\<rparr>"

text \<open>\<open>MemoryMapping::get_pid\<close>: the ASID field of \<open>satp\<close>, cut to 8 bits.\<close>

definition mapping_get_pid :: "usize \<Rightarrow> PID option" where
  "mapping_get_pid sp = nz_new (ucast (drop_bit 22 sp AND 0x1ff) :: u8)"

definition mapping_is_allocated :: "usize \<Rightarrow> bool" where
  "mapping_is_allocated sp = (mapping_get_pid sp \<noteq> None)"

definition mapping_is_kernel :: "usize \<Rightarrow> bool" where
  "mapping_is_kernel sp = (mapping_get_pid sp = Some 1)"

text \<open>\<open>arch::current_pid\<close>: \<open>PID::new(satp::read().asid() as _).unwrap()\<close>.\<close>

definition arch_current_pid :: "'z mstate_scheme \<Rightarrow> PID option" where
  "arch_current_pid s = mapping_get_pid (satp s)"

text \<open>\<open>ArchProcess::with_inner_mut\<close> on a function that always returns.\<close>

definition upd_inner :: "(process_inner \<Rightarrow> process_inner) \<Rightarrow> 'z mstate_scheme \<Rightarrow> 'z mstate_scheme" where
  "upd_inner f = upd_space (\<lambda>sp. sp\<lparr>inner := f (inner sp)\<rparr>)"

definition cur_inner :: "'z mstate_scheme \<Rightarrow> process_inner" where
  "cur_inner s = inner (cur_space s)"

definition step_by_page :: "usize \<Rightarrow> usize \<Rightarrow> usize list" where
  "step_by_page a b =
     map (\<lambda>k. a + of_nat k * PAGE_SIZE) [0 ..< (unat b - unat a + 4095) div 4096]"

lemma satp_upd_space [simp]: "satp (upd_space f s) = satp s"
  by (simp add: upd_space_def)

lemma spaces_upd_space: "spaces (upd_space f s) = (spaces s)(satp s := f (cur_space s))"
  by (simp add: upd_space_def)

lemma upd_space_frame [simp]:
  "ram_start (upd_space f s) = ram_start s" "ram_size (upd_space f s) = ram_size s"
  "last_ram_page (upd_space f s) = last_ram_page s" "mem_allocs (upd_space f s) = mem_allocs s"
  "extra_regions (upd_space f s) = extra_regions s" "extra_allocs (upd_space f s) = extra_allocs s"
  "table_current (upd_space f s) = table_current s" "proc_table (upd_space f s) = proc_table s"
  "mstate.more (upd_space f s) = mstate.more s"
  by (simp_all add: upd_space_def)

lemma activate_mapping_frame [simp]:
  "ram_start (activate_mapping sp s) = ram_start s" "ram_size (activate_mapping sp s) = ram_size s"
  "last_ram_page (activate_mapping sp s) = last_ram_page s" "mem_allocs (activate_mapping sp s) = mem_allocs s"
  "extra_regions (activate_mapping sp s) = extra_regions s" "extra_allocs (activate_mapping sp s) = extra_allocs s"
  "table_current (activate_mapping sp s) = table_current s" "proc_table (activate_mapping sp s) = proc_table s"
  "spaces (activate_mapping sp s) = spaces s" "satp (activate_mapping sp s) = sp"
  "mstate.more (activate_mapping sp s) = mstate.more s"
  by (simp_all add: activate_mapping_def)

end
