(* ===== verification/Page_Alloc.thy ===== *)
theory Page_Alloc
  imports Memory_State
begin

text \<open>
  The physical page table of the kernel, from \<open>kernel/src/mem.rs\<close>: which
  process owns each page of main memory and of the extra regions, and the
  operations \<open>alloc_page\<close>, \<open>claim_release_move\<close>, \<open>claim_page\<close>, \<open>release_page\<close>
  and the conversions between table offsets and addresses.  The ownership
  rules are stated through the locale \<open>page_ownership\<close> and interpreted on these
  operations.
\<close>

section \<open>Operations\<close>

datatype ClaimReleaseMove = Claim | Release | MoveFrom PID

text \<open>
  \<open>MEMORY_ALLOCATIONS[starting_point..end_point]\<close> panics if the bounds are out of
  order or out of range.  \<open>starting_point\<close> is the larger of the hint and the
  end, so the first slice is always empty.
\<close>

definition alloc_page :: "PID \<Rightarrow> ('z mstate_scheme, usize) kop" where
  "alloc_page pid s =
     (let end_point = unat (ram_size s) div 4096;
          starting_point = max (last_ram_page s) end_point
      in if starting_point > end_point \<or> end_point > length (mem_allocs s) then (Panic, s)
         else (case find (\<lambda>i. mem_allocs s ! i = None) ([starting_point ..< end_point] @ [0 ..< starting_point]) of
             None \<Rightarrow> (Err OutOfMemory, s)
           | Some i \<Rightarrow> (Ok (of_nat i * PAGE_SIZE + ram_start s),
               s\<lparr>mem_allocs := (mem_allocs s)[i := Some pid], last_ram_page := i + 1\<rparr>)))"

definition is_main_memory :: "usize \<Rightarrow> 'z mstate_scheme \<Rightarrow> bool" where
  "is_main_memory phys s = (phys \<ge> ram_start s \<and> phys < ram_start s + ram_size s)"

definition action_inner :: "PID option \<Rightarrow> PID \<Rightarrow> ClaimReleaseMove \<Rightarrow> (PID option) kresult" where
  "action_inner owner pid action =
     (if (case owner of None \<Rightarrow> False
          | Some current_pid \<Rightarrow> current_pid \<noteq> pid \<and>
              (case action of MoveFrom existing_pid \<Rightarrow> existing_pid \<noteq> current_pid | _ \<Rightarrow> True))
      then Err MemoryInUse
      else Ok (case action of Claim \<Rightarrow> Some pid | MoveFrom _ \<Rightarrow> Some pid | Release \<Rightarrow> None))"

text \<open>Where the entry of a physical address is: an index into one of the two tables.\<close>

datatype page_slot = MainSlot nat | ExtraSlot nat

fun extra_slot :: "region list \<Rightarrow> nat \<Rightarrow> usize \<Rightarrow> nat option" where
  "extra_slot [] offset addr = None"
| "extra_slot (r # rs) offset addr =
     (if addr \<ge> mem_start r \<and> addr < mem_start r + mem_size r
      then Some (offset + unat (addr - mem_start r) div 4096)
      else extra_slot rs (offset + unat (mem_size r) div 4096) addr)"

definition page_slot :: "usize \<Rightarrow> 'z mstate_scheme \<Rightarrow> page_slot option" where
  "page_slot addr s =
     (if is_main_memory addr s then Some (MainSlot (unat (addr - ram_start s) div 4096))
      else map_option ExtraSlot (extra_slot (extra_regions s) 0 addr))"

definition claim_release_move :: "usize \<Rightarrow> PID \<Rightarrow> ClaimReleaseMove \<Rightarrow> ('z mstate_scheme, unit) kop" where
  "claim_release_move addr pid action s =
     (if addr AND 0xfff \<noteq> 0 then (Err BadAlignment, s)
      else (case page_slot addr s of
          None \<Rightarrow> (Err BadAddress, s)
        | Some (MainSlot i) \<Rightarrow>
            (if \<not> i < length (mem_allocs s) then (Panic, s)
             else (case action_inner (mem_allocs s ! i) pid action of
                 Ok owner \<Rightarrow> (Ok (), s\<lparr>mem_allocs := (mem_allocs s)[i := owner]\<rparr>)
               | Err e \<Rightarrow> (Err e, s) | Panic \<Rightarrow> (Panic, s)))
        | Some (ExtraSlot i) \<Rightarrow>
            (if \<not> i < length (extra_allocs s) then (Panic, s)
             else (case action_inner (extra_allocs s ! i) pid action of
                 Ok owner \<Rightarrow> (Ok (), s\<lparr>extra_allocs := (extra_allocs s)[i := owner]\<rparr>)
               | Err e \<Rightarrow> (Err e, s) | Panic \<Rightarrow> (Panic, s)))))"

definition claim_page :: "usize \<Rightarrow> PID \<Rightarrow> ('z mstate_scheme, unit) kop" where
  "claim_page addr pid = claim_release_move addr pid Claim"

definition release_page :: "usize \<Rightarrow> PID \<Rightarrow> ('z mstate_scheme, unit) kop" where
  "release_page addr pid = claim_release_move addr pid Release"

definition move_page_raw :: "usize \<Rightarrow> PID \<Rightarrow> ('z mstate_scheme, unit) kop" where
  "move_page_raw phys_addr dest_pid s =
     claim_release_move phys_addr dest_pid (MoveFrom (table_current s)) s"

definition allocation_offset_to_address :: "nat \<Rightarrow> 'z mstate_scheme \<Rightarrow> usize option" where
  "allocation_offset_to_address offset s =
     (if offset < unat (ram_size s) div 4096 then Some (ram_start s + of_nat offset * PAGE_SIZE) else None)"

fun offset_in_regions :: "region list \<Rightarrow> nat \<Rightarrow> usize option" where
  "offset_in_regions [] offset = None"
| "offset_in_regions (r # rs) offset =
     (if offset \<ge> unat (mem_size r) div 4096 then offset_in_regions rs (offset - unat (mem_size r) div 4096)
      else Some (mem_start r + of_nat offset * PAGE_SIZE))"

definition allocation_offset_to_address_extra :: "nat \<Rightarrow> 'z mstate_scheme \<Rightarrow> usize option" where
  "allocation_offset_to_address_extra offset s = offset_in_regions (extra_regions s) offset"

definition ram_used_by :: "PID \<Rightarrow> 'z mstate_scheme \<Rightarrow> usize" where
  "ram_used_by pid s =
     of_nat (length (filter (\<lambda>owner. owner = Some pid) (take (unat (ram_size s) div 4096) (mem_allocs s)))) * PAGE_SIZE"

section \<open>Consistent tables\<close>

definition region_ok :: "region \<Rightarrow> bool" where
  "region_ok r = (mem_start r AND 0xfff = 0 \<and> mem_size r AND 0xfff = 0 \<and>
     unat (mem_start r) + unat (mem_size r) < 2 ^ 32)"

definition tables_inv :: "'z mstate_scheme \<Rightarrow> bool" where
  "tables_inv s =
     (region_ok \<lparr>mem_start = ram_start s, mem_size = ram_size s, mem_tag = 0\<rparr> \<and>
      length (mem_allocs s) = unat (ram_size s) div 4096 \<and>
      last_ram_page s \<le> length (mem_allocs s) \<and>
      list_all region_ok (extra_regions s) \<and>
      length (extra_allocs s) = sum_list (map (\<lambda>r. unat (mem_size r) div 4096) (extra_regions s)))"

text \<open>The owner the tables record for a physical address.\<close>

definition owner :: "usize \<Rightarrow> 'z mstate_scheme \<Rightarrow> PID option" where
  "owner addr s = (case page_slot addr s of
     None \<Rightarrow> None
   | Some (MainSlot i) \<Rightarrow> (if i < length (mem_allocs s) then mem_allocs s ! i else None)
   | Some (ExtraSlot i) \<Rightarrow> (if i < length (extra_allocs s) then extra_allocs s ! i else None))"

definition page_aligned :: "usize \<Rightarrow> bool" where
  "page_aligned a = (a AND 0xfff = 0)"

section \<open>Addresses and slots\<close>

lemma less_div_mult: "i < n div k \<Longrightarrow> 0 < k \<Longrightarrow> i * k < (n :: nat)"
  by (meson div_times_less_eq_dividend mult_less_mono1 order_less_le_trans)

lemma page_aligned_iff: "page_aligned a \<longleftrightarrow> unat a mod 4096 = 0"
proof -
  have "a AND 0xfff = take_bit 12 a"
    by (simp add: take_bit_eq_mask mask_eq_exp_minus_1)
  then have "page_aligned a \<longleftrightarrow> unat (take_bit 12 a) = 0"
    by (simp add: page_aligned_def unat_eq_0)
  also have "\<dots> \<longleftrightarrow> unat a mod 4096 = 0"
    by (simp only: unsigned_take_bit_eq) (simp add: take_bit_eq_mod)
  finally show ?thesis .
qed

definition in_region :: "region \<Rightarrow> usize \<Rightarrow> bool" where
  "in_region r a = (a \<ge> mem_start r \<and> a < mem_start r + mem_size r)"

lemma in_region_unat:
  assumes "region_ok r" "in_region r a"
  shows "unat a = unat (mem_start r) + unat (a - mem_start r)" "unat (a - mem_start r) < unat (mem_size r)"
proof -
  have "unat (mem_start r + mem_size r) = unat (mem_start r) + unat (mem_size r)"
    using assms(1) unat_add_lem [of "mem_start r" "mem_size r"] by (simp add: region_ok_def)
  then show "unat a = unat (mem_start r) + unat (a - mem_start r)" "unat (a - mem_start r) < unat (mem_size r)"
    using assms(2) by (auto simp: in_region_def word_le_nat_alt word_less_nat_alt unat_sub)
qed

lemma region_ok_mod: "region_ok r \<Longrightarrow> unat (mem_start r) mod 4096 = 0 \<and> unat (mem_size r) mod 4096 = 0"
  using page_aligned_iff by (auto simp: region_ok_def page_aligned_def)

lemma region_offset_bound:
  assumes "region_ok r" "in_region r a"
  shows "unat (a - mem_start r) div 4096 < unat (mem_size r) div 4096"
  using in_region_unat(2) [OF assms] region_ok_mod [OF assms(1)]
  by (metis div_less_iff_less_mult mult.commute mult_div_mod_eq add.right_neutral zero_less_numeral)

lemma region_offset_inj:
  assumes "region_ok r" "in_region r a" "in_region r b" "page_aligned a" "page_aligned b"
    and "unat (a - mem_start r) div 4096 = unat (b - mem_start r) div 4096"
  shows "a = b"
proof -
  have "unat (a - mem_start r) mod 4096 = 0" "unat (b - mem_start r) mod 4096 = 0"
    using in_region_unat(1) [OF assms(1,2)] in_region_unat(1) [OF assms(1,3)] region_ok_mod [OF assms(1)]
      assms(4,5) by (auto simp: page_aligned_iff mod_eq_0_iff_dvd dvd_add_right_iff)
  then have "unat (a - mem_start r) = unat (b - mem_start r)"
    using assms(6) by (metis mult_div_mod_eq)
  then show ?thesis by (simp flip: word_unat_eq_iff)
qed

lemma extra_slot_bounds:
  assumes "list_all region_ok rs" "extra_slot rs off a = Some i"
  shows "off \<le> i \<and> i < off + sum_list (map (\<lambda>r. unat (mem_size r) div 4096) rs)"
  using assms
proof (induction rs arbitrary: off)
  case (Cons r rs)
  show ?case
  proof (cases "in_region r a")
    case True
    then show ?thesis using Cons.prems region_offset_bound [of r a] by (auto simp: in_region_def)
  next
    case False
    then show ?thesis using Cons.prems Cons.IH [of "off + unat (mem_size r) div 4096"] by (auto simp: in_region_def)
  qed
qed simp

lemma extra_slot_inj:
  assumes "list_all region_ok rs" "extra_slot rs off a = Some i" "extra_slot rs off b = Some i"
    "page_aligned a" "page_aligned b"
  shows "a = b"
  using assms
proof (induction rs arbitrary: off)
  case (Cons r rs)
  let ?off = "off + unat (mem_size r) div 4096"
  have rs: "list_all region_ok rs" "region_ok r" using Cons.prems(1) by simp_all
  have out: "?off \<le> i" if "\<not> in_region r c" "extra_slot (r # rs) off c = Some i" for c
    using that extra_slot_bounds [OF rs(1), of ?off c] by (auto simp: in_region_def)
  have inside: "i < ?off" if "in_region r c" "extra_slot (r # rs) off c = Some i" for c
    using that region_offset_bound [OF rs(2)] by (auto simp: in_region_def)
  show ?case
  proof (cases "in_region r a"; cases "in_region r b")
    assume "in_region r a" "in_region r b"
    then show ?thesis using Cons.prems region_offset_inj [OF rs(2)] by (auto simp: in_region_def)
  next
    assume "\<not> in_region r a" "\<not> in_region r b"
    then show ?thesis using Cons.prems Cons.IH [OF rs(1), of ?off] by (auto simp: in_region_def)
  qed (use Cons.prems(2,3) inside out in fastforce)+
qed simp

lemma page_slot_inj:
  assumes "tables_inv s" "page_slot a s = page_slot b s" "page_slot a s \<noteq> None" "page_aligned a" "page_aligned b"
  shows "a = b"
proof -
  let ?r = "\<lparr>mem_start = ram_start s, mem_size = ram_size s, mem_tag = 0\<rparr>"
  have r: "region_ok ?r" "list_all region_ok (extra_regions s)" using assms(1) by (simp_all add: tables_inv_def)
  have main: "is_main_memory x s = in_region ?r x" for x by (simp add: is_main_memory_def in_region_def)
  show ?thesis
    using assms(2-5) region_offset_inj [OF r(1), of a b] extra_slot_inj [OF r(2), of 0 a _ b]
    by (auto simp: page_slot_def main split: if_splits)
qed

lemma page_slot_range:
  assumes "tables_inv s" "page_slot a s = Some sl"
  shows "case sl of MainSlot i \<Rightarrow> i < length (mem_allocs s) | ExtraSlot i \<Rightarrow> i < length (extra_allocs s)"
proof -
  let ?r = "\<lparr>mem_start = ram_start s, mem_size = ram_size s, mem_tag = 0\<rparr>"
  have "region_ok ?r" using assms(1) by (simp add: tables_inv_def)
  then show ?thesis
    using assms region_offset_bound [of ?r a] extra_slot_bounds [of "extra_regions s" 0 a]
    by (auto simp: page_slot_def is_main_memory_def in_region_def tables_inv_def split: if_splits)
qed

lemma page_slot_frame:
  "ram_start s' = ram_start s \<Longrightarrow> ram_size s' = ram_size s \<Longrightarrow> extra_regions s' = extra_regions s \<Longrightarrow>
   page_slot a s' = page_slot a s"
  by (simp add: page_slot_def is_main_memory_def)

section \<open>Effect of the operations\<close>

text \<open>What the allocation table operations never touch.\<close>

definition same_but_tables :: "'z mstate_scheme \<Rightarrow> 'z mstate_scheme \<Rightarrow> bool" where
  "same_but_tables s s' =
     (spaces s' = spaces s \<and> satp s' = satp s \<and> table_current s' = table_current s \<and>
      proc_table s' = proc_table s \<and> ram_start s' = ram_start s \<and> ram_size s' = ram_size s \<and>
      extra_regions s' = extra_regions s \<and> mstate.more s' = mstate.more s)"

lemma same_but_tablesD:
  assumes "same_but_tables s s'"
  shows "spaces s' = spaces s" "satp s' = satp s" "table_current s' = table_current s"
    "proc_table s' = proc_table s" "ram_start s' = ram_start s" "ram_size s' = ram_size s"
    "extra_regions s' = extra_regions s" "mstate.more s' = mstate.more s"
  using assms by (simp_all add: same_but_tables_def)

lemma same_but_tables_refl [simp]: "same_but_tables s s"
  by (simp add: same_but_tables_def)

lemma same_but_tables_trans: "\<lbrakk>same_but_tables s t; same_but_tables t u\<rbrakk> \<Longrightarrow> same_but_tables s u"
  by (simp add: same_but_tables_def)

lemma alloc_page_frame: "alloc_page pid s = (r, s') \<Longrightarrow> same_but_tables s s'"
  by (auto simp: alloc_page_def Let_def same_but_tables_def split: if_splits option.splits)

lemma claim_release_move_frame: "claim_release_move addr pid act s = (r, s') \<Longrightarrow> same_but_tables s s'"
  by (auto simp: claim_release_move_def same_but_tables_def
      split: if_splits option.splits page_slot.splits outcome.splits)

lemma owner_slot:
  "\<lbrakk>tables_inv s; page_slot a s = Some sl\<rbrakk> \<Longrightarrow>
   owner a s = (case sl of MainSlot i \<Rightarrow> mem_allocs s ! i | ExtraSlot i \<Rightarrow> extra_allocs s ! i)"
  using page_slot_range [of s a sl] by (auto simp: owner_def split: page_slot.splits)

lemma owner_main_update:
  fixes v :: "PID option"
  assumes inv: "tables_inv s" and i: "page_slot a s = Some (MainSlot i)" and a: "page_aligned a"
    and l: "l \<le> length (mem_allocs s)"
  defines "s' \<equiv> s\<lparr>mem_allocs := (mem_allocs s)[i := v], last_ram_page := l\<rparr>"
  shows "tables_inv s'" "owner a s' = v" "page_aligned b \<Longrightarrow> b \<noteq> a \<Longrightarrow> owner b s' = owner b s"
proof -
  have slot: "page_slot x s' = page_slot x s" for x by (rule page_slot_frame) (simp_all add: s'_def)
  show inv': "tables_inv s'" using inv l by (simp add: tables_inv_def s'_def)
  have ilen: "i < length (mem_allocs s)" using page_slot_range [OF inv i] by simp
  then show "owner a s' = v" using i by (simp add: owner_def slot) (simp add: s'_def)
  assume b: "page_aligned b" "b \<noteq> a"
  then have "page_slot b s \<noteq> Some (MainSlot i)" using page_slot_inj [OF inv, of a b] i a by auto
  then show "owner b s' = owner b s"
    by (simp add: owner_def slot split: option.splits page_slot.splits) (auto simp: s'_def)
qed

lemma owner_extra_update:
  fixes v :: "PID option"
  assumes inv: "tables_inv s" and i: "page_slot a s = Some (ExtraSlot i)" and a: "page_aligned a"
  defines "s' \<equiv> s\<lparr>extra_allocs := (extra_allocs s)[i := v]\<rparr>"
  shows "tables_inv s'" "owner a s' = v" "page_aligned b \<Longrightarrow> b \<noteq> a \<Longrightarrow> owner b s' = owner b s"
proof -
  have slot: "page_slot x s' = page_slot x s" for x by (rule page_slot_frame) (simp_all add: s'_def)
  show inv': "tables_inv s'" using inv by (simp add: tables_inv_def s'_def)
  have ilen: "i < length (extra_allocs s)" using page_slot_range [OF inv i] by simp
  then show "owner a s' = v" using i by (simp add: owner_def slot) (simp add: s'_def)
  assume b: "page_aligned b" "b \<noteq> a"
  then have "page_slot b s \<noteq> Some (ExtraSlot i)" using page_slot_inj [OF inv, of a b] i a by auto
  then show "owner b s' = owner b s"
    by (simp add: owner_def slot split: option.splits page_slot.splits) (auto simp: s'_def)
qed

text \<open>When the ownership of a page may change hands, and to what.\<close>

fun may_take :: "PID option \<Rightarrow> PID \<Rightarrow> ClaimReleaseMove \<Rightarrow> bool" where
  "may_take old pid (MoveFrom from) = (old = None \<or> old = Some pid \<or> old = Some from)"
| "may_take old pid _ = (old = None \<or> old = Some pid)"

fun new_owner :: "PID \<Rightarrow> ClaimReleaseMove \<Rightarrow> PID option" where
  "new_owner pid Release = None"
| "new_owner pid _ = Some pid"

lemma action_inner_spec:
  "action_inner old pid act = (if may_take old pid act then Ok (new_owner pid act) else Err MemoryInUse)"
  by (cases act; cases old) (auto simp: action_inner_def)

lemma claim_release_move_spec:
  assumes inv: "tables_inv s"
  shows "case claim_release_move addr pid act s of
      (Ok _, s') \<Rightarrow> page_aligned addr \<and> page_slot addr s \<noteq> None \<and> may_take (owner addr s) pid act \<and>
         tables_inv s' \<and> owner addr s' = new_owner pid act \<and>
         (\<forall>b. page_aligned b \<longrightarrow> b \<noteq> addr \<longrightarrow> owner b s' = owner b s)
    | (Err e, s') \<Rightarrow> s' = s
    | (Panic, s') \<Rightarrow> False"
proof (cases "page_aligned addr \<and> page_slot addr s \<noteq> None")
  case False
  then show ?thesis by (auto simp: claim_release_move_def page_aligned_def)
next
  case True
  then obtain sl where sl: "page_slot addr s = Some sl" and al: "page_aligned addr" by auto
  have l: "last_ram_page s \<le> length (mem_allocs s)" using inv by (simp add: tables_inv_def)
  show ?thesis
  proof (cases sl)
    case (MainSlot i)
    with sl page_slot_range [OF inv sl] owner_slot [OF inv sl] al
      owner_main_update [OF inv sl [unfolded MainSlot] al l, where v = "new_owner pid act"]
    show ?thesis by (auto simp: claim_release_move_def action_inner_spec page_aligned_def)
  next
    case (ExtraSlot i)
    with sl page_slot_range [OF inv sl] owner_slot [OF inv sl] al
      owner_extra_update [OF inv sl [unfolded ExtraSlot] al, where v = "new_owner pid act"]
    show ?thesis by (auto simp: claim_release_move_def action_inner_spec page_aligned_def)
  qed
qed

lemma main_slot_addr:
  assumes inv: "tables_inv s" and i: "i < length (mem_allocs s)"
  defines "a \<equiv> of_nat i * PAGE_SIZE + ram_start s"
  shows "page_aligned a" "page_slot a s = Some (MainSlot i)" "is_main_memory a s"
    "unat a = i * 4096 + unat (ram_start s)"
proof -
  let ?r = "\<lparr>mem_start = ram_start s, mem_size = ram_size s, mem_tag = 0\<rparr>"
  have ok: "region_ok ?r" and len: "length (mem_allocs s) = unat (ram_size s) div 4096"
    using inv by (simp_all add: tables_inv_def)
  have sz: "i * 4096 < unat (ram_size s)"
    using less_div_mult [of i "unat (ram_size s)" 4096] i by (simp add: len)
  have bound: "unat (ram_start s) + unat (ram_size s) < 2 ^ 32" using ok by (simp add: region_ok_def)
  have ui: "unat (of_nat i :: usize) = i" using sz bound by (simp add: unsigned_of_nat take_bit_nat_eq_self)
  have up: "unat PAGE_SIZE = 4096" by (simp add: PAGE_SIZE_def)
  have off: "unat (of_nat i * PAGE_SIZE) = i * 4096"
    using unat_mult_lem [of "of_nat i" PAGE_SIZE] sz bound unfolding ui up by simp
  show ua: "unat a = i * 4096 + unat (ram_start s)"
    using off sz bound unat_add_lem [of "of_nat i * PAGE_SIZE" "ram_start s"] by (simp add: a_def)
  have ue: "unat (ram_start s + ram_size s) = unat (ram_start s) + unat (ram_size s)"
    using bound unat_add_lem [of "ram_start s" "ram_size s"] by simp
  show main: "is_main_memory a s"
    using ua ue sz by (simp add: is_main_memory_def word_le_nat_alt word_less_nat_alt)
  show "page_aligned a" using ua region_ok_mod [OF ok] by (simp add: page_aligned_iff)
  have "unat (a - ram_start s) = i * 4096" using off by (simp add: a_def)
  then show "page_slot a s = Some (MainSlot i)" using main by (simp add: page_slot_def)
qed

lemma alloc_page_spec:
  assumes inv: "tables_inv s"
  shows "case alloc_page pid s of
      (Ok a, s') \<Rightarrow> page_aligned a \<and> is_main_memory a s \<and> owner a s = None \<and>
         tables_inv s' \<and> owner a s' = Some pid \<and>
         (\<forall>b. page_aligned b \<longrightarrow> b \<noteq> a \<longrightarrow> owner b s' = owner b s) \<and>
         (\<forall>b. page_aligned b \<longrightarrow> is_main_memory b s \<longrightarrow> b < a \<longrightarrow> owner b s \<noteq> None)
    | (Err e, s') \<Rightarrow> e = OutOfMemory \<and> s' = s \<and> (\<forall>o' \<in> set (mem_allocs s). o' \<noteq> None)
    | (Panic, s') \<Rightarrow> False"
proof -
  have len: "length (mem_allocs s) = unat (ram_size s) div 4096" and l: "last_ram_page s \<le> length (mem_allocs s)"
    and ok: "region_ok \<lparr>mem_start = ram_start s, mem_size = ram_size s, mem_tag = 0\<rparr>"
    using inv by (simp_all add: tables_inv_def)
  let ?n = "length (mem_allocs s)"
  have max: "max (last_ram_page s) ?n = ?n" using l by simp
  show ?thesis
  proof (cases "find (\<lambda>i. mem_allocs s ! i = None) [0 ..< ?n]")
    case None
    then have "alloc_page pid s = (Err OutOfMemory, s)"
      using max by (simp add: alloc_page_def Let_def flip: len)
    then show ?thesis using None by (auto simp: find_None_iff in_set_conv_nth)
  next
    case (Some i)
    then have i: "i < ?n" "mem_allocs s ! i = None" "\<forall>j<i. mem_allocs s ! j \<noteq> None"
      by (auto simp: find_Some_iff)
    note A = main_slot_addr [OF inv i(1)]
    have low: "owner b s \<noteq> None" if b: "page_aligned b" "is_main_memory b s" "b < of_nat i * PAGE_SIZE + ram_start s" for b
    proof -
      let ?r = "\<lparr>mem_start = ram_start s, mem_size = ram_size s, mem_tag = 0\<rparr>"
      have bs: "page_slot b s = Some (MainSlot (unat (b - ram_start s) div 4096))" using b(2) by (simp add: page_slot_def)
      have "unat b = unat (ram_start s) + unat (b - ram_start s)"
        using in_region_unat(1) [OF ok, of b] b(2) by (simp add: in_region_def is_main_memory_def)
      then have "unat (b - ram_start s) div 4096 < i" using b(3) A(4) by (simp add: word_less_nat_alt)
      then show ?thesis using owner_slot [OF inv bs] i(3) by simp
    qed
    have "alloc_page pid s = (Ok (of_nat i * PAGE_SIZE + ram_start s),
        s\<lparr>mem_allocs := (mem_allocs s)[i := Some pid], last_ram_page := i + 1\<rparr>)"
      using Some max by (simp add: alloc_page_def Let_def flip: len)
    then show ?thesis
      using A owner_main_update [OF inv A(2,1), where l = "i + 1" and v = "Some pid"] i low owner_slot [OF inv A(2)] by simp
  qed
qed

section \<open>Ownership\<close>

datatype page_op =
    PAlloc PID
  | PClaim usize PID
  | PRelease usize PID
  | PMove usize PID PID

text \<open>Which change of owner an operation is entitled to make on page \<open>b\<close>.\<close>

fun entitled :: "page_op \<Rightarrow> usize \<Rightarrow> PID option \<Rightarrow> PID option \<Rightarrow> bool" where
  "entitled (PAlloc p) b old new = (old = None \<and> new = Some p)"
| "entitled (PClaim a p) b old new = (b = a \<and> old = None \<and> new = Some p)"
| "entitled (PRelease a p) b old new = (b = a \<and> old = Some p \<and> new = None)"
| "entitled (PMove a from to) b old new = (b = a \<and> (old = None \<or> old = Some from) \<and> new = Some to)"

definition gives_up :: "PID \<Rightarrow> usize \<Rightarrow> page_op \<Rightarrow> bool" where
  "gives_up p b op' = (op' = PRelease b p \<or> (\<exists>to. op' = PMove b p to))"

locale page_ownership =
  fixes own :: "usize \<Rightarrow> 's \<Rightarrow> PID option"
    and apply_op :: "page_op \<Rightarrow> 's \<Rightarrow> 's"
    and inv :: "'s \<Rightarrow> bool"
    and aligned :: "usize \<Rightarrow> bool"
  assumes op_inv: "inv s \<Longrightarrow> inv (apply_op x s)"
    and op_entitled: "\<lbrakk>inv s; aligned b; own b (apply_op x s) \<noteq> own b s\<rbrakk> \<Longrightarrow>
       entitled x b (own b s) (own b (apply_op x s))"
begin

lemma run_inv: "inv s \<Longrightarrow> inv (fold apply_op xs s)"
  by (induction xs arbitrary: s) (auto intro: op_inv)

lemma owner_stable:
  assumes "inv s" "aligned b" "own b s = Some p" "\<forall>x \<in> set xs. \<not> gives_up p b x"
  shows "own b (fold apply_op xs s) = Some p"
  using assms
proof (induction xs arbitrary: s)
  case (Cons x xs)
  have "own b (apply_op x s) = Some p"
  proof (rule ccontr)
    assume "own b (apply_op x s) \<noteq> Some p"
    then have "entitled x b (Some p) (own b (apply_op x s))"
      using op_entitled [OF Cons.prems(1,2), of x] Cons.prems(3) by simp
    then show False using Cons.prems(4) by (cases x) (auto simp: gives_up_def)
  qed
  then show ?case using Cons by (simp add: op_inv)
qed simp

lemma single_owner_change:
  assumes "inv s" "aligned b" "own b (apply_op x s) = Some q" "own b s = Some p" "p \<noteq> q"
  shows "x = PMove b p q"
  using op_entitled [OF assms(1,2), of x] assms(3-5) by (cases x) auto

end

definition apply_page_op :: "page_op \<Rightarrow> mstate \<Rightarrow> mstate" where
  "apply_page_op x s = (case x of
     PAlloc p \<Rightarrow> snd (alloc_page p s)
   | PClaim a p \<Rightarrow> snd (claim_page a p s)
   | PRelease a p \<Rightarrow> snd (release_page a p s)
   | PMove a from to \<Rightarrow> snd (claim_release_move a to (MoveFrom from) s))"

lemma alloc_page_owner:
  assumes "tables_inv s" "page_aligned b"
  shows "tables_inv (snd (alloc_page p s))"
    and "owner b (snd (alloc_page p s)) = owner b s \<or>
         owner b s = None \<and> owner b (snd (alloc_page p s)) = Some p"
  using alloc_page_spec [OF assms(1), of p] assms
  by (cases "alloc_page p s"; cases "fst (alloc_page p s)"; auto)+

lemma claim_release_move_owner:
  assumes "tables_inv s" "page_aligned b"
  shows "tables_inv (snd (claim_release_move a p act s))"
    and "owner b (snd (claim_release_move a p act s)) = owner b s \<or>
         b = a \<and> may_take (owner b s) p act \<and> owner b (snd (claim_release_move a p act s)) = new_owner p act"
  using claim_release_move_spec [OF assms(1), of a p act] assms
  by (cases "claim_release_move a p act s"; cases "fst (claim_release_move a p act s)"; auto)+

interpretation kernel_pages: page_ownership owner apply_page_op tables_inv page_aligned
proof
  fix s :: mstate and x assume "tables_inv s"
  moreover have "page_aligned 0" by (simp add: page_aligned_def)
  ultimately show "tables_inv (apply_page_op x s)"
    by (cases x) (simp_all add: apply_page_op_def claim_page_def release_page_def
        alloc_page_owner(1) claim_release_move_owner(1))
next
  fix s :: mstate and b x
  assume b: "tables_inv s" "page_aligned b" "owner b (apply_page_op x s) \<noteq> owner b s"
  note crm = claim_release_move_owner(2) [OF b(1,2)]
  show "entitled x b (owner b s) (owner b (apply_page_op x s))"
  proof (cases x)
    case (PAlloc p)
    then show ?thesis using b(3) alloc_page_owner(2) [OF b(1,2), of p] by (auto simp: apply_page_op_def)
  next
    case (PClaim a p)
    then show ?thesis using b(3) crm [of a p Claim] by (auto simp: apply_page_op_def claim_page_def)
  next
    case (PRelease a p)
    then show ?thesis using b(3) crm [of a p Release] by (auto simp: apply_page_op_def release_page_def)
  next
    case (PMove a q r)
    then show ?thesis using b(3) crm [of a r "MoveFrom q"] by (auto simp: apply_page_op_def)
  qed
qed

section \<open>Properties\<close>

definition demo_mem :: mstate where
  "demo_mem = \<lparr>ram_start = 0x40000000, ram_size = 0x4000, last_ram_page = 0,
     mem_allocs = [Some 1, None, Some 2, None],
     extra_regions = [\<lparr>mem_start = 0x60000000, mem_size = 0x1000, mem_tag = 0\<rparr>], extra_allocs = [None],
     spaces = (\<lambda>_. \<lparr>l1 = \<lambda>_. 0, l0 = \<lambda>_ _. 0, hardware_thread = 0, inner = process_inner_default,
        last_tid_allocated = 0, threads = []\<rparr>),
     satp = 0x80400000, table_current = 1, proc_table = []\<rparr>"

lemma demo_mem_inv [simp]: "tables_inv demo_mem"
  by (simp add: tables_inv_def demo_mem_def region_ok_def)

text \<open>
  C7: A physical page stays with its owner.  Whatever sequence of allocations,
  claims, releases and moves other processes make, a page owned by process
  \<open>p\<close> stays owned by \<open>p\<close> until \<open>p\<close> itself releases it or it is moved out of
  \<open>p\<close>.
\<close>
theorem page_isolation:
  assumes "tables_inv s" "page_aligned b" "owner b s = Some p" "\<forall>x \<in> set xs. \<not> gives_up p b x"
  shows "tables_inv (fold apply_page_op xs s) \<and> owner b (fold apply_page_op xs s) = Some p"
  using kernel_pages.owner_stable [OF assms] kernel_pages.run_inv [OF assms(1)] by simp

theorem page_isolation_witness:
  "owner 0x40002000 (fold apply_page_op [PAlloc 3, PClaim 0x40002000 3, PRelease 0x40002000 4,
     PMove 0x40002000 5 6, PAlloc 3, PAlloc 3, PClaim 0x60000000 3] demo_mem) = Some 2"
proof -
  have "owner 0x40002000 demo_mem = Some 2"
    by (simp add: owner_def page_slot_def is_main_memory_def demo_mem_def)
  then show ?thesis
    using page_isolation [of demo_mem "0x40002000" 2 "[PAlloc 3, PClaim 0x40002000 3, PRelease 0x40002000 4,
      PMove 0x40002000 5 6, PAlloc 3, PAlloc 3, PClaim 0x60000000 3]"]
    by (simp add: page_aligned_def gives_up_def)
qed

text \<open>
  C14: \<open>alloc_page\<close> hands out the lowest free page of main memory, page-aligned,
  previously unowned and now owned by the caller alone, and reports
  \<open>OutOfMemory\<close> only when every page is taken.  The rotating hint
  \<open>last_ram_page\<close> has no influence on the choice.
\<close>
theorem alloc_page_first_fit:
  assumes "tables_inv s"
  shows "(\<exists>a s'. alloc_page pid s = (Ok a, s') \<and> tables_inv s' \<and> page_aligned a \<and> is_main_memory a s \<and>
            owner a s = None \<and> owner a s' = Some pid \<and>
            (\<forall>b. page_aligned b \<longrightarrow> b \<noteq> a \<longrightarrow> owner b s' = owner b s) \<and>
            (\<forall>b. page_aligned b \<longrightarrow> is_main_memory b s \<longrightarrow> b < a \<longrightarrow> owner b s \<noteq> None)) \<or>
         alloc_page pid s = (Err OutOfMemory, s) \<and> None \<notin> set (mem_allocs s)"
  using alloc_page_spec [OF assms, of pid] by (auto split: prod.splits outcome.splits)

theorem alloc_page_first_fit_witness:
  "\<exists>s'. alloc_page 7 demo_mem = (Ok 0x40001000, s') \<and> owner 0x40001000 s' = Some 7"
proof -
  have "fst (alloc_page 7 demo_mem) = Ok 0x40001000"
    by (simp add: alloc_page_def demo_mem_def Let_def PAGE_SIZE_def upt_rec)
  then show ?thesis using alloc_page_first_fit [of demo_mem 7] by auto
qed

end
