(* ===== verification/Page_Table.thy ===== *)
theory Page_Table
  imports Page_Alloc
begin

text \<open>
  The Sv32 page tables, from \<open>kernel/src/arch/riscv/mem.rs\<close>: translation of
  flags, mapping and unmapping, virtual-to-physical translation, demand
  allocation of reserved pages, changes of permission, and the three ways a
  page crosses address spaces (move, lend, return).

  All functions of this file work on the active space through the root table
  window (\<open>l1\<close>) and the leaf table windows (\<open>l0\<close>).  The functions that touch
  two spaces switch \<open>satp\<close> and back, as the source does.  Writing a leaf
  entry takes effect at once: the TLB flushes of the source have no further
  effect in the model.
\<close>

section \<open>Addresses, entries and flags\<close>

definition vpn1 :: "usize \<Rightarrow> nat" where "vpn1 a = unat (drop_bit 22 a AND 0x3ff)"
definition vpn0 :: "usize \<Rightarrow> nat" where "vpn0 a = unat (drop_bit 12 a AND 0x3ff)"

definition has_flag :: "usize \<Rightarrow> usize \<Rightarrow> bool" where
  "has_flag e f = (e AND f \<noteq> 0)"

definition entry_phys :: "usize \<Rightarrow> usize" where
  "entry_phys e = push_bit 12 (drop_bit 10 e)"

definition mk_entry :: "usize \<Rightarrow> usize \<Rightarrow> usize" where
  "mk_entry phys flags =
     push_bit 20 (drop_bit 22 phys AND 0xfff) OR push_bit 10 (drop_bit 12 phys AND 0x3ff) OR flags"

definition table_entry :: "usize \<Rightarrow> usize" where
  "table_entry phys = push_bit 10 (drop_bit 12 phys) OR FLG_VALID"

definition window :: "nat \<Rightarrow> usize" where
  "window v = PAGE_TABLE_OFFSET + of_nat v * PAGE_SIZE"

definition pte :: "nat \<Rightarrow> nat \<Rightarrow> 'z mstate_scheme \<Rightarrow> usize" where
  "pte v i s = l0 (cur_space s) v i"

definition set_pte :: "nat \<Rightarrow> nat \<Rightarrow> usize \<Rightarrow> 'z mstate_scheme \<Rightarrow> 'z mstate_scheme" where
  "set_pte v i e = upd_space (\<lambda>sp. sp\<lparr>l0 := (l0 sp)(v := (l0 sp v)(i := e))\<rparr>)"

definition set_l1 :: "nat \<Rightarrow> usize \<Rightarrow> 'z mstate_scheme \<Rightarrow> 'z mstate_scheme" where
  "set_l1 v e = upd_space (\<lambda>sp. sp\<lparr>l1 := (l1 sp)(v := e)\<rparr>)"

definition zero_leaf :: "nat \<Rightarrow> 'z mstate_scheme \<Rightarrow> 'z mstate_scheme" where
  "zero_leaf v = upd_space (\<lambda>sp. sp\<lparr>l0 := (l0 sp)(v := (\<lambda>_. 0))\<rparr>)"

definition l1_valid :: "nat \<Rightarrow> 'z mstate_scheme \<Rightarrow> bool" where
  "l1_valid v s = has_flag (l1 (cur_space s) v) FLG_VALID"

definition translate_flags :: "MemoryFlags \<Rightarrow> usize" where
  "translate_flags req =
     (if req AND MF_R = MF_R then FLG_R else 0) OR (if req AND MF_W = MF_W then FLG_W else 0) OR
     (if req AND MF_X = MF_X then FLG_X else 0) OR (if req AND MF_P = MF_P then FLG_P else 0)"

definition untranslate_flags :: "usize \<Rightarrow> MemoryFlags" where
  "untranslate_flags e =
     (let req = e AND 0x3ff in
     (if req AND FLG_R = FLG_R then MF_R else 0) OR (if req AND FLG_W = FLG_W then MF_W else 0) OR
     (if req AND FLG_X = FLG_X then MF_X else 0) OR (if req AND FLG_P = FLG_P then MF_P else 0))"

section \<open>Mapping\<close>

text \<open>
  \<open>map_page_inner\<close> calls itself to map a new leaf table into its window.  The
  windows lie in superpage 1021, so the inner call is for that superpage, and
  a third level only arises for the window of that table itself.  Fuel 3 is
  enough (\<open>map_page_fuel_enough\<close>); running out of fuel would be a stack
  overflow.
\<close>

primrec map_page_fuel :: "nat \<Rightarrow> PID \<Rightarrow> usize \<Rightarrow> usize \<Rightarrow> MemoryFlags \<Rightarrow> bool \<Rightarrow> ('z mstate_scheme, unit) kop" where
  "map_page_fuel 0 pid phys virt req map_user s = (Panic, s)"
| "map_page_fuel (Suc n) pid phys virt req map_user s =
     (let v = vpn1 virt; i = vpn0 virt;
          flags = translate_flags req OR (if map_user then FLG_U else 0);
          finish = (\<lambda>s. if has_flag (pte v i s) 1 then (Err MemoryInUse, s)
             else (Ok (), set_pte v i (mk_entry phys (flags OR FLG_VALID OR FLG_D OR FLG_A)) s))
      in if virt AND 0xfff \<noteq> 0 then (Panic, s)
         else if l1_valid v s then finish s
         else (case alloc_page pid s of
             (Ok l0_phys, s1) \<Rightarrow>
               (case map_page_fuel n pid l0_phys (window v) (MF_W OR MF_R) False
                       (set_l1 v (table_entry l0_phys) s1) of
                  (Ok _, s2) \<Rightarrow> finish (zero_leaf v s2)
                | (Err e, s2) \<Rightarrow> (Err e, s2)
                | (Panic, s2) \<Rightarrow> (Panic, s2))
           | (Err e, s1) \<Rightarrow> (Err e, s1)
           | (Panic, s1) \<Rightarrow> (Panic, s1)))"

definition map_page_inner :: "PID \<Rightarrow> usize \<Rightarrow> usize \<Rightarrow> MemoryFlags \<Rightarrow> bool \<Rightarrow> ('z mstate_scheme, unit) kop" where
  "map_page_inner = map_page_fuel 3"

text \<open>
  \<open>reserve_address\<close> is the same allocation of a leaf table followed by a
  different last step.  The process id it charges is the ASID of \<open>satp\<close>.
\<close>

definition reserve_address :: "usize \<Rightarrow> MemoryFlags \<Rightarrow> ('z mstate_scheme, unit) kop" where
  "reserve_address addr flags s =
     (let v = vpn1 addr; i = vpn0 addr;
          finish = (\<lambda>s. if pte v i s AND 1 = 1 then (Ok (), s) else (Ok (), set_pte v i (translate_flags flags) s))
      in if l1_valid v s then finish s
         else (case arch_current_pid s of
             None \<Rightarrow> (Panic, s)
           | Some pid \<Rightarrow> (case alloc_page pid s of
               (Ok l0_phys, s1) \<Rightarrow>
                 (case map_page_inner pid l0_phys (window v) (MF_W OR MF_R) False
                         (set_l1 v (table_entry l0_phys) s1) of
                    (Ok _, s2) \<Rightarrow> finish (zero_leaf v s2)
                  | (Err e, s2) \<Rightarrow> (Err e, s2)
                  | (Panic, s2) \<Rightarrow> (Panic, s2))
             | (Err e, s1) \<Rightarrow> (Err e, s1)
             | (Panic, s1) \<Rightarrow> (Panic, s1))))"

text \<open>\<open>pagetable_entry\<close> returns the place of the entry: its leaf table and its index.\<close>

definition pagetable_entry :: "usize \<Rightarrow> 'z mstate_scheme \<Rightarrow> (nat \<times> nat) kresult" where
  "pagetable_entry addr s =
     (if addr AND 3 \<noteq> 0 then Err BadAlignment
      else if \<not> l1_valid (vpn1 addr) s then Err BadAddress
      else Ok (vpn1 addr, vpn0 addr))"

definition unmap_page_inner :: "usize \<Rightarrow> ('z mstate_scheme, usize) kop" where
  "unmap_page_inner virt s = (case pagetable_entry virt s of
     Ok (v, i) \<Rightarrow> (Ok (entry_phys (pte v i s)), set_pte v i 0 s)
   | Err e \<Rightarrow> (Err e, s)
   | Panic \<Rightarrow> (Panic, s))"

definition hand_page_to_user :: "usize \<Rightarrow> ('z mstate_scheme, unit) kop" where
  "hand_page_to_user virt s =
     (let v = vpn1 virt; i = vpn0 virt
      in if \<not> l1_valid v s then (Err BadAddress, s)
         else if pte v i s AND 1 = 0 then (Err BadAddress, s)
         else (Ok (), set_pte v i (pte v i s OR FLG_U) s))"

definition virt_to_phys :: "usize \<Rightarrow> 'z mstate_scheme \<Rightarrow> usize kresult" where
  "virt_to_phys virt s =
     (let e = pte (vpn1 virt) (vpn0 virt) s
      in if \<not> l1_valid (vpn1 virt) s then Err BadAddress
         else if has_flag e FLG_S then Err ShareViolation
         else if \<not> has_flag e FLG_VALID then (if e \<noteq> 0 then Err MemoryInUse else Err BadAddress)
         else Ok (entry_phys e))"

definition address_available :: "usize \<Rightarrow> 'z mstate_scheme \<Rightarrow> bool" where
  "address_available virt s = (case virt_to_phys virt s of Err e \<Rightarrow> e = BadAddress | _ \<Rightarrow> False)"

definition page_is_lent :: "usize \<Rightarrow> 'z mstate_scheme \<Rightarrow> bool" where
  "page_is_lent addr s = (case pagetable_entry addr s of
     Ok (v, i) \<Rightarrow> has_flag (pte v i s) FLG_S | _ \<Rightarrow> False)"

definition page_flags :: "usize \<Rightarrow> 'z mstate_scheme \<Rightarrow> MemoryFlags option" where
  "page_flags virt s =
     (let e = pte (vpn1 virt) (vpn0 virt) s;
          fl = (if has_flag e FLG_R then MF_R else 0) OR (if has_flag e FLG_W then MF_W else 0) OR
               (if has_flag e FLG_X then MF_X else 0)
      in if \<not> l1_valid (vpn1 virt) s then None
         else if has_flag e FLG_S then None
         else if fl = 0 then None else Some fl)"

text \<open>One of the three blocks of \<open>update_page_flags\<close>: strip a permission, or refuse to add it.\<close>

definition strip_flag :: "MemoryFlags \<Rightarrow> MemoryFlags \<Rightarrow> usize \<Rightarrow> usize \<Rightarrow> usize kresult" where
  "strip_flag flags mf fl e =
     (if flags AND mf = 0 then Ok (if has_flag e fl then e AND NOT fl else e)
      else if \<not> has_flag e fl then Err ShareViolation else Ok e)"

definition update_page_flags :: "usize \<Rightarrow> MemoryFlags \<Rightarrow> ('z mstate_scheme, unit) kop" where
  "update_page_flags virt flags s =
     (let v = vpn1 virt; i = vpn0 virt; e = pte v i s
      in if flags AND (MF_R OR MF_W OR MF_X) = 0 then (Err MemoryInUse, s)
         else if \<not> l1_valid v s then (Err OutOfMemory, s)
         else if has_flag e FLG_S then (Err ShareViolation, s)
         else (case map_outcome2 (strip_flag flags MF_W FLG_W)
                      (map_outcome2 (strip_flag flags MF_R FLG_R) (strip_flag flags MF_X FLG_X e)) of
             Ok e' \<Rightarrow> (Ok (), set_pte v i e' s)
           | Err er \<Rightarrow> (Err er, s)
           | Panic \<Rightarrow> (Panic, s)))"

text \<open>
  The kernel writes to a page through its own mapping.  The contents of pages
  are not modelled, but the write is an access check of the hardware: a store
  in supervisor mode needs a valid entry that is readable and writable and not
  a user page (\<open>sstatus.SUM\<close> is clear).  A store that faults is \<open>Panic\<close>:
  \<open>trap_handler\<close> panics on a store page fault taken in supervisor mode.
\<close>

definition kernel_store_ok :: "usize \<Rightarrow> bool" where
  "kernel_store_ok e = (has_flag e FLG_VALID \<and> has_flag e FLG_R \<and> has_flag e FLG_W \<and> \<not> has_flag e FLG_U)"

definition zeropage :: "usize \<Rightarrow> ('z mstate_scheme, unit) kop" where
  "zeropage virt s =
     (if l1_valid (vpn1 virt) s \<and> kernel_store_ok (pte (vpn1 virt) (vpn0 virt) s) then (Ok (), s) else (Panic, s))"

text \<open>\<open>bzero\<close> of kernel/src/mem.rs, page by page.\<close>

definition bzero :: "usize \<Rightarrow> usize \<Rightarrow> ('z mstate_scheme, unit) kop" where
  "bzero start end_addr = for_each (step_by_page start end_addr) zeropage"

definition ensure_page_exists_inner :: "usize \<Rightarrow> ('z mstate_scheme, usize) kop" where
  "ensure_page_exists_inner address s =
     (let virt = address AND NOT 0xfff
      in if \<not> mapping_is_kernel (satp s) \<and> address \<ge> USER_AREA_END then (Err OutOfMemory, s)
         else (case pagetable_entry virt s of
             Ok (v, i) \<Rightarrow>
               (let flags = pte v i s AND 0x3ff
                in if has_flag flags FLG_VALID then (Ok address, s)
                   else if flags = 0 \<or> has_flag flags FLG_S then (Err BadAddress, s)
                   else (case alloc_page (table_current s) s of
                       (Ok new_page, s1) \<Rightarrow>
                         (case zeropage virt (set_pte v i (mk_entry new_page (flags OR FLG_VALID OR FLG_D OR FLG_A)) s1) of
                            (Ok _, s2) \<Rightarrow>
                              (Ok new_page, set_pte v i
                                 (mk_entry new_page (flags OR FLG_VALID OR FLG_U OR FLG_D OR FLG_A)) s2)
                          | (_, s2) \<Rightarrow> (Panic, s2))
                     | (_, s1) \<Rightarrow> (Panic, s1)))
           | Err e \<Rightarrow> (Err BadAddress, s)
           | Panic \<Rightarrow> (Panic, s)))"

section \<open>Pages that cross address spaces\<close>

definition move_page_inner :: "usize \<Rightarrow> usize \<Rightarrow> PID \<Rightarrow> usize \<Rightarrow> usize \<Rightarrow> ('z mstate_scheme, unit) kop" where
  "move_page_inner src_space src_addr dest_pid dest_space dest_addr s =
     (case pagetable_entry src_addr s of
        Ok (v, i) \<Rightarrow>
          (let e = pte v i s
           in if \<not> has_flag e FLG_VALID then (Err BadAddress, s)
              else (case map_page_inner dest_pid (entry_phys e) dest_addr (untranslate_flags e) (dest_pid \<noteq> 1)
                          (activate_mapping dest_space (set_pte v i 0 s)) of
                  (r, s1) \<Rightarrow> (r, activate_mapping src_space s1)))
      | Err er \<Rightarrow> (Err er, s)
      | Panic \<Rightarrow> (Panic, s))"

definition lend_page_inner :: "usize \<Rightarrow> usize \<Rightarrow> PID \<Rightarrow> usize \<Rightarrow> usize \<Rightarrow> bool \<Rightarrow> ('z mstate_scheme, usize) kop" where
  "lend_page_inner src_space src_addr dest_pid dest_space dest_addr mutable s =
     (case pagetable_entry src_addr s of
        Ok (v, i) \<Rightarrow>
          (let e = pte v i s; phys = entry_phys e
           in if \<not> has_flag e FLG_VALID then (Err ShareViolation, s)
              else if has_flag e FLG_S then (Err ShareViolation, s)
              else (let new_entry = (e AND NOT FLG_VALID) OR FLG_S;
                        new_flags = (if mutable \<and> has_flag new_entry FLG_W then MF_R OR MF_W else MF_R)
                    in (case map_page_inner dest_pid phys dest_addr new_flags (dest_pid \<noteq> 1)
                              (activate_mapping dest_space (set_pte v i new_entry s)) of
                          (Ok _, s1) \<Rightarrow> (Ok phys, activate_mapping src_space s1)
                        | (Err er, s1) \<Rightarrow> (Err er, activate_mapping src_space s1)
                        | (Panic, s1) \<Rightarrow> (Panic, s1))))
      | Err er \<Rightarrow> (Err er, s)
      | Panic \<Rightarrow> (Panic, s))"

definition return_page_inner :: "usize \<Rightarrow> usize \<Rightarrow> PID \<Rightarrow> usize \<Rightarrow> usize \<Rightarrow> ('z mstate_scheme, usize) kop" where
  "return_page_inner src_space src_addr dest_pid dest_space dest_addr s =
     (case pagetable_entry src_addr s of
        Ok (v, i) \<Rightarrow>
          (let e = pte v i s
           in if \<not> has_flag e FLG_VALID then (Err ShareViolation, s)
              else (let s1 = activate_mapping dest_space (set_pte v i 0 s)
                    in (case pagetable_entry dest_addr s1 of
                          Ok (w, j) \<Rightarrow>
                            (let d = pte w j s1
                             in if \<not> has_flag d FLG_S then (Panic, s1)
                                else (Ok (entry_phys e),
                                  activate_mapping src_space
                                    (set_pte w j (d AND NOT (FLG_S OR FLG_P) OR FLG_VALID) s1)))
                        | _ \<Rightarrow> (Panic, s1))))
      | Err er \<Rightarrow> (Err er, s)
      | Panic \<Rightarrow> (Panic, s))"

section \<open>Bits of addresses and entries\<close>

lemma mask_numerals: "(0x3ff::usize) = mask 10" "(0xfff::usize) = mask 12"
  by (simp_all add: mask_eq_exp_minus_1)

lemma unat_drop_mask: "unat (drop_bit n (a::usize) AND mask m) = (unat a div 2 ^ n) mod 2 ^ m"
proof -
  have "unat (drop_bit n a AND mask m) = take_bit m (drop_bit n (take_bit 32 (unat a)))"
    by (simp only: take_bit_eq_mask [symmetric] unsigned_take_bit_eq unsigned_drop_bit_eq) simp
  moreover have "take_bit 32 (unat a) = unat a" using unsigned_less [of a, where 'a = nat] by (simp add: take_bit_nat_eq_self)
  ultimately show ?thesis by (simp only: drop_bit_eq_div take_bit_eq_mod)
qed

lemma vpn_unat: "vpn1 a = (unat a div 2 ^ 22) mod 1024" "vpn0 a = (unat a div 2 ^ 12) mod 1024"
  unfolding vpn1_def vpn0_def mask_numerals unat_drop_mask by simp_all

lemma vpn_bound [simp]: "vpn1 a < 1024" "vpn0 a < 1024"
  by (simp_all add: vpn_unat)

lemma unat_window: "v < 1024 \<Longrightarrow> unat (window v) = 0xff400000 + v * 4096"
proof -
  assume "v < 1024"
  then have "unat (of_nat v * (4096::usize)) = v * 4096"
    using unat_mult_lem [of "of_nat v :: usize" 4096] by (simp add: unsigned_of_nat take_bit_nat_eq_self)
  then show ?thesis using \<open>v < 1024\<close> unat_add_lem [of "0xff400000 :: usize" "of_nat v * 4096"]
    by (simp add: window_def PAGE_TABLE_OFFSET_def PAGE_SIZE_def)
qed

lemma window_vpn [simp]: "v < 1024 \<Longrightarrow> vpn1 (window v) = 1021" "v < 1024 \<Longrightarrow> vpn0 (window v) = v"
proof -
  assume v: "v < 1024"
  have "(0xff400000 + v * 4096) div 2 ^ 22 = (1021::nat)"
    by (rule div_nat_eqI) (use v in simp_all)
  moreover have "(0xff400000 + v * 4096) div 2 ^ 12 = 1045504 + (v::nat)"
    by (rule div_nat_eqI) simp_all
  moreover have "(1045504 + v) mod 1024 = v" using v by (simp add: mod_add_eq [of 1045504, symmetric])
  ultimately show "vpn1 (window v) = 1021" "vpn0 (window v) = v"
    by (simp_all add: vpn_unat unat_window [OF v])
qed

lemma window_aligned [simp]: "window v AND 0xfff = 0"
proof -
  have "(of_nat v :: usize) * 4096 = push_bit 12 (of_nat v)" by (simp add: push_bit_eq_mult)
  moreover have "(0xff400000 :: usize) = push_bit 12 0xff400" by simp
  ultimately have "window v = push_bit 12 (0xff400 + of_nat v)"
    unfolding window_def PAGE_TABLE_OFFSET_def PAGE_SIZE_def by (simp only: push_bit_add)
  moreover have "take_bit 12 (push_bit 12 x) = 0" for x :: usize
    by (rule bit_word_eqI) (auto simp: bit_simps)
  ultimately show ?thesis unfolding mask_numerals by (simp only: take_bit_eq_mask [symmetric])
qed

lemma page_aligned_bit: "page_aligned a \<longleftrightarrow> (\<forall>n<12. \<not> bit a n)"
proof -
  have "page_aligned a \<longleftrightarrow> take_bit 12 a = 0" unfolding page_aligned_def mask_numerals by (simp flip: take_bit_eq_mask)
  then show ?thesis by (auto simp: bit_eq_iff bit_simps)
qed

lemma low_bits_iff: "(x::usize) < 1024 \<longleftrightarrow> (\<forall>n\<ge>10. \<not> bit x n)"
proof
  assume "x < 1024"
  then have "x = take_bit 10 x" using less_mask_eq [of x 10] by (simp add: take_bit_eq_mask)
  then show "\<forall>n\<ge>10. \<not> bit x n" using bit_take_bit_iff [of 10 x] by (metis leD)
next
  assume "\<forall>n\<ge>10. \<not> bit x n"
  then have "x = take_bit 10 x" by (intro bit_word_eqI) (metis bit_take_bit_iff not_less)
  then have "unat x = take_bit 10 (unat x)" by (metis unsigned_take_bit_eq)
  then have "unat x < 2 ^ 10" by (metis take_bit_nat_less_exp)
  then show "x < 1024" by (simp add: word_less_nat_alt)
qed

lemma flag_powers:
  "FLG_VALID = 2 ^ 0" "FLG_R = 2 ^ 1" "FLG_W = 2 ^ 2" "FLG_X = 2 ^ 3" "FLG_U = 2 ^ 4" "FLG_A = 2 ^ 6"
  "FLG_D = 2 ^ 7" "FLG_S = 2 ^ 8" "FLG_P = 2 ^ 9"
  by (simp_all add: mmu_flag_defs)

lemma has_flag_power: "has_flag e (2 ^ n) = bit e n"
  using bit_iff_and_push_bit_not_eq_0 [of e n] by (simp add: has_flag_def push_bit_eq_mult)

lemma has_flag_bit [simp]:
  "has_flag e FLG_VALID = bit e 0" "has_flag e FLG_R = bit e 1" "has_flag e FLG_W = bit e 2"
  "has_flag e FLG_X = bit e 3" "has_flag e FLG_U = bit e 4" "has_flag e FLG_A = bit e 6"
  "has_flag e FLG_D = bit e 7" "has_flag e FLG_S = bit e 8" "has_flag e FLG_P = bit e 9" "has_flag e 1 = bit e 0"
  unfolding flag_powers has_flag_power using has_flag_power [of e 0] by simp_all

lemma bit_flag [simp]:
  "bit FLG_VALID n = (n = 0)" "bit FLG_R n = (n = 1)" "bit FLG_W n = (n = 2)" "bit FLG_X n = (n = 3)"
  "bit FLG_U n = (n = 4)" "bit FLG_A n = (n = 6)" "bit FLG_D n = (n = 7)" "bit FLG_S n = (n = 8)"
  "bit FLG_P n = (n = 9)"
  unfolding flag_powers bit_exp_iff by auto

lemma and_one_bit [simp]: "(e AND 1 = (1::usize)) = bit e 0" "(e AND 1 = (0::usize)) = (\<not> bit e 0)"
  by (simp_all add: bit_0 odd_iff_mod_2_eq_one even_iff_mod_2_eq_zero and_one_eq)

lemma entry_phys_bit: "bit (entry_phys e) n \<longleftrightarrow> n \<ge> 12 \<and> n < 32 \<and> bit e (n - 2)"
  by (auto simp: entry_phys_def bit_simps)

lemma mk_entry_bit:
  assumes "fl < 1024"
  shows "bit (mk_entry phys fl) n \<longleftrightarrow> (if n < 10 then bit fl n else n < 30 \<and> bit phys (n + 2))"
proof -
  have "n \<ge> 20 \<Longrightarrow> 22 + (n - 20) = n + 2" "n \<ge> 10 \<Longrightarrow> 12 + (n - 10) = n + 2" "bit phys (n + 2) \<Longrightarrow> n < 30"
    using bit_imp_le_length [of phys "n + 2"] by auto
  then show ?thesis using assms unfolding mk_entry_def mask_numerals low_bits_iff
    by (cases "n < 20") (auto simp: bit_simps)
qed

lemma entry_phys_mk [simp]:
  assumes "page_aligned phys" "fl < 1024"
  shows "entry_phys (mk_entry phys fl) = phys"
proof (rule bit_word_eqI)
  fix n assume "n < LENGTH(32)"
  moreover have "n \<ge> 12 \<Longrightarrow> n - 2 + 2 = n \<and> \<not> n - 2 < 10" by auto
  ultimately show "bit (entry_phys (mk_entry phys fl)) n = bit phys n"
    using assms(1) unfolding page_aligned_bit entry_phys_bit mk_entry_bit [OF assms(2)]
    by (cases "n \<ge> 12") (auto simp: not_le)
qed

lemma entry_phys_aligned [simp]: "page_aligned (entry_phys e)"
  by (simp add: page_aligned_bit entry_phys_bit)

lemma entry_phys_cong: "(\<And>n. n \<ge> 10 \<Longrightarrow> bit e n = bit e' n) \<Longrightarrow> entry_phys e = entry_phys e'"
  by (rule bit_word_eqI) (auto simp: entry_phys_bit)

text \<open>Flag words built from the flags of this file stay below bit 10.\<close>

definition map_flags :: "MemoryFlags \<Rightarrow> bool \<Rightarrow> usize" where
  "map_flags req map_user =
     (translate_flags req OR (if map_user then FLG_U else 0)) OR FLG_VALID OR FLG_D OR FLG_A"

lemma and_power_eq: "k < 32 \<Longrightarrow> ((e::usize) AND 2 ^ k = 2 ^ k) = bit e k"
proof
  assume "bit e k"
  then show "e AND 2 ^ k = 2 ^ k" by (intro bit_word_eqI) (auto simp: bit_simps)
next
  assume k: "k < 32" and "e AND 2 ^ k = 2 ^ k"
  then have "bit (e AND 2 ^ k) k" by (simp add: bit_simps)
  then show "bit e k" by (simp add: bit_simps)
qed

lemma memory_flag_powers: "MF_R = 2 ^ 1" "MF_W = 2 ^ 2" "MF_X = 2 ^ 3" "MF_P = 2 ^ 9"
  by (simp_all add: MF_R_def MF_W_def MF_X_def MF_P_def)

lemma flag_test [simp]:
  "(e AND MF_R = MF_R) = bit e 1" "(e AND MF_W = MF_W) = bit e 2" "(e AND MF_X = MF_X) = bit e 3"
  "(e AND MF_P = MF_P) = bit e 9"
  "(e AND FLG_R = FLG_R) = bit e 1" "(e AND FLG_W = FLG_W) = bit e 2" "(e AND FLG_X = FLG_X) = bit e 3"
  "(e AND FLG_P = FLG_P) = bit e 9"
  "(e AND MF_R = 0) = (\<not> bit e 1)" "(e AND MF_W = 0) = (\<not> bit e 2)" "(e AND MF_X = 0) = (\<not> bit e 3)"
  unfolding memory_flag_powers flag_powers using has_flag_power [unfolded has_flag_def]
  by (auto simp only: and_power_eq)

lemma bit_memory_flag [simp]:
  "bit MF_R n = (n = 1)" "bit MF_W n = (n = 2)" "bit MF_X n = (n = 3)" "bit MF_P n = (n = 9)"
  unfolding memory_flag_powers bit_exp_iff by auto

lemma translate_flags_bit: "bit (translate_flags req) n \<longleftrightarrow>
   n = 1 \<and> bit req 1 \<or> n = 2 \<and> bit req 2 \<or> n = 3 \<and> bit req 3 \<or> n = 9 \<and> bit req 9"
  by (auto simp: translate_flags_def bit_simps)

lemma untranslate_flags_bit: "bit (untranslate_flags e) n \<longleftrightarrow>
   n = 1 \<and> bit e 1 \<or> n = 2 \<and> bit e 2 \<or> n = 3 \<and> bit e 3 \<or> n = 9 \<and> bit e 9"
proof -
  have "bit (e AND 0x3ff) k = bit e k" if "k < 10" for k
    using that unfolding mask_numerals by (auto simp: bit_simps)
  then show ?thesis by (auto simp: untranslate_flags_def Let_def bit_simps)
qed

lemma translate_flags_low [simp]: "translate_flags req < 1024"
  by (auto simp: low_bits_iff translate_flags_bit)

lemma map_flags_bit: "bit (map_flags req u) n \<longleftrightarrow>
   bit (translate_flags req) n \<or> u \<and> n = 4 \<or> n = 0 \<or> n = 7 \<or> n = 6"
  by (auto simp: map_flags_def bit_simps)

lemma map_flags_low [simp]: "map_flags req u < 1024"
  by (auto simp: low_bits_iff map_flags_bit translate_flags_bit)

section \<open>Windows\<close>

text \<open>
  The invariant of an address space: superpages 1021 (the windows) and 1023
  (the kernel) have leaf tables, and the leaf table of every superpage below
  1023 is visible through its window exactly when the root table names it.
  The window of superpage 1023 is mapped for the kernel process only.
\<close>

definition window_inv :: "space \<Rightarrow> bool" where
  "window_inv sp \<longleftrightarrow> bit (l1 sp 1021) 0 \<and> bit (l1 sp 1023) 0 \<and>
     (\<forall>v<1023. bit (l1 sp v) 0 = bit (l0 sp 1021 v) 0) \<and>
     (\<forall>v<1023. bit (l1 sp v) 0 \<longrightarrow> entry_phys (l0 sp 1021 v) = entry_phys (l1 sp v))"

lemma pte_set_pte [simp]:
  "pte v i (set_pte w j e s) = (if v = w \<and> i = j then e else pte v i s)"
  "pte v i (set_l1 w e s) = pte v i s"
  "pte v i (zero_leaf w s) = (if v = w then 0 else pte v i s)"
  by (simp_all add: pte_def set_pte_def set_l1_def zero_leaf_def spaces_upd_space)

lemma l1_valid_upd [simp]:
  "l1_valid v (set_pte w j e s) = l1_valid v s"
  "l1_valid v (set_l1 w e s) = (if v = w then bit e 0 else l1_valid v s)"
  "l1_valid v (zero_leaf w s) = l1_valid v s"
  by (simp_all add: l1_valid_def set_pte_def set_l1_def zero_leaf_def spaces_upd_space)

lemma satp_upd [simp]:
  "satp (set_pte w j e s) = satp s" "satp (set_l1 w e s) = satp s" "satp (zero_leaf w s) = satp s"
  by (simp_all add: set_pte_def set_l1_def zero_leaf_def)

lemma table_entry_bit: "page_aligned p \<Longrightarrow> entry_phys (table_entry p) = p" "bit (table_entry p) 0"
proof -
  show "bit (table_entry p) 0" by (simp add: table_entry_def bit_simps)
  assume "page_aligned p"
  then have low: "\<forall>n<12. \<not> bit p n" by (simp add: page_aligned_bit)
  show "entry_phys (table_entry p) = p"
  proof (rule bit_word_eqI)
    fix n assume n: "n < LENGTH(32)"
    show "bit (entry_phys (table_entry p)) n = bit p n"
    proof (cases "n < 12")
      case False
      then obtain k where "n = 12 + k" using le_Suc_ex [of 12 n] by auto
      then show ?thesis using n by (auto simp: entry_phys_bit table_entry_def bit_simps)
    qed (use low in \<open>simp add: entry_phys_bit\<close>)
  qed
qed

text \<open>\<open>local_change s s'\<close>: outside the active space and the tables of the page allocator nothing changed.\<close>

definition local_change :: "'z mstate_scheme \<Rightarrow> 'z mstate_scheme \<Rightarrow> bool" where
  "local_change s s' \<longleftrightarrow> satp s' = satp s \<and> (\<forall>sp. sp \<noteq> satp s \<longrightarrow> spaces s' sp = spaces s sp) \<and>
     ram_start s' = ram_start s \<and> ram_size s' = ram_size s \<and> extra_regions s' = extra_regions s \<and>
     table_current s' = table_current s \<and> proc_table s' = proc_table s \<and> mstate.more s' = mstate.more s \<and>
     hardware_thread (cur_space s') = hardware_thread (cur_space s) \<and> inner (cur_space s') = inner (cur_space s) \<and>
     last_tid_allocated (cur_space s') = last_tid_allocated (cur_space s) \<and>
     threads (cur_space s') = threads (cur_space s)"

lemma local_change_refl [simp, intro]: "local_change s s"
  by (simp add: local_change_def)

lemma local_change_trans [trans]: "local_change s t \<Longrightarrow> local_change t u \<Longrightarrow> local_change s u"
  unfolding local_change_def by auto

lemma local_change_upd [simp]:
  "local_change s (set_pte v i e s)" "local_change s (set_l1 v e s)" "local_change s (zero_leaf v s)"
  by (simp_all add: local_change_def set_pte_def set_l1_def zero_leaf_def spaces_upd_space)

lemma alloc_page_local: "alloc_page pid s = (r, s') \<Longrightarrow> local_change s s' \<and> spaces s' = spaces s \<and> extra_allocs s' = extra_allocs s"
  by (auto simp: alloc_page_def Let_def local_change_def split: if_splits option.splits)

lemma map_page_fuel_local: "map_page_fuel n pid phys virt req u s = (r, s') \<Longrightarrow> local_change s s'"
proof (induction n arbitrary: phys virt req u s r s')
  case (Suc n)
  have fin: "local_change s t" if "local_change s t0" "t = t0 \<or> (\<exists>v i e. t = set_pte v i e t0)" for t t0 :: "'a mstate_scheme"
    using that local_change_trans local_change_upd(1) by metis
  show ?case
  proof (cases "virt AND 0xfff \<noteq> 0 \<or> l1_valid (vpn1 virt) s")
    case True
    then show ?thesis using Suc.prems by (auto simp: Let_def split: if_splits)
  next
    case False
    obtain ra sa where a: "alloc_page pid s = (ra, sa)" by fastforce
    note la = alloc_page_local [OF a, THEN conjunct1]
    show ?thesis
    proof (cases ra)
      case (Ok p)
      let ?t = "set_l1 (vpn1 virt) (table_entry p) sa"
      obtain rb sb where b: "map_page_fuel n pid p (window (vpn1 virt)) (MF_W OR MF_R) False ?t = (rb, sb)" by fastforce
      have "local_change s sb" "local_change s (zero_leaf (vpn1 virt) sb)"
        using la Suc.IH [OF b] local_change_trans local_change_upd by metis+
      then show ?thesis using Suc.prems False a Ok b
        by (cases rb) (auto simp: Let_def intro: fin split: if_splits)
    qed (use Suc.prems False a la in \<open>auto simp: Let_def\<close>)
  qed
qed simp

lemmas map_page_inner_local = map_page_fuel_local [of 3, folded map_page_inner_def]

section \<open>Recursion depth\<close>

lemma map_page_fuel_valid:
  "l1_valid (vpn1 virt) s \<Longrightarrow> map_page_fuel (Suc n) pid phys virt req u s = map_page_fuel (Suc m) pid phys virt req u s"
  by (simp add: Let_def)

lemma map_page_fuel_step:
  fixes s :: "'z mstate_scheme"
  assumes "\<And>p (s1 :: 'z mstate_scheme). map_page_fuel n pid p (window (vpn1 virt)) (MF_W OR MF_R) False (set_l1 (vpn1 virt) (table_entry p) s1) =
    map_page_fuel m pid p (window (vpn1 virt)) (MF_W OR MF_R) False (set_l1 (vpn1 virt) (table_entry p) s1)"
  shows "map_page_fuel (Suc n) pid phys virt req u s = map_page_fuel (Suc m) pid phys virt req u s"
  by (cases "alloc_page pid s"; cases "fst (alloc_page pid s)") (simp_all add: Let_def assms)

lemma map_page_fuel_windows:
  assumes "vpn1 virt = 1021"
  shows "map_page_fuel (Suc (Suc n)) pid phys virt req u s = map_page_fuel (Suc (Suc m)) pid phys virt req u s"
  by (rule map_page_fuel_step, rule map_page_fuel_valid) (simp add: assms table_entry_bit)

lemma map_page_fuel_enough: "map_page_fuel (n + 3) = map_page_fuel 3"
proof (intro ext)
  fix pid phys virt req u and s :: "'a mstate_scheme"
  have "map_page_fuel (Suc (Suc (Suc n))) pid phys virt req u s = map_page_fuel (Suc (Suc (Suc 0))) pid phys virt req u s"
    by (rule map_page_fuel_step, rule map_page_fuel_windows) simp
  then show "map_page_fuel (n + 3) pid phys virt req u s = map_page_fuel 3 pid phys virt req u s"
    by (simp only: numeral_3_eq_3 add_Suc_right add_0_right)
qed

section \<open>The leaf view of an address space\<close>

text \<open>
  What an address space means: the leaf entry of each page, zero where there
  is no leaf table.
\<close>

definition leaf :: "space \<Rightarrow> nat \<Rightarrow> nat \<Rightarrow> usize" where
  "leaf sp v i = (if bit (l1 sp v) 0 then l0 sp v i else 0)"

abbreviation leaf_at :: "space \<Rightarrow> usize \<Rightarrow> usize" where
  "leaf_at sp a \<equiv> leaf sp (vpn1 a) (vpn0 a)"

definition leaf_phys :: "usize \<Rightarrow> usize kresult" where
  "leaf_phys e = (if bit e 8 then Err ShareViolation
     else if \<not> bit e 0 then (if e \<noteq> 0 then Err MemoryInUse else Err BadAddress) else Ok (entry_phys e))"

lemma l1_valid_bit: "l1_valid v s = bit (l1 (cur_space s) v) 0"
  by (simp add: l1_valid_def)

lemma virt_to_phys_leaf: "virt_to_phys virt s = leaf_phys (leaf_at (cur_space s) virt)"
  by (simp add: virt_to_phys_def leaf_phys_def leaf_def l1_valid_bit pte_def Let_def)

lemma leaf_pte: "leaf (cur_space s) v i = (if l1_valid v s then pte v i s else 0)"
  by (simp add: leaf_def l1_valid_bit pte_def)

lemma pagetable_entry_Ok:
  "pagetable_entry a s = Ok vi \<longleftrightarrow> a AND 3 = 0 \<and> l1_valid (vpn1 a) s \<and> vi = (vpn1 a, vpn0 a)"
  by (auto simp: pagetable_entry_def)

lemma pagetable_entry_no_panic [simp]: "pagetable_entry a s \<noteq> Panic"
  by (simp add: pagetable_entry_def)

lemma spaces_set_pte: "spaces (set_pte v i e s) sp =
    (if sp = satp s then (spaces s sp)\<lparr>l0 := (l0 (spaces s sp))(v := (l0 (spaces s sp) v)(i := e))\<rparr> else spaces s sp)"
  by (simp add: set_pte_def spaces_upd_space)

lemma leaf_set_pte:
  "leaf (spaces (set_pte w j e s) (satp s)) v i =
   (if v = w \<and> i = j \<and> l1_valid v s then e else leaf (cur_space s) v i)"
  by (simp add: leaf_def set_pte_def spaces_upd_space l1_valid_bit)

lemma window_inv_set_pte:
  "\<lbrakk>window_inv (cur_space s); w \<noteq> 1021\<rbrakk> \<Longrightarrow> window_inv (spaces (set_pte w j e s) (satp s))"
  by (simp add: window_inv_def set_pte_def spaces_upd_space)

definition install_leaf :: "nat \<Rightarrow> usize \<Rightarrow> 'z mstate_scheme \<Rightarrow> 'z mstate_scheme" where
  "install_leaf v p s =
     zero_leaf v (set_pte 1021 v (mk_entry p (map_flags (MF_W OR MF_R) False)) (set_l1 v (table_entry p) s))"

lemma satp_install_leaf [simp]: "satp (install_leaf v p s) = satp s"
  by (simp add: install_leaf_def)

lemma install_leaf_facts:
  assumes "window_inv (cur_space s)" "\<not> l1_valid w s" "page_aligned p"
  shows "window_inv (spaces (install_leaf w p s) (satp s))" "l1_valid w (install_leaf w p s)" "w \<noteq> 1021"
    and "v \<noteq> 1021 \<Longrightarrow> leaf (spaces (install_leaf w p s) (satp s)) v i = leaf (cur_space s) v i"
    and "local_change s (install_leaf w p s)"
    and "l1 (spaces (install_leaf w p s) (satp s)) = (l1 (cur_space s))(w := table_entry p)"
    and "leaf (spaces (install_leaf w p s) (satp s)) 1021 i =
       (if i = w then mk_entry p (map_flags (MF_W OR MF_R) False) else leaf (cur_space s) 1021 i)"
proof -
  show w: "w \<noteq> 1021" using assms by (auto simp: window_inv_def l1_valid_bit)
  have b: "bit (mk_entry p (map_flags (MF_W OR MF_R) False)) 0" by (simp add: mk_entry_bit map_flags_bit)
  show "l1_valid w (install_leaf w p s)" by (simp add: install_leaf_def table_entry_bit)
  show "local_change s (install_leaf w p s)"
    unfolding install_leaf_def by (meson local_change_trans local_change_upd)
  show "window_inv (spaces (install_leaf w p s) (satp s))"
    using assms w b by (auto simp: window_inv_def install_leaf_def set_pte_def set_l1_def zero_leaf_def
        spaces_upd_space l1_valid_bit table_entry_bit)
  show "l1 (spaces (install_leaf w p s) (satp s)) = (l1 (cur_space s))(w := table_entry p)"
    by (simp add: install_leaf_def set_pte_def set_l1_def zero_leaf_def spaces_upd_space)
  show "leaf (spaces (install_leaf w p s) (satp s)) 1021 i =
       (if i = w then mk_entry p (map_flags (MF_W OR MF_R) False) else leaf (cur_space s) 1021 i)"
    using assms(1) w by (auto simp: window_inv_def leaf_def install_leaf_def set_pte_def set_l1_def zero_leaf_def spaces_upd_space)
  assume "v \<noteq> 1021"
  then show "leaf (spaces (install_leaf w p s) (satp s)) v i = leaf (cur_space s) v i"
    using assms w by (auto simp: leaf_def install_leaf_def set_pte_def set_l1_def zero_leaf_def
        spaces_upd_space l1_valid_bit table_entry_bit)
qed

lemma map_page_inner_eq:
  assumes inv: "window_inv (cur_space s)" and al: "virt AND 0xfff = 0" and v: "vpn1 virt \<noteq> 1021"
  shows "map_page_inner pid phys virt req u s =
    (if l1_valid (vpn1 virt) s then
       (if bit (pte (vpn1 virt) (vpn0 virt) s) 0 then (Err MemoryInUse, s)
        else (Ok (), set_pte (vpn1 virt) (vpn0 virt) (mk_entry phys (map_flags req u)) s))
     else (case alloc_page pid s of
         (Ok p, s1) \<Rightarrow> (Ok (), set_pte (vpn1 virt) (vpn0 virt) (mk_entry phys (map_flags req u)) (install_leaf (vpn1 virt) p s1))
       | (Err e, s1) \<Rightarrow> (Err e, s1)
       | (Panic, s1) \<Rightarrow> (Panic, s1)))"
proof (cases "l1_valid (vpn1 virt) s")
  case True
  then show ?thesis using al by (simp add: map_page_inner_def numeral_3_eq_3 Let_def map_flags_def)
next
  case False
  have "vpn1 virt \<noteq> 1023" using inv False by (auto simp: window_inv_def l1_valid_bit)
  with v vpn_bound(1) [of virt] have v23: "vpn1 virt < 1023" by linarith
  then have w: "\<not> bit (pte 1021 (vpn1 virt) s) 0" using inv False by (simp add: window_inv_def l1_valid_bit pte_def)
  obtain r s1 where a: "alloc_page pid s = (r, s1)" by fastforce
  then have sp: "spaces s1 = spaces s" "satp s1 = satp s"
    using alloc_page_local by (auto simp: local_change_def)
  then have w1: "\<not> bit (pte 1021 (vpn1 virt) s1) 0" "l1_valid 1021 s1"
    using w inv by (simp_all add: pte_def l1_valid_bit window_inv_def)
  have inner: "map_page_fuel 2 pid p (window (vpn1 virt)) (MF_W OR MF_R) False (set_l1 (vpn1 virt) (table_entry p) s1) =
     (Ok (), set_pte 1021 (vpn1 virt) (mk_entry p (map_flags (MF_W OR MF_R) False)) (set_l1 (vpn1 virt) (table_entry p) s1))" for p
    using w1 v by (simp add: numeral_2_eq_2 Let_def map_flags_def)
  have unf: "map_page_inner pid phys virt req u s = map_page_fuel (Suc 2) pid phys virt req u s"
    by (simp only: map_page_inner_def numeral_3_eq_3 numeral_2_eq_2)
  show ?thesis unfolding unf map_page_fuel.simps(2) using False a al
    by (cases r) (simp_all add: inner Let_def install_leaf_def map_flags_def del: map_page_fuel.simps)
qed

lemma owner_cong:
  "\<lbrakk>mem_allocs s' = mem_allocs s; extra_allocs s' = extra_allocs s; ram_start s' = ram_start s; ram_size s' = ram_size s;
    extra_regions s' = extra_regions s; last_ram_page s' = last_ram_page s\<rbrakk> \<Longrightarrow>
   owner b s' = owner b s \<and> tables_inv s' = tables_inv s"
  by (simp add: owner_def tables_inv_def page_slot_frame [of s' s] split: option.split page_slot.split)

lemma tables_upd_space [simp]: "owner b (upd_space f s) = owner b s" "tables_inv (upd_space f s) = tables_inv s"
  using owner_cong [of "upd_space f s" s] by simp_all

lemma tables_upd [simp]:
  "owner b (set_pte v i e s) = owner b s" "tables_inv (set_pte v i e s) = tables_inv s"
  "owner b (install_leaf v p s) = owner b s" "tables_inv (install_leaf v p s) = tables_inv s"
  "owner b (activate_mapping sp s) = owner b s" "tables_inv (activate_mapping sp s) = tables_inv s"
  using owner_cong [of "activate_mapping sp s" s]
  by (simp_all add: install_leaf_def set_pte_def set_l1_def zero_leaf_def)

lemma alloc_page_Ok_aligned: "\<lbrakk>tables_inv s; alloc_page pid s = (Ok p, s1)\<rbrakk> \<Longrightarrow> page_aligned p"
  using alloc_page_spec [of s pid] by simp

definition new_pages_only :: "PID \<Rightarrow> 'z mstate_scheme \<Rightarrow> 'z mstate_scheme \<Rightarrow> bool" where
  "new_pages_only pid s s' \<longleftrightarrow>
     (\<forall>b. page_aligned b \<longrightarrow> owner b s' = owner b s \<or> owner b s = None \<and> owner b s' = Some pid)"

lemma new_pages_only_refl [simp]: "new_pages_only pid s s"
  by (simp add: new_pages_only_def)

lemma new_pages_only_upd [simp]:
  "new_pages_only pid s (set_pte v i e s') = new_pages_only pid s s'"
  "new_pages_only pid s (install_leaf v p s') = new_pages_only pid s s'"
  by (simp_all add: new_pages_only_def)

lemma alloc_page_new:
  assumes "tables_inv s" "alloc_page pid s = (r, s')"
  shows "tables_inv s'" "new_pages_only pid s s'"
proof -
  show "tables_inv s'" using alloc_page_owner(1) [OF assms(1), of 0 pid] assms(2) by (simp add: page_aligned_def)
  show "new_pages_only pid s s'"
    unfolding new_pages_only_def using alloc_page_owner(2) [OF assms(1), where p = pid] assms(2) by simp
qed

text \<open>
  What mapping address \<open>a\<close> in space \<open>sp\<close> does to the page tables themselves, the
  entry of the page apart.  If the superpage has a leaf table, nothing: the
  root table, the windows (superpage 1021) and the owners of pages stay.
  Otherwise one page that nobody owned becomes the leaf table: it belongs to
  \<open>pid\<close>, the root table names it, and it appears in its window for the kernel.
\<close>

definition leaf_table_ready :: "PID \<Rightarrow> usize \<Rightarrow> usize \<Rightarrow> 'z mstate_scheme \<Rightarrow> 'z mstate_scheme \<Rightarrow> bool" where
  "leaf_table_ready pid sp a s s' \<longleftrightarrow>
     (if bit (l1 (spaces s sp) (vpn1 a)) 0
      then l1 (spaces s' sp) = l1 (spaces s sp) \<and> (\<forall>i. leaf (spaces s' sp) 1021 i = leaf (spaces s sp) 1021 i) \<and>
        (\<forall>b. page_aligned b \<longrightarrow> owner b s' = owner b s)
      else \<exists>p. page_aligned p \<and> owner p s = None \<and> owner p s' = Some pid \<and>
        (\<forall>b. page_aligned b \<longrightarrow> b \<noteq> p \<longrightarrow> owner b s' = owner b s) \<and>
        l1 (spaces s' sp) = (l1 (spaces s sp))(vpn1 a := table_entry p) \<and>
        (\<forall>i. leaf (spaces s' sp) 1021 i =
           (if i = vpn1 a then mk_entry p (map_flags (MF_W OR MF_R) False) else leaf (spaces s sp) 1021 i)))"

lemma leaf_table_ready_cong:
  assumes "spaces t sp = spaces s sp" "\<And>b. owner b t = owner b s"
    and "l1 (spaces t' sp) = l1 (spaces s' sp)" "\<And>i. leaf (spaces t' sp) 1021 i = leaf (spaces s' sp) 1021 i" "\<And>b. owner b t' = owner b s'"
  shows "leaf_table_ready pid sp a t t' = leaf_table_ready pid sp a s s'"
  unfolding leaf_table_ready_def assms by (rule refl)

lemma leaf_table_ready_new: "leaf_table_ready pid sp a s s' \<Longrightarrow> new_pages_only pid s s'"
  by (auto simp: leaf_table_ready_def new_pages_only_def split: if_splits)

text \<open>The contract of \<open>map_page_inner\<close> over the leaf view.\<close>

lemma map_page_inner_leaf:
  assumes inv: "window_inv (cur_space s)" "tables_inv s" and al: "virt AND 0xfff = 0" "vpn1 virt \<noteq> 1021"
    and run: "map_page_inner pid phys virt req u s = (r, s')"
  shows "window_inv (cur_space s')" "tables_inv s'" "local_change s s'" "new_pages_only pid s s'"
    and "r = Ok () \<or> spaces s' = spaces s \<and>
         (r = Err MemoryInUse \<and> bit (leaf_at (cur_space s) virt) 0 \<or>
          r = Err OutOfMemory \<and> \<not> l1_valid (vpn1 virt) s)"
    and "r = Ok () \<Longrightarrow> \<not> bit (leaf_at (cur_space s) virt) 0"
    and "\<lbrakk>r = Ok (); v \<noteq> 1021\<rbrakk> \<Longrightarrow> leaf (cur_space s') v i =
         (if v = vpn1 virt \<and> i = vpn0 virt then mk_entry phys (map_flags req u) else leaf (cur_space s) v i)"
    and "r = Ok () \<Longrightarrow> l1_valid (vpn1 virt) s'"
proof -
  let ?v = "vpn1 virt" and ?i = "vpn0 virt" and ?e = "mk_entry phys (map_flags req u)"
  note run' = run [unfolded map_page_inner_eq [OF inv(1) al]]
  have lc: "local_change s s'" by (rule map_page_inner_local [OF run])
  have "window_inv (cur_space s') \<and> tables_inv s' \<and> new_pages_only pid s s' \<and>
     (r = Ok () \<or> spaces s' = spaces s \<and>
         (r = Err MemoryInUse \<and> bit (leaf_at (cur_space s) virt) 0 \<or>
          r = Err OutOfMemory \<and> \<not> l1_valid (vpn1 virt) s)) \<and>
     (r = Ok () \<longrightarrow> \<not> bit (leaf_at (cur_space s) virt) 0 \<and> l1_valid ?v s' \<and>
        (\<forall>v i. v \<noteq> 1021 \<longrightarrow> leaf (cur_space s') v i = (if v = ?v \<and> i = ?i then ?e else leaf (cur_space s) v i)))"
  proof (cases "l1_valid ?v s")
    case True
    then show ?thesis using run' inv al(2)
      by (auto simp: window_inv_set_pte leaf_set_pte leaf_pte [of s "vpn1 virt"] split: if_splits)
  next
    case False
    obtain ra sa where a: "alloc_page pid s = (ra, sa)" by fastforce
    have sp: "spaces sa = spaces s" "satp sa = satp s" using alloc_page_local [OF a] by (auto simp: local_change_def)
    note np = alloc_page_new [OF inv(2) a]
    show ?thesis
    proof (cases ra)
      case (Ok p)
      have il: "window_inv (cur_space sa)" "\<not> l1_valid ?v sa" "page_aligned p"
        using inv(1) False sp alloc_page_Ok_aligned [OF inv(2)] a Ok by (auto simp: l1_valid_bit)
      note f = install_leaf_facts [OF il]
      show ?thesis using run' False a Ok np f(1,2,4) sp al(2)
        by (auto simp: window_inv_set_pte [of "install_leaf (vpn1 virt) p sa", simplified sp satp_install_leaf]
            leaf_set_pte [of _ _ _ "install_leaf (vpn1 virt) p sa", simplified sp satp_install_leaf] leaf_pte [of s "vpn1 virt"])
    next
      case (Err e)
      then show ?thesis using run' False a np sp inv alloc_page_spec [OF inv(2), of pid] by auto
    next
      case Panic
      then show ?thesis using a alloc_page_spec [OF inv(2), of pid] by auto
    qed
  qed
  then show "window_inv (cur_space s')" "tables_inv s'" "local_change s s'" "new_pages_only pid s s'"
    "r = Ok () \<or> spaces s' = spaces s \<and> (r = Err MemoryInUse \<and> bit (leaf_at (cur_space s) virt) 0 \<or>
       r = Err OutOfMemory \<and> \<not> l1_valid (vpn1 virt) s)"
    "r = Ok () \<Longrightarrow> \<not> bit (leaf_at (cur_space s) virt) 0"
    "\<lbrakk>r = Ok (); v \<noteq> 1021\<rbrakk> \<Longrightarrow> leaf (cur_space s') v i =
         (if v = ?v \<and> i = ?i then ?e else leaf (cur_space s) v i)" "r = Ok () \<Longrightarrow> l1_valid (vpn1 virt) s'"
    using lc by simp_all
qed

lemma alloc_page_full:
  assumes "tables_inv s" "None \<notin> set (mem_allocs s)"
  shows "alloc_page pid s = (Err OutOfMemory, s)"
proof -
  have len: "length (mem_allocs s) = unat (ram_size s) div 4096" and l: "last_ram_page s \<le> length (mem_allocs s)"
    using assms(1) by (simp_all add: tables_inv_def)
  have "find (\<lambda>i. mem_allocs s ! i = None) [0 ..< length (mem_allocs s)] = None"
    using assms(2) by (auto simp: find_None_iff in_set_conv_nth)
  then show ?thesis using l by (simp add: alloc_page_def Let_def max_def flip: len)
qed

lemma map_page_inner_result:
  assumes inv: "window_inv (cur_space s)" "tables_inv s" and al: "virt AND 0xfff = 0" "vpn1 virt \<noteq> 1021"
  shows "fst (map_page_inner pid phys virt req u s) =
    (if bit (leaf_at (cur_space s) virt) 0 then Err MemoryInUse
     else if l1_valid (vpn1 virt) s \<or> None \<in> set (mem_allocs s) then Ok () else Err OutOfMemory)"
  unfolding map_page_inner_eq [OF inv(1) al] leaf_pte
  using alloc_page_spec [OF inv(2), of pid] alloc_page_full [OF inv(2), of pid]
  by (cases "None \<in> set (mem_allocs s)") (auto split: prod.splits outcome.splits)

lemma map_page_inner_tables:
  assumes inv: "window_inv (cur_space s)" "tables_inv s" and al: "virt AND 0xfff = 0" "vpn1 virt \<noteq> 1021"
    and run: "map_page_inner pid phys virt req u s = (Ok (), s')"
  shows "leaf_table_ready pid (satp s) virt s s'"
proof (cases "l1_valid (vpn1 virt) s")
  case True
  then show ?thesis using run [unfolded map_page_inner_eq [OF inv(1) al]] al(2)
    by (auto simp: leaf_table_ready_def l1_valid_bit leaf_def set_pte_def spaces_upd_space split: if_splits)
next
  case False
  obtain ra sa where a: "alloc_page pid s = (ra, sa)" by fastforce
  have sp: "spaces sa = spaces s" "satp sa = satp s" using alloc_page_local [OF a] by (auto simp: local_change_def)
  obtain p where p: "ra = Ok p" "s' = set_pte (vpn1 virt) (vpn0 virt) (mk_entry phys (map_flags req u)) (install_leaf (vpn1 virt) p sa)"
    using run [unfolded map_page_inner_eq [OF inv(1) al]] False a by (auto split: outcome.splits)
  have spec: "page_aligned p" "owner p s = None" "owner p sa = Some pid"
      "\<forall>b. page_aligned b \<longrightarrow> b \<noteq> p \<longrightarrow> owner b sa = owner b s"
    using alloc_page_spec [OF inv(2), of pid] a p(1) by auto
  have il: "window_inv (cur_space sa)" "\<not> l1_valid (vpn1 virt) sa" using inv(1) False sp by (auto simp: l1_valid_bit)
  note f = install_leaf_facts(6,7) [OF il spec(1), unfolded sp]
  have "leaf (spaces s' (satp s)) 1021 i = leaf (spaces (install_leaf (vpn1 virt) p sa) (satp s)) 1021 i"
    "l1 (spaces s' (satp s)) = l1 (spaces (install_leaf (vpn1 virt) p sa) (satp s))" "owner b s' = owner b sa" for i b
    using leaf_set_pte [of _ _ _ "install_leaf (vpn1 virt) p sa" 1021] al(2) sp p(2) by (simp_all add: spaces_set_pte)
  then show ?thesis using f spec False unfolding leaf_table_ready_def by (auto simp: l1_valid_bit intro!: exI [of _ p])
qed

section \<open>Two address spaces\<close>

text \<open>
  The situation of every operation that moves a page across address spaces:
  \<open>src\<close> is active, \<open>dst\<close> is another space, and both are well formed.
\<close>

definition two_spaces :: "usize \<Rightarrow> usize \<Rightarrow> 'z mstate_scheme \<Rightarrow> bool" where
  "two_spaces src dst s \<longleftrightarrow> satp s = src \<and> dst \<noteq> src \<and> window_inv (spaces s src) \<and>
     window_inv (spaces s dst) \<and> tables_inv s"

definition user_page :: "usize \<Rightarrow> bool" where
  "user_page a \<longleftrightarrow> page_aligned a \<and> vpn1 a \<noteq> 1021"

lemma user_page_facts: "user_page a \<Longrightarrow> a AND 0xfff = 0" "user_page a \<Longrightarrow> a AND 3 = 0" "user_page a \<Longrightarrow> vpn1 a \<noteq> 1021"
proof -
  assume u: "user_page a"
  then have b: "\<not> bit a 0" "\<not> bit a 1" by (simp_all add: user_page_def page_aligned_bit)
  have three: "(3::usize) = mask 2" by (simp add: mask_eq_exp_minus_1)
  show "a AND 3 = 0" unfolding three
    using b by (intro bit_word_eqI) (auto simp: bit_simps less_2_cases_iff, metis gr0I)
qed (simp_all add: user_page_def page_aligned_def)

lemma cross_map:
  assumes two: "two_spaces src dst s" and d: "user_page d" and v: "v \<noteq> 1021" "l1_valid v s"
    and run: "map_page_inner pid phys d req u (activate_mapping dst (set_pte v i x s)) = (r, s1)"
  shows "two_spaces src dst (activate_mapping src s1)" "new_pages_only pid s s1"
    and "sp \<noteq> src \<Longrightarrow> sp \<noteq> dst \<Longrightarrow> spaces s1 sp = spaces s sp"
    and "leaf (spaces s1 src) v' i' = (if v' = v \<and> i' = i then x else leaf (spaces s src) v' i')"
    and "r = Ok () \<Longrightarrow> w \<noteq> 1021 \<Longrightarrow> leaf (spaces s1 dst) w j =
           (if w = vpn1 d \<and> j = vpn0 d then mk_entry phys (map_flags req u) else leaf (spaces s dst) w j)"
    and "r = Ok () \<or> spaces s1 dst = spaces s dst \<and>
           (r = Err MemoryInUse \<and> bit (leaf_at (spaces s dst) d) 0 \<or> r = Err OutOfMemory)"
    and "r = Ok () \<Longrightarrow> \<not> bit (leaf_at (spaces s dst) d) 0"
    and "r = Ok () \<Longrightarrow> bit (l1 (spaces s1 dst) (vpn1 d)) 0"
    and "l1 (spaces s1 src) = l1 (spaces s src)" "r = Ok () \<Longrightarrow> leaf_table_ready pid dst d s s1"
proof -
  let ?t = "activate_mapping dst (set_pte v i x s)"
  have sp: "satp s = src" "dst \<noteq> src" "window_inv (spaces s src)" "tables_inv s" using two by (auto simp: two_spaces_def)
  have dsp: "spaces ?t (satp ?t) = spaces s dst" using sp by (simp add: spaces_set_pte)
  have iw: "window_inv (cur_space ?t)" "tables_inv ?t" using two dsp by (simp_all add: two_spaces_def)
  note m = map_page_inner_leaf [OF iw user_page_facts(1,3) [OF d] run]
  have lc: "satp s1 = dst" "\<And>q. q \<noteq> dst \<Longrightarrow> spaces s1 q = spaces (set_pte v i x s) q"
    using m(3) by (simp_all add: local_change_def)
  have src1: "spaces s1 src = spaces (set_pte v i x s) src" using lc(2) sp(2) by simp
  show "two_spaces src dst (activate_mapping src s1)"
    using m(1,2) lc(1) sp src1 window_inv_set_pte [of s v i x] v by (simp add: two_spaces_def)
  show "new_pages_only pid s s1" using m(4) by (simp add: new_pages_only_def)
  show "leaf (spaces s1 src) v' i' = (if v' = v \<and> i' = i then x else leaf (spaces s src) v' i')"
    using src1 leaf_set_pte [of v i x s v' i'] sp(1) v(2) by simp
  show "l1 (spaces s1 src) = l1 (spaces s src)" using src1 by (simp add: spaces_set_pte)
  show "leaf_table_ready pid dst d s s1" if "r = Ok ()"
    using map_page_inner_tables [OF iw user_page_facts(1,3) [OF d] run [unfolded that]] dsp
      leaf_table_ready_cong [of ?t dst s s1 s1 pid d] by simp
  show "spaces s1 sp = spaces s sp" if "sp \<noteq> src" "sp \<noteq> dst" using lc(2) that sp by (simp add: spaces_set_pte)
  show "r = Ok () \<or> spaces s1 dst = spaces s dst \<and>
           (r = Err MemoryInUse \<and> bit (leaf_at (spaces s dst) d) 0 \<or> r = Err OutOfMemory)"
    using m(5) dsp sp by (auto simp: spaces_set_pte)
  show "r = Ok () \<Longrightarrow> \<not> bit (leaf_at (spaces s dst) d) 0" using m(6) dsp by simp
  show "r = Ok () \<Longrightarrow> w \<noteq> 1021 \<Longrightarrow> leaf (spaces s1 dst) w j =
      (if w = vpn1 d \<and> j = vpn0 d then mk_entry phys (map_flags req u) else leaf (spaces s dst) w j)"
    using m(7) [of w j] dsp lc(1) by simp
  show "r = Ok () \<Longrightarrow> bit (l1 (spaces s1 dst) (vpn1 d)) 0" using m(8) lc(1) by (simp add: l1_valid_bit)
qed

text \<open>The entry a lender keeps during a loan, and the entry the borrower gets.\<close>

definition lent_entry :: "usize \<Rightarrow> usize" where
  "lent_entry e = (e AND NOT FLG_VALID) OR FLG_S"

definition loan_entry :: "usize \<Rightarrow> bool \<Rightarrow> PID \<Rightarrow> usize" where
  "loan_entry e mutable pid =
     mk_entry (entry_phys e) (map_flags (if mutable \<and> bit e 2 then MF_R OR MF_W else MF_R) (pid \<noteq> 1))"

lemma lent_entry_bit: "bit (lent_entry e) n \<longleftrightarrow> n < 32 \<and> (n = 8 \<or> bit e n \<and> n \<noteq> 0)"
  using bit_imp_le_length [of e n] by (auto simp: lent_entry_def bit_simps)

lemma loan_entry_bits:
  "entry_phys (loan_entry e m pid) = entry_phys e"
  "bit (loan_entry e m pid) 0" "\<not> bit (loan_entry e m pid) 8" "\<not> bit (loan_entry e m pid) 3"
  "bit (loan_entry e m pid) 1" "bit (loan_entry e m pid) 2 \<longleftrightarrow> m \<and> bit e 2" "bit (loan_entry e m pid) 4 \<longleftrightarrow> pid \<noteq> 1"
  by (auto simp: loan_entry_def mk_entry_bit map_flags_bit translate_flags_bit bit_simps)

lemma lend_page_Ok:
  assumes two: "two_spaces src dst s" and a: "user_page a" and d: "user_page d"
    and run: "lend_page_inner src a pid dst d mutable s = (Ok phys, s')"
  defines "e \<equiv> leaf_at (spaces s src) a"
  shows "two_spaces src dst s'" "new_pages_only pid s s'"
    and "bit e 0" "\<not> bit e 8" "phys = entry_phys e" "\<not> bit (leaf_at (spaces s dst) d) 0"
    and "sp \<noteq> src \<Longrightarrow> sp \<noteq> dst \<Longrightarrow> spaces s' sp = spaces s sp"
    and "leaf (spaces s' src) v i = (if v = vpn1 a \<and> i = vpn0 a then lent_entry e else leaf (spaces s src) v i)"
    and "w \<noteq> 1021 \<Longrightarrow> leaf (spaces s' dst) w j =
          (if w = vpn1 d \<and> j = vpn0 d then loan_entry e mutable pid else leaf (spaces s dst) w j)"
    and "l1 (spaces s' src) = l1 (spaces s src)" "leaf_table_ready pid dst d s s'"
proof -
  have st: "satp s = src" using two by (simp add: two_spaces_def)
  obtain v i where pe: "pagetable_entry a s = Ok (v, i)" "v = vpn1 a" "i = vpn0 a" "l1_valid (vpn1 a) s"
    using run by (auto simp: lend_page_inner_def pagetable_entry_Ok split: outcome.splits)
  have e: "e = pte (vpn1 a) (vpn0 a) s" using pe(4) st leaf_pte [of s] by (simp add: e_def)
  have nw: "has_flag ((e AND NOT FLG_VALID) OR FLG_S) FLG_W = bit e 2" by (simp add: bit_simps)
  have ok: "bit e 0" "\<not> bit e 8" using run pe e by (auto simp: lend_page_inner_def Let_def split: if_splits)
  obtain s1 where m: "map_page_inner pid (entry_phys e) d (if mutable \<and> bit e 2 then MF_R OR MF_W else MF_R) (pid \<noteq> 1)
      (activate_mapping dst (set_pte (vpn1 a) (vpn0 a) (lent_entry e) s)) = (Ok (), s1)"
    and s': "s' = activate_mapping src s1" and ph: "phys = entry_phys e"
    using run pe ok unfolding e lent_entry_def lend_page_inner_def
    by (auto simp: Let_def bit_simps split: prod.splits outcome.splits if_splits)
  note c = cross_map [OF two d user_page_facts(3) [OF a] pe(4) m]
  show "two_spaces src dst s'" "new_pages_only pid s s'" using c(1,2) s' by (simp_all add: new_pages_only_def)
  show "bit e 0" "\<not> bit e 8" "phys = entry_phys e" by (fact ok ph)+
  show "\<not> bit (leaf_at (spaces s dst) d) 0" using c(7) by simp
  show "sp \<noteq> src \<Longrightarrow> sp \<noteq> dst \<Longrightarrow> spaces s' sp = spaces s sp" using c(3) s' by simp
  show "leaf (spaces s' src) v i = (if v = vpn1 a \<and> i = vpn0 a then lent_entry e else leaf (spaces s src) v i)" for v i
    using c(4) s' by simp
  show "w \<noteq> 1021 \<Longrightarrow> leaf (spaces s' dst) w j =
          (if w = vpn1 d \<and> j = vpn0 d then loan_entry e mutable pid else leaf (spaces s dst) w j)"
    using c(5) s' by (simp add: loan_entry_def)
  show "l1 (spaces s' src) = l1 (spaces s src)" using c(9) s' by simp
  show "leaf_table_ready pid dst d s s'" using c(10) s' leaf_table_ready_cong [of s dst s s' s1] by simp
qed

definition unlent_entry :: "usize \<Rightarrow> usize" where
  "unlent_entry e = (e AND NOT (FLG_S OR FLG_P)) OR FLG_VALID"

lemma unlent_lent: "\<lbrakk>bit e 0; \<not> bit e 8\<rbrakk> \<Longrightarrow> unlent_entry (lent_entry e) = e AND NOT FLG_P"
  by (rule bit_word_eqI) (auto simp: unlent_entry_def lent_entry_bit bit_simps)

lemma return_page_Ok:
  assumes two: "two_spaces src dst s" and a: "user_page a" and d: "user_page d"
    and va: "bit (leaf_at (spaces s src) a) 0" and sd: "bit (leaf_at (spaces s dst) d) 8"
  obtains s' where
    "return_page_inner src a pid dst d s = (Ok (entry_phys (leaf_at (spaces s src) a)), s')"
    "two_spaces src dst s'" "\<And>b. owner b s' = owner b s"
    "\<And>sp. \<lbrakk>sp \<noteq> src; sp \<noteq> dst\<rbrakk> \<Longrightarrow> spaces s' sp = spaces s sp"
    "\<And>v i. leaf (spaces s' src) v i = (if v = vpn1 a \<and> i = vpn0 a then 0 else leaf (spaces s src) v i)"
    "\<And>v i. leaf (spaces s' dst) v i =
       (if v = vpn1 d \<and> i = vpn0 d then unlent_entry (leaf_at (spaces s dst) d) else leaf (spaces s dst) v i)"
    "l1 (spaces s' src) = l1 (spaces s src)" "l1 (spaces s' dst) = l1 (spaces s dst)"
proof -
  have st: "satp s = src" "dst \<noteq> src" "window_inv (spaces s src)" "window_inv (spaces s dst)"
    using two by (auto simp: two_spaces_def)
  let ?s1 = "activate_mapping dst (set_pte (vpn1 a) (vpn0 a) 0 s)"
  have dsp: "spaces ?s1 dst = spaces s dst" using st by (simp add: spaces_set_pte)
  have l1a: "l1_valid (vpn1 a) s" and l1d: "l1_valid (vpn1 d) ?s1"
    using va sd st dsp by (auto simp: leaf_def l1_valid_bit split: if_splits)
  have pa: "pagetable_entry a s = Ok (vpn1 a, vpn0 a)" "pagetable_entry d ?s1 = Ok (vpn1 d, vpn0 d)"
    using l1a l1d user_page_facts(2) a d by (simp_all add: pagetable_entry_Ok)
  have ea: "pte (vpn1 a) (vpn0 a) s = leaf_at (spaces s src) a" using leaf_pte [of s] l1a st by simp
  have ed: "pte (vpn1 d) (vpn0 d) ?s1 = leaf_at (spaces s dst) d"
    using leaf_pte [of ?s1] l1d dsp by simp
  let ?s2 = "activate_mapping src (set_pte (vpn1 d) (vpn0 d) (unlent_entry (leaf_at (spaces s dst) d)) ?s1)"
  have "return_page_inner src a pid dst d s = (Ok (entry_phys (leaf_at (spaces s src) a)), ?s2)"
    unfolding return_page_inner_def pa(1) using pa(2) ea ed va sd by (simp add: Let_def unlent_entry_def)
  moreover have "leaf (spaces ?s2 src) v i = (if v = vpn1 a \<and> i = vpn0 a then 0 else leaf (spaces s src) v i)" for v i
    using leaf_set_pte [of "vpn1 a" "vpn0 a" 0 s v i] l1a st by (simp add: spaces_set_pte [of _ _ _ ?s1])
  moreover have "leaf (spaces ?s2 dst) v i =
       (if v = vpn1 d \<and> i = vpn0 d then unlent_entry (leaf_at (spaces s dst) d) else leaf (spaces s dst) v i)" for v i
    using leaf_set_pte [of "vpn1 d" "vpn0 d" _ ?s1 v i] l1d st dsp by simp
  moreover have "two_spaces src dst ?s2"
    using two st dsp window_inv_set_pte [of ?s1] window_inv_set_pte [of s] user_page_facts(3) a d
    by (simp add: two_spaces_def spaces_set_pte [of _ _ _ ?s1])
  ultimately show ?thesis using st by (intro that [of ?s2]) (simp_all add: spaces_set_pte)
qed

lemma move_page_Ok:
  assumes two: "two_spaces src dst s" and a: "user_page a" and d: "user_page d"
    and run: "move_page_inner src a pid dst d s = (Ok (), s')"
  defines "e \<equiv> leaf_at (spaces s src) a"
  shows "two_spaces src dst s'" "new_pages_only pid s s'" "bit e 0" "\<not> bit (leaf_at (spaces s dst) d) 0"
    and "sp \<noteq> src \<Longrightarrow> sp \<noteq> dst \<Longrightarrow> spaces s' sp = spaces s sp"
    and "leaf (spaces s' src) v i = (if v = vpn1 a \<and> i = vpn0 a then 0 else leaf (spaces s src) v i)"
    and "w \<noteq> 1021 \<Longrightarrow> leaf (spaces s' dst) w j =
          (if w = vpn1 d \<and> j = vpn0 d then mk_entry (entry_phys e) (map_flags (untranslate_flags e) (pid \<noteq> 1))
           else leaf (spaces s dst) w j)"
    and "l1 (spaces s' src) = l1 (spaces s src)" "leaf_table_ready pid dst d s s'"
proof -
  have st: "satp s = src" using two by (simp add: two_spaces_def)
  have pe: "pagetable_entry a s = Ok (vpn1 a, vpn0 a)" "l1_valid (vpn1 a) s"
    using run by (auto simp: move_page_inner_def pagetable_entry_def split: if_splits)
  have e: "e = pte (vpn1 a) (vpn0 a) s" using pe st leaf_pte [of s] by (simp add: e_def)
  show ok: "bit e 0" using run pe e by (auto simp: move_page_inner_def Let_def split: if_splits)
  obtain s1 where m: "map_page_inner pid (entry_phys e) d (untranslate_flags e) (pid \<noteq> 1)
      (activate_mapping dst (set_pte (vpn1 a) (vpn0 a) 0 s)) = (Ok (), s1)"
    and s': "s' = activate_mapping src s1"
    using run pe ok e by (auto simp: move_page_inner_def Let_def split: prod.splits)
  note c = cross_map [OF two d user_page_facts(3) [OF a] pe(2) m]
  show "two_spaces src dst s'" "new_pages_only pid s s'" using c(1,2) s' by (simp_all add: new_pages_only_def)
  show "\<not> bit (leaf_at (spaces s dst) d) 0" using c(7) by simp
  show "sp \<noteq> src \<Longrightarrow> sp \<noteq> dst \<Longrightarrow> spaces s' sp = spaces s sp" using c(3) s' by simp
  show "leaf (spaces s' src) v i = (if v = vpn1 a \<and> i = vpn0 a then 0 else leaf (spaces s src) v i)" for v i
    using c(4) s' by simp
  show "w \<noteq> 1021 \<Longrightarrow> leaf (spaces s' dst) w j =
      (if w = vpn1 d \<and> j = vpn0 d then mk_entry (entry_phys e) (map_flags (untranslate_flags e) (pid \<noteq> 1))
           else leaf (spaces s dst) w j)"
    using c(5) s' by simp
  show "l1 (spaces s' src) = l1 (spaces s src)" using c(9) s' by simp
  show "leaf_table_ready pid dst d s s'" using c(10) s' leaf_table_ready_cong [of s dst s s' s1] by simp
qed

section \<open>Properties\<close>

definition demo_entry :: usize where
  "demo_entry = mk_entry 0x40002000 (map_flags (MF_R OR MF_W) True)"

definition windows_only :: space where
  "windows_only = \<lparr>l1 = (\<lambda>_. 0)(1021 := table_entry 0x40003000, 1023 := table_entry 0x40000000),
     l0 = (\<lambda>_ _. 0)(1021 := (\<lambda>_. 0)(1021 := mk_entry 0x40003000 (map_flags (MF_R OR MF_W) False))),
     hardware_thread = 0, inner = process_inner_default, last_tid_allocated = 0, threads = []\<rparr>"

definition one_page :: space where
  "one_page = windows_only\<lparr>
     l1 := (l1 windows_only)(1 := table_entry 0x40000000),
     l0 := (l0 windows_only)(1021 := (l0 windows_only 1021)(1 := mk_entry 0x40000000 (map_flags (MF_R OR MF_W) False)),
             1 := (\<lambda>_. 0)(0 := demo_entry))\<rparr>"

text \<open>Two processes: 2 (\<open>satp\<close> 0x80800001, active) has one page at 0x400000, 3 (0x80c00002) has none.\<close>

definition demo_two :: mstate where
  "demo_two = demo_mem\<lparr>satp := 0x80800001,
     spaces := (\<lambda>_. windows_only)(0x80800001 := one_page)\<rparr>"

lemma demo_windows: "window_inv windows_only" "window_inv one_page"
  by (auto simp: window_inv_def one_page_def windows_only_def table_entry_bit mk_entry_bit map_flags_bit page_aligned_def)

lemma demo_two_spaces: "two_spaces 0x80800001 0x80c00002 demo_two"
proof -
  have "tables_inv demo_two" using owner_cong [of demo_two demo_mem] by (simp add: demo_two_def)
  then show ?thesis using demo_windows by (simp add: two_spaces_def demo_two_def)
qed

lemma demo_vpn: "vpn1 0x400000 = 1" "vpn0 0x400000 = 0" "vpn1 0x40000000 = 256" "vpn0 0x40000000 = 0"
  by (simp_all add: vpn1_def vpn0_def)

lemma demo_user_page: "user_page 0x400000" "user_page 0x40000000"
  by (simp_all add: user_page_def page_aligned_def demo_vpn)

lemma demo_leaf: "leaf_at (spaces demo_two 0x80800001) 0x400000 = demo_entry"
  "leaf_at (spaces demo_two 0x80c00002) 0x40000000 = 0"
  by (simp_all add: demo_vpn demo_two_def leaf_def one_page_def windows_only_def table_entry_bit)

lemma demo_entry_bits: "bit demo_entry 0" "\<not> bit demo_entry 8" "\<not> bit demo_entry 9" "bit demo_entry 2"
  "entry_phys demo_entry = 0x40002000"
  by (simp_all add: demo_entry_def mk_entry_bit map_flags_bit translate_flags_bit bit_simps page_aligned_def)

lemma demo_kept: "demo_entry AND NOT FLG_P = demo_entry"
  using demo_entry_bits(3) by (intro bit_word_eqI) (auto simp: bit_simps)

lemma demo_map: "fst (map_page_inner 3 p 0x40000000 req u
    (activate_mapping 0x80c00002 (set_pte 1 0 x demo_two))) = Ok ()"
proof -
  let ?t = "activate_mapping 0x80c00002 (set_pte 1 0 x demo_two)"
  have sp: "spaces ?t 0x80c00002 = windows_only" by (simp add: spaces_set_pte) (simp add: demo_two_def)
  have ti: "tables_inv ?t" using demo_two_spaces by (simp add: two_spaces_def)
  obtain r s' where m: "map_page_inner 3 p 0x40000000 req u ?t = (r, s')" by fastforce
  have "leaf_at windows_only 0x40000000 = 0" by (simp add: leaf_def windows_only_def demo_vpn)
  moreover have "fst (alloc_page 3 ?t) \<noteq> Err OutOfMemory"
  proof -
    have "mem_allocs ?t = mem_allocs demo_mem" by (simp add: set_pte_def demo_two_def)
    then have "None \<in> set (mem_allocs ?t)" by (simp add: demo_mem_def)
    then show ?thesis using alloc_page_spec [OF ti, of 3] by (cases "alloc_page 3 ?t"; cases "fst (alloc_page 3 ?t)") auto
  qed
  ultimately show ?thesis
    using map_page_inner_leaf(5) [OF _ ti _ _ m] map_page_inner_eq [of ?t "0x40000000" 3 p req u] m sp demo_windows(1) demo_vpn
    by (auto split: prod.splits outcome.splits if_splits)
qed

text \<open>
  C8: Mapping a page refines an update of the address-space function.  For a
  page-aligned virtual address outside the window superpage 1021 and a
  page-aligned frame, in a well-formed space, \<open>map_page_inner\<close> never panics
  and never runs out of recursion depth.  Its result is exactly this: a page
  that is valid gives \<open>MemoryInUse\<close>, a page whose superpage has no leaf table
  gives \<open>OutOfMemory\<close> when no page of main memory is free, and every other
  page is mapped.  On success the entry is the requested frame with the
  requested flags and every other page outside superpage 1021 translates as
  before.  The root table and superpage 1021 change only if a leaf table had
  to be made, and then in the one entry that names it and the one that shows
  it to the kernel.  On error the address spaces are untouched.  The space
  stays well formed, other spaces are untouched, and no page of another
  process changes hands.
\<close>
theorem map_page_refines:
  assumes "window_inv (cur_space s)" "tables_inv s" "user_page virt" "page_aligned phys"
  shows "\<exists>r s'. map_page_inner pid phys virt req u s = (r, s') \<and>
    window_inv (spaces s' (satp s)) \<and> tables_inv s' \<and> new_pages_only pid s s' \<and>
    (\<forall>sp. sp \<noteq> satp s \<longrightarrow> spaces s' sp = spaces s sp) \<and>
    r = (if bit (leaf_at (cur_space s) virt) 0 then Err MemoryInUse
         else if l1_valid (vpn1 virt) s \<or> None \<in> set (mem_allocs s) then Ok () else Err OutOfMemory) \<and>
    (if r = Ok () then
       leaf_at (spaces s' (satp s)) virt = mk_entry phys (map_flags req u) \<and> virt_to_phys virt s' = Ok phys \<and>
       leaf_table_ready pid (satp s) virt s s' \<and>
       (\<forall>v i. v \<noteq> 1021 \<longrightarrow> (v, i) \<noteq> (vpn1 virt, vpn0 virt) \<longrightarrow>
          leaf (spaces s' (satp s)) v i = leaf (cur_space s) v i)
     else spaces s' = spaces s)"
proof -
  obtain r s' where run: "map_page_inner pid phys virt req u s = (r, s')" by fastforce
  note m = map_page_inner_leaf [OF assms(1,2) user_page_facts(1,3) [OF assms(3)] run]
  have lc: "satp s' = satp s" "\<forall>sp. sp \<noteq> satp s \<longrightarrow> spaces s' sp = spaces s sp"
    using m(3) by (simp_all add: local_change_def)
  have "virt_to_phys virt s' = Ok phys" if "r = Ok ()"
    using m(7) [OF that user_page_facts(3) [OF assms(3)]] assms(4)
    by (simp add: virt_to_phys_leaf leaf_phys_def mk_entry_bit map_flags_bit translate_flags_bit)
  moreover have "leaf_table_ready pid (satp s) virt s s'" if "r = Ok ()"
    using map_page_inner_tables [OF assms(1,2) user_page_facts(1,3) [OF assms(3)] run [unfolded that]] .
  moreover have "r = (if bit (leaf_at (cur_space s) virt) 0 then Err MemoryInUse
       else if l1_valid (vpn1 virt) s \<or> None \<in> set (mem_allocs s) then Ok () else Err OutOfMemory)"
    using map_page_inner_result [OF assms(1,2) user_page_facts(1,3) [OF assms(3)], of pid phys req u] run by simp
  ultimately show ?thesis using m(1,2,4,5) m(7) user_page_facts(3) [OF assms(3)] lc run
    by (intro exI [of _ r] exI [of _ s']) (cases "r = Ok ()"; simp)
qed

theorem map_page_refines_witness:
  "window_inv (cur_space demo_two) \<and>
   (\<exists>s'. map_page_inner 2 0x40001000 0x40000000 (MF_R OR MF_W) True demo_two = (Ok (), s') \<and>
      tables_inv s' \<and> virt_to_phys 0x40000000 s' = Ok 0x40001000 \<and>
      leaf_at (spaces s' 0x80800001) 0x400000 = demo_entry \<and>
      leaf_table_ready 2 0x80800001 0x40000000 demo_two s')"
proof -
  have sp: "satp demo_two = 0x80800001" "window_inv (cur_space demo_two)" "tables_inv demo_two"
    using demo_two_spaces by (simp_all add: two_spaces_def)
  have "leaf_at (cur_space demo_two) 0x40000000 = 0" "None \<in> set (mem_allocs demo_two)"
    by (simp_all add: demo_vpn demo_two_def demo_mem_def leaf_def one_page_def windows_only_def)
  then show ?thesis
    using map_page_refines [of demo_two "0x40000000" "0x40001000" 2 "MF_R OR MF_W" True] sp demo_user_page demo_leaf(1) demo_vpn
    by (auto simp: page_aligned_def)
qed

text \<open>
  C5: Lending is undone by returning.  If a page is lent to another process
  (both addresses page aligned and outside the window superpage 1021) and that
  process then returns it, the return succeeds with the same frame, and the
  two address spaces are what they were before the loan, with these
  exceptions: the flag \<open>P\<close> of the lender's entry is cleared, the borrower's
  address is unmapped (it was not valid before), and a leaf table that was
  allocated for the borrower's superpage stays, which is seen in the
  borrower's root table and its window in superpage 1021.  The lender's root
  table and superpage 1021 and every third space are unchanged.
\<close>
theorem lend_return_roundtrip:
  assumes "two_spaces src dst s" "user_page a" "user_page d"
    and "lend_page_inner src a pid dst d mutable s = (Ok phys, s1)"
  shows "\<exists>s2. return_page_inner dst d src_pid src a (activate_mapping dst s1) = (Ok phys, s2) \<and>
     two_spaces dst src s2 \<and>
     (\<forall>v i. leaf (spaces s2 src) v i =
        (if (v, i) = (vpn1 a, vpn0 a) then leaf_at (spaces s src) a AND NOT FLG_P else leaf (spaces s src) v i)) \<and>
     (\<forall>v i. v \<noteq> 1021 \<longrightarrow> leaf (spaces s2 dst) v i = (if (v, i) = (vpn1 d, vpn0 d) then 0 else leaf (spaces s dst) v i)) \<and>
     l1 (spaces s2 src) = l1 (spaces s src) \<and> leaf_table_ready pid dst d s s2 \<and>
     (\<forall>sp. sp \<noteq> src \<longrightarrow> sp \<noteq> dst \<longrightarrow> spaces s2 sp = spaces s sp)"
proof -
  let ?e = "leaf_at (spaces s src) a" and ?t = "activate_mapping dst s1"
  note l = lend_page_Ok [OF assms(1-4)]
  have two: "two_spaces dst src ?t" and ne: "dst \<noteq> src" using l(1) by (auto simp: two_spaces_def)
  have da: "leaf_at (spaces ?t dst) d = loan_entry ?e mutable pid" using l(9) user_page_facts(3) assms(3) by simp
  have sa: "leaf_at (spaces ?t src) a = lent_entry ?e" using l(8) by simp
  have va: "bit (leaf_at (spaces ?t dst) d) 0" and sd: "bit (leaf_at (spaces ?t src) a) 8"
    unfolding da sa by (simp_all add: loan_entry_bits lent_entry_bit)
  obtain s2 where r0: "return_page_inner dst d src_pid src a ?t = (Ok (entry_phys (leaf_at (spaces ?t dst) d)), s2)"
      "two_spaces dst src s2" "\<And>b. owner b s2 = owner b ?t" "\<And>sp. \<lbrakk>sp \<noteq> dst; sp \<noteq> src\<rbrakk> \<Longrightarrow> spaces s2 sp = spaces ?t sp"
      "\<And>v i. leaf (spaces s2 dst) v i = (if v = vpn1 d \<and> i = vpn0 d then 0 else leaf (spaces ?t dst) v i)"
      "\<And>v i. leaf (spaces s2 src) v i =
         (if v = vpn1 a \<and> i = vpn0 a then unlent_entry (leaf_at (spaces ?t src) a) else leaf (spaces ?t src) v i)"
      "l1 (spaces s2 dst) = l1 (spaces ?t dst)" "l1 (spaces s2 src) = l1 (spaces ?t src)"
    by (rule return_page_Ok [OF two assms(3,2) va sd, of src_pid]) (rule that)
  note r = r0 [unfolded da sa loan_entry_bits(1) l(5) [symmetric]]
  have "leaf_table_ready pid dst d s s2"
    using l(11) leaf_table_ready_cong [of s dst s s2 s1 pid d] r(3,5,7) user_page_facts(3) assms(3) by simp
  then show ?thesis using r(1,2,8) r(4) l(7) r(5,6) l(8,9) l(10) unlent_lent [OF l(3,4)] by auto
qed

text \<open>
  C6: What a loan grants.  While a page is lent (both addresses page aligned
  and outside the window superpage 1021) the lender cannot translate it
  (\<open>ShareViolation\<close>), the borrower translates its address to the same frame,
  and the borrower may write only if the loan is mutable and the lender could
  write, and never execute.  No other entry of the lender changes.  In the
  borrower's space no other entry outside superpage 1021 changes; its root
  table and superpage 1021 change only if a leaf table had to be made for the
  borrower, in the two entries that name that table.  Third spaces are
  unchanged.
\<close>
theorem lend_page_loan:
  assumes "two_spaces src dst s" "user_page a" "user_page d"
    and "lend_page_inner src a pid dst d mutable s = (Ok phys, s1)"
  shows "two_spaces src dst s1 \<and> new_pages_only pid s s1 \<and>
     virt_to_phys a s = Ok phys \<and> virt_to_phys a s1 = Err ShareViolation \<and>
     virt_to_phys d (activate_mapping dst s1) = Ok phys \<and>
     (let loan = leaf_at (spaces s1 dst) d in
        (has_flag loan FLG_W \<longleftrightarrow> mutable \<and> has_flag (leaf_at (spaces s src) a) FLG_W) \<and>
        \<not> has_flag loan FLG_X \<and> (has_flag loan FLG_U \<longleftrightarrow> pid \<noteq> 1)) \<and>
     (\<forall>v i. (v, i) \<noteq> (vpn1 a, vpn0 a) \<longrightarrow> leaf (spaces s1 src) v i = leaf (spaces s src) v i) \<and>
     (\<forall>v i. v \<noteq> 1021 \<longrightarrow> (v, i) \<noteq> (vpn1 d, vpn0 d) \<longrightarrow> leaf (spaces s1 dst) v i = leaf (spaces s dst) v i) \<and>
     l1 (spaces s1 src) = l1 (spaces s src) \<and> leaf_table_ready pid dst d s s1 \<and>
     (\<forall>sp. sp \<noteq> src \<longrightarrow> sp \<noteq> dst \<longrightarrow> spaces s1 sp = spaces s sp)"
proof -
  note l = lend_page_Ok [OF assms]
  have st: "satp s = src" "satp s1 = src" using assms(1) l(1) by (simp_all add: two_spaces_def)
  have "virt_to_phys a s = Ok phys" using l(3-5) st by (simp add: virt_to_phys_leaf leaf_phys_def)
  moreover have "virt_to_phys a s1 = Err ShareViolation"
    using l(8) st by (simp add: virt_to_phys_leaf leaf_phys_def lent_entry_bit)
  ultimately show ?thesis using l(1,2,5,7,8,10,11) l(9) user_page_facts(3) assms(3) loan_entry_bits
    by (auto simp: Let_def virt_to_phys_leaf leaf_phys_def)
qed

lemma demo_lend:
  obtains s1 where "lend_page_inner 0x80800001 0x400000 3 0x80c00002 0x40000000 m demo_two = (Ok 0x40002000, s1)"
proof -
  have two: "satp demo_two = 0x80800001" using demo_two_spaces by (simp add: two_spaces_def)
  have v: "l1_valid (Suc 0) demo_two" by (simp add: l1_valid_bit demo_two_def one_page_def windows_only_def table_entry_bit)
  have pe: "pagetable_entry 0x400000 demo_two = Ok (Suc 0, 0)" using v demo_vpn demo_user_page user_page_facts(2)
    by (simp add: pagetable_entry_Ok)
  have e: "pte (Suc 0) 0 demo_two = demo_entry" using leaf_pte [of demo_two "Suc 0" 0] v demo_leaf(1) two demo_vpn by simp
  obtain r s1 where m: "map_page_inner 3 0x40002000 0x40000000 (if m then MF_R OR MF_W else MF_R) True
      (activate_mapping 0x80c00002 (set_pte (Suc 0) 0 (demo_entry AND NOT FLG_VALID OR FLG_S) demo_two)) = (r, s1)" by fastforce
  then have "r = Ok ()" using demo_map by (metis One_nat_def fst_conv)
  then show ?thesis using m demo_entry_bits
    by (intro that [of "activate_mapping 0x80800001 s1"]) (simp add: lend_page_inner_def pe e Let_def bit_simps)
qed

theorem lend_return_roundtrip_witness:
  "\<exists>s1 s2. lend_page_inner 0x80800001 0x400000 3 0x80c00002 0x40000000 True demo_two = (Ok 0x40002000, s1) \<and>
     return_page_inner 0x80c00002 0x40000000 2 0x80800001 0x400000 (activate_mapping 0x80c00002 s1) = (Ok 0x40002000, s2) \<and>
     leaf_at (spaces s2 0x80800001) 0x400000 = demo_entry"
proof -
  obtain s1 where l: "lend_page_inner 0x80800001 0x400000 3 0x80c00002 0x40000000 True demo_two = (Ok 0x40002000, s1)"
    by (rule demo_lend)
  show ?thesis
    using lend_return_roundtrip [OF demo_two_spaces demo_user_page l, of 2] l demo_leaf demo_kept demo_vpn
    by auto
qed

theorem lend_page_loan_witness:
  "\<exists>s1. lend_page_inner 0x80800001 0x400000 3 0x80c00002 0x40000000 False demo_two = (Ok 0x40002000, s1) \<and>
     virt_to_phys 0x400000 s1 = Err ShareViolation \<and>
     \<not> has_flag (leaf_at (spaces s1 0x80c00002) 0x40000000) FLG_W"
proof -
  obtain s1 where l: "lend_page_inner 0x80800001 0x400000 3 0x80c00002 0x40000000 False demo_two = (Ok 0x40002000, s1)"
    by (rule demo_lend)
  show ?thesis using lend_page_loan [OF demo_two_spaces demo_user_page l] l by (auto simp: Let_def)
qed

text \<open>
  C9: Moving a page transfers it.  After a successful \<open>move_page_inner\<close> (both
  addresses page aligned and outside the window superpage 1021) the sender has
  no mapping at the old address, and the receiver maps its address to the same
  frame with the sender's read, write and execute permissions; that address
  was not valid before.  No other entry of the sender changes.  In the
  receiver's space no other entry outside superpage 1021 changes; its root
  table and superpage 1021 change only if a leaf table had to be made, in the
  two entries that name that table.  Third spaces are unchanged.
\<close>
theorem move_page_transfers:
  assumes "two_spaces src dst s" "user_page a" "user_page d"
    and "move_page_inner src a pid dst d s = (Ok (), s')"
  shows "\<exists>phys. two_spaces src dst s' \<and> new_pages_only pid s s' \<and>
     entry_phys (leaf_at (spaces s src) a) = phys \<and>
     virt_to_phys a s' = Err BadAddress \<and>
     virt_to_phys d (activate_mapping dst s') = Ok phys \<and> \<not> bit (leaf_at (spaces s dst) d) 0 \<and>
     (\<forall>f \<in> {FLG_R, FLG_W, FLG_X}.
        has_flag (leaf_at (spaces s' dst) d) f = has_flag (leaf_at (spaces s src) a) f) \<and>
     (\<forall>v i. (v, i) \<noteq> (vpn1 a, vpn0 a) \<longrightarrow> leaf (spaces s' src) v i = leaf (spaces s src) v i) \<and>
     (\<forall>v i. v \<noteq> 1021 \<longrightarrow> (v, i) \<noteq> (vpn1 d, vpn0 d) \<longrightarrow> leaf (spaces s' dst) v i = leaf (spaces s dst) v i) \<and>
     l1 (spaces s' src) = l1 (spaces s src) \<and> leaf_table_ready pid dst d s s' \<and>
     (\<forall>sp. sp \<noteq> src \<longrightarrow> sp \<noteq> dst \<longrightarrow> spaces s' sp = spaces s sp)"
proof -
  note m = move_page_Ok [OF assms]
  have st: "satp s' = src" using m(1) by (simp add: two_spaces_def)
  have dl: "leaf_at (spaces s' dst) d = mk_entry (entry_phys (leaf_at (spaces s src) a))
      (map_flags (untranslate_flags (leaf_at (spaces s src) a)) (pid \<noteq> 1))"
    using m(7) [OF user_page_facts(3) [OF assms(3)]] by simp
  show ?thesis using m(1,2,4-9) st
    by (auto simp: virt_to_phys_leaf leaf_phys_def dl mk_entry_bit map_flags_bit translate_flags_bit untranslate_flags_bit)
qed

lemma demo_move:
  obtains s1 where "move_page_inner 0x80800001 0x400000 3 0x80c00002 0x40000000 demo_two = (Ok (), s1)"
proof -
  have v: "l1_valid (Suc 0) demo_two" by (simp add: l1_valid_bit demo_two_def one_page_def windows_only_def table_entry_bit)
  have pe: "pagetable_entry 0x400000 demo_two = Ok (Suc 0, 0)" using v demo_vpn demo_user_page user_page_facts(2)
    by (simp add: pagetable_entry_Ok)
  have e: "bit (pte (Suc 0) 0 demo_two) 0"
    using leaf_pte [of demo_two "Suc 0" 0] v demo_leaf(1) demo_vpn demo_entry_bits(1) demo_two_spaces by (simp add: two_spaces_def)
  obtain r s1 where m: "map_page_inner 3 (entry_phys (pte (Suc 0) 0 demo_two)) 0x40000000 (untranslate_flags (pte (Suc 0) 0 demo_two)) True
      (activate_mapping 0x80c00002 (set_pte (Suc 0) 0 0 demo_two)) = (r, s1)" by fastforce
  then have "r = Ok ()" using demo_map by (metis One_nat_def fst_conv)
  then show ?thesis using m e
    by (intro that [of "activate_mapping 0x80800001 s1"]) (simp add: move_page_inner_def pe Let_def)
qed

theorem move_page_transfers_witness:
  "\<exists>s1. move_page_inner 0x80800001 0x400000 3 0x80c00002 0x40000000 demo_two = (Ok (), s1) \<and>
     virt_to_phys 0x400000 s1 = Err BadAddress \<and>
     virt_to_phys 0x40000000 (activate_mapping 0x80c00002 s1) = Ok 0x40002000"
proof -
  obtain s1 where m: "move_page_inner 0x80800001 0x400000 3 0x80c00002 0x40000000 demo_two = (Ok (), s1)"
    by (rule demo_move)
  show ?thesis using move_page_transfers [OF demo_two_spaces demo_user_page m] m demo_leaf(1) demo_entry_bits(5) by auto
qed

lemma strip_flag_Ok:
  "strip_flag flags mf (2 ^ k) e = Ok e' \<longleftrightarrow> (if flags AND mf = 0 then e' = e AND NOT (2 ^ k) else bit e k \<and> e' = e)"
proof -
  have "e AND NOT (2 ^ k) = e" if "\<not> bit e k" using that by (intro bit_word_eqI) (auto simp: bit_simps)
  then show ?thesis unfolding strip_flag_def has_flag_power by auto
qed

lemma strip_flag_bit:
  assumes "strip_flag flags mf fl e = Ok e'" "fl = 2 ^ m" "(flags AND mf = 0) = (\<not> bit flags m)"
  shows "bit e' k = (bit e k \<and> (k = m \<longrightarrow> bit flags m))" "bit flags m \<Longrightarrow> bit e m"
proof -
  have "bit e k \<Longrightarrow> k < 32" using bit_imp_le_length [of e k] by simp
  then show "bit e' k = (bit e k \<and> (k = m \<longrightarrow> bit flags m))" "bit flags m \<Longrightarrow> bit e m"
    using assms strip_flag_Ok by (auto simp: bit_simps split: if_splits)
qed

lemma strip_bits:
  assumes "strip_flag flags MF_X FLG_X e = Ok e1" "strip_flag flags MF_R FLG_R e1 = Ok e2"
    "strip_flag flags MF_W FLG_W e2 = Ok e3"
  shows "k \<in> {1, 2, 3} \<Longrightarrow> bit e3 k = (bit e k \<and> bit flags k)" "k \<notin> {1, 2, 3} \<Longrightarrow> bit e3 k = bit e k"
    "k \<in> {1, 2, 3} \<Longrightarrow> bit flags k \<Longrightarrow> bit e k"
proof -
  note x = strip_flag_bit [OF assms(1) flag_powers(4) flag_test(11)]
    and r = strip_flag_bit [OF assms(2) flag_powers(2) flag_test(9)]
    and w = strip_flag_bit [OF assms(3) flag_powers(3) flag_test(10)]
  have b: "bit e3 k = (bit e k \<and> (k = 1 \<longrightarrow> bit flags 1) \<and> (k = 2 \<longrightarrow> bit flags 2) \<and> (k = 3 \<longrightarrow> bit flags 3))" for k
    using w(1) [of k] r(1) [of k] x(1) [of k] by blast
  show "k \<in> {1, 2, 3} \<Longrightarrow> bit e3 k = (bit e k \<and> bit flags k)" "k \<notin> {1, 2, 3} \<Longrightarrow> bit e3 k = bit e k"
    using b [of k] by auto
  show "bit e k" if "k \<in> {1, 2, 3}" "bit flags k"
    using that x(2) r(2) w(2) x(1) [of 1] x(1) [of 2] r(1) [of 2] by blast
qed

lemma update_page_flags_cases:
  assumes "update_page_flags virt flags s = (r, s')"
  shows "r \<noteq> Panic \<and> r \<noteq> Ok () \<and> s' = s \<or>
    (\<exists>e1 e2 e'. r = Ok () \<and> s' = set_pte (vpn1 virt) (vpn0 virt) e' s \<and> l1_valid (vpn1 virt) s \<and>
      strip_flag flags MF_X FLG_X (pte (vpn1 virt) (vpn0 virt) s) = Ok e1 \<and>
      strip_flag flags MF_R FLG_R e1 = Ok e2 \<and> strip_flag flags MF_W FLG_W e2 = Ok e')"
proof -
  have np: "(\<exists>e'. strip_flag flags a b e = Ok e') \<or> strip_flag flags a b e = Err ShareViolation" for a b e
    by (simp add: strip_flag_def)
  show ?thesis
    using assms np [of MF_X FLG_X "pte (vpn1 virt) (vpn0 virt) s"]
  proof (elim disjE exE)
    fix e1 assume 1: "strip_flag flags MF_X FLG_X (pte (vpn1 virt) (vpn0 virt) s) = Ok e1"
    from np [of MF_R FLG_R e1] show ?thesis
    proof (elim disjE exE)
      fix e2 assume 2: "strip_flag flags MF_R FLG_R e1 = Ok e2"
      from np [of MF_W FLG_W e2] 1 2 assms show ?thesis
        by (auto simp: update_page_flags_def Let_def split: if_splits)
    qed (use assms 1 in \<open>auto simp: update_page_flags_def Let_def split: if_splits\<close>)
  qed (auto simp: update_page_flags_def Let_def split: if_splits)
qed

text \<open>
  C13: Permissions can only be taken away.  If \<open>update_page_flags\<close> succeeds,
  every permission the page has afterwards was requested and was there
  before, every other bit of the entry (the frame included) is unchanged, and
  so is every other page.  If it fails nothing changes, and it never panics.
\<close>
theorem update_page_flags_strips:
  "\<exists>r s'. update_page_flags virt flags s = (r, s') \<and> r \<noteq> Panic \<and>
    (if r = Ok () then
      (\<forall>k \<in> {1, 2, 3}. bit (leaf_at (cur_space s') virt) k \<longleftrightarrow> bit (leaf_at (cur_space s) virt) k \<and> bit flags k) \<and>
      (\<forall>k. k \<notin> {1, 2, 3} \<longrightarrow> bit (leaf_at (cur_space s') virt) k = bit (leaf_at (cur_space s) virt) k) \<and>
      (\<forall>k \<in> {1, 2, 3}. bit flags k \<longrightarrow> bit (leaf_at (cur_space s) virt) k) \<and>
      (\<forall>v i. (v, i) \<noteq> (vpn1 virt, vpn0 virt) \<longrightarrow> leaf (cur_space s') v i = leaf (cur_space s) v i) \<and>
      local_change s s'
     else s' = s)"
proof -
  obtain r s' where u: "update_page_flags virt flags s = (r, s')" by fastforce
  let ?v = "vpn1 virt" and ?i = "vpn0 virt"
  from update_page_flags_cases [OF u] show ?thesis
  proof (elim disjE exE conjE)
    fix e1 e2 e'
    assume 2: "r = Ok ()" "s' = set_pte ?v ?i e' s" "l1_valid ?v s"
      and e: "strip_flag flags MF_X FLG_X (pte ?v ?i s) = Ok e1" "strip_flag flags MF_R FLG_R e1 = Ok e2"
      "strip_flag flags MF_W FLG_W e2 = Ok e'"
    have "leaf (cur_space s') v i = (if v = ?v \<and> i = ?i then e' else leaf (cur_space s) v i)" for v i
      using leaf_set_pte [of ?v ?i e' s v i] 2(2,3) by simp
    moreover have "leaf_at (cur_space s) virt = pte ?v ?i s" using leaf_pte [of s ?v ?i] 2(3) by simp
    ultimately show ?thesis using u 2(1,2) strip_bits [OF e] by auto
  qed (use u in auto)
qed

lemma demo_strip: "fst (update_page_flags 0x400000 MF_R demo_two) = Ok ()"
proof -
  have l1: "l1_valid (Suc 0) demo_two"
    by (simp add: l1_valid_bit demo_two_def one_page_def windows_only_def table_entry_bit)
  have e: "pte (Suc 0) 0 demo_two = demo_entry"
    using leaf_pte [of demo_two "Suc 0" 0] l1 demo_leaf(1) demo_two_spaces demo_vpn by (simp add: two_spaces_def)
  have b: "\<not> bit demo_entry 3" "bit demo_entry 1" "bit demo_entry (Suc 0)"
    by (simp_all add: demo_entry_def mk_entry_bit map_flags_bit translate_flags_bit bit_simps)
  have m: "MF_R AND (MF_R OR MF_W OR MF_X) \<noteq> 0" by (simp add: MF_R_def MF_W_def MF_X_def)
  show ?thesis using l1 e b m demo_entry_bits(2,4) demo_vpn
    by (simp add: update_page_flags_def Let_def strip_flag_def bit_simps)
qed

theorem update_page_flags_strips_witness:
  "bit (leaf_at (cur_space demo_two) 0x400000) 2 \<and>
   \<not> bit (leaf_at (cur_space (snd (update_page_flags 0x400000 MF_R demo_two))) 0x400000) 2"
  using update_page_flags_strips [of "0x400000" MF_R demo_two] demo_strip demo_leaf(1) demo_two_spaces demo_entry_bits(4)
  by (auto simp: two_spaces_def)

lemma page_base: "vpn1 (a AND NOT 0xfff) = vpn1 a" "vpn0 (a AND NOT 0xfff) = vpn0 a" "page_aligned (a AND NOT 0xfff)"
  "(a AND NOT 0xfff) AND 3 = 0"
proof -
  have d: "drop_bit n (a AND NOT (mask 12)) = drop_bit n a" if "n \<ge> 12" for n
    using that by (intro bit_word_eqI) (auto simp: bit_simps dest: bit_imp_le_length)
  show "vpn1 (a AND NOT 0xfff) = vpn1 a" "vpn0 (a AND NOT 0xfff) = vpn0 a"
    unfolding vpn1_def vpn0_def mask_numerals using d [of 22] d [of 12] by (simp_all only: order_refl numeral_le_iff semiring_norm)
  show "page_aligned (a AND NOT 0xfff)"
    unfolding page_aligned_bit mask_numerals by (simp add: bit_simps)
  have three: "(3::usize) = mask 2" by (simp add: mask_eq_exp_minus_1)
  show "(a AND NOT 0xfff) AND 3 = 0" unfolding three mask_numerals
    by (intro bit_word_eqI) (auto simp: bit_simps)
qed

lemmas page_base_simps = page_base [simplified]

definition reserved :: "usize \<Rightarrow> bool" where
  "reserved e \<longleftrightarrow> \<not> bit e 0 \<and> \<not> bit e 8 \<and> (\<exists>n<10. bit e n)"

lemma low_flags: "e AND 0x3ff < (1024 :: usize)" "bit (e AND 0x3ff) n = (n < 10 \<and> bit e n)"
  "((e :: usize) AND 0x3ff = 0) = (\<forall>n<10. \<not> bit e n)"
proof -
  show b: "bit (e AND 0x3ff) n = (n < 10 \<and> bit e n)" for n
    unfolding mask_numerals using bit_imp_le_length [of e n] by (auto simp: bit_simps)
  show "e AND 0x3ff < 1024" unfolding low_bits_iff b by simp
  show "(e AND 0x3ff = 0) = (\<forall>n<10. \<not> bit e n)" unfolding bit_eq_iff b by (auto dest: bit_imp_le_length)
qed

definition zeroable :: "usize \<Rightarrow> bool" where
  "zeroable e \<longleftrightarrow> bit e 1 \<and> bit e 2 \<and> \<not> bit e 4"

lemma ensure_page_early:
  assumes "\<not> mapping_is_kernel (satp s) \<and> address \<ge> USER_AREA_END \<or> bit (leaf_at (cur_space s) address) 0 \<or>
      \<not> reserved (leaf_at (cur_space s) address)"
  shows "ensure_page_exists_inner address s =
    (if \<not> mapping_is_kernel (satp s) \<and> address \<ge> USER_AREA_END then Err OutOfMemory
     else if bit (leaf_at (cur_space s) address) 0 then Ok address else Err BadAddress, s)"
proof -
  let ?e = "pte (vpn1 address) (vpn0 address) s"
  have "?e AND 0x3ff = 0 \<or> bit ?e 8" if "l1_valid (vpn1 address) s" "\<not> bit ?e 0" "\<not> reserved ?e"
    using that by (auto simp: reserved_def low_flags(3))
  then show ?thesis using assms leaf_pte [of s "vpn1 address" "vpn0 address"]
    by (auto simp: ensure_page_exists_inner_def Let_def pagetable_entry_def page_base_simps low_flags(2))
qed

lemma ensure_page_reserved:
  assumes "\<not> (\<not> mapping_is_kernel (satp s) \<and> address \<ge> USER_AREA_END)" "reserved (leaf_at (cur_space s) address)"
    and a: "alloc_page (table_current s) s = (ra, sa)"
  defines "fl \<equiv> leaf_at (cur_space s) address AND 0x3ff"
  shows "ensure_page_exists_inner address s = (case ra of
      Ok p \<Rightarrow> if zeroable (leaf_at (cur_space s) address)
        then (Ok p, set_pte (vpn1 address) (vpn0 address) (mk_entry p (fl OR FLG_VALID OR FLG_U OR FLG_D OR FLG_A))
               (set_pte (vpn1 address) (vpn0 address) (mk_entry p (fl OR FLG_VALID OR FLG_D OR FLG_A)) sa))
        else (Panic, set_pte (vpn1 address) (vpn0 address) (mk_entry p (fl OR FLG_VALID OR FLG_D OR FLG_A)) sa)
    | _ \<Rightarrow> (Panic, sa))"
proof -
  let ?e = "leaf_at (cur_space s) address"
  have v: "l1_valid (vpn1 address) s" and e: "pte (vpn1 address) (vpn0 address) s = ?e"
    using assms(2) leaf_pte [of s "vpn1 address" "vpn0 address"] by (auto simp: reserved_def split: if_splits)
  have nz: "fl \<noteq> 0" "\<not> bit ?e 0" "\<not> bit ?e 8"
    using assms(2) unfolding fl_def low_flags(3) by (auto simp: reserved_def)
  have sp: "spaces sa = spaces s" "satp sa = satp s" using alloc_page_local [OF a] by (auto simp: local_change_def)
  have small: "fl OR FLG_VALID OR FLG_D OR FLG_A < 1024"
    unfolding low_bits_iff fl_def by (auto simp: bit_or_iff low_flags(2))
  have "zeropage (address AND NOT 0xfff) (set_pte (vpn1 address) (vpn0 address) (mk_entry p (fl OR FLG_VALID OR FLG_D OR FLG_A)) sa) =
      (if zeroable ?e then Ok () else Panic, set_pte (vpn1 address) (vpn0 address) (mk_entry p (fl OR FLG_VALID OR FLG_D OR FLG_A)) sa)"
 for p
  proof -
    let ?n = "mk_entry p (fl OR FLG_VALID OR FLG_D OR FLG_A)"
    have "bit ?n 0" "bit ?n 1 = bit ?e 1" "bit ?n 2 = bit ?e 2" "bit ?n 4 = bit ?e 4"
      by (simp_all add: mk_entry_bit [OF small] bit_or_iff) (simp_all add: fl_def low_flags(2))
    moreover have "l1_valid (vpn1 address) sa" using v sp by (simp add: l1_valid_bit)
    ultimately show ?thesis by (simp add: zeropage_def kernel_store_ok_def page_base_simps zeroable_def)
  qed
  then show ?thesis using assms(1) a v e nz
    by (simp add: ensure_page_exists_inner_def Let_def pagetable_entry_def page_base_simps low_flags(2) fl_def split: outcome.split)
qed

text \<open>The entry that backs a reserved page.\<close>

lemma backed_page:
  assumes a: "alloc_page (table_current s) s = (ra, sa)" and p: "ra = Ok p" "page_aligned p"
    and res: "reserved (leaf_at (cur_space s) address)"
  defines "fl \<equiv> leaf_at (cur_space s) address AND 0x3ff"
  defines "s' \<equiv> set_pte (vpn1 address) (vpn0 address) (mk_entry p (fl OR FLG_VALID OR FLG_U OR FLG_D OR FLG_A))
               (set_pte (vpn1 address) (vpn0 address) (mk_entry p (fl OR FLG_VALID OR FLG_D OR FLG_A)) sa)"
  shows "local_change s s'" "virt_to_phys (address AND NOT 0xfff) s' = Ok p" "bit (leaf_at (cur_space s') address) 4"
    and "k \<in> {1, 2, 3} \<Longrightarrow> bit (leaf_at (cur_space s') address) k = bit (leaf_at (cur_space s) address) k"
    and "(v, i) \<noteq> (vpn1 address, vpn0 address) \<Longrightarrow> leaf (cur_space s') v i = leaf (cur_space s) v i"
    and "l1 (cur_space s') = l1 (cur_space s)"
proof -
  let ?e = "leaf_at (cur_space s) address" and ?n = "mk_entry p (fl OR FLG_VALID OR FLG_U OR FLG_D OR FLG_A)"
  have l1: "l1_valid (vpn1 address) s"
    using res leaf_pte [of s "vpn1 address" "vpn0 address"] by (auto simp: reserved_def split: if_splits)
  have sp: "spaces sa = spaces s" "satp sa = satp s" "local_change s sa"
    using alloc_page_local [OF a] by (auto simp: local_change_def)
  have small: "fl OR FLG_VALID OR FLG_U OR FLG_D OR FLG_A < 1024"
    unfolding low_bits_iff fl_def by (auto simp: bit_or_iff low_flags(2))
  have nb: "bit ?n 0" "\<not> bit ?n 8" "bit ?n 4" "k \<in> {1, 2, 3} \<Longrightarrow> bit ?n k = bit ?e k" "entry_phys ?n = p" for k
    using res entry_phys_mk [OF p(2) small] unfolding fl_def
    by (auto simp: mk_entry_bit [OF small [unfolded fl_def]] bit_or_iff low_flags(2) reserved_def)
  have lf: "leaf (spaces s' (satp s)) v i =
      (if v = vpn1 address \<and> i = vpn0 address then ?n else leaf (cur_space s) v i)" for v i
    using l1 sp by (simp add: s'_def spaces_set_pte leaf_def l1_valid_bit)
  show "local_change s s'" using sp(3) local_change_trans local_change_upd(1) unfolding s'_def by blast
  have st: "satp s' = satp s" using sp by (simp add: s'_def)
  show "virt_to_phys (address AND NOT 0xfff) s' = Ok p"
    using lf nb st by (simp add: virt_to_phys_leaf leaf_phys_def page_base_simps)
  show "bit (leaf_at (cur_space s') address) 4" using lf nb st by simp
  show "k \<in> {1, 2, 3} \<Longrightarrow> bit (leaf_at (cur_space s') address) k = bit ?e k" using lf nb st by simp
  show "(v, i) \<noteq> (vpn1 address, vpn0 address) \<Longrightarrow> leaf (cur_space s') v i = leaf (cur_space s) v i" using lf st by auto
  show "l1 (cur_space s') = l1 (cur_space s)" using sp by (simp add: s'_def spaces_set_pte)
qed

text \<open>
  C10: Demand paging.  The result of \<open>ensure_page_exists_inner\<close> is determined
  on every branch.  Outside the kernel an address beyond the user area gives
  \<open>OutOfMemory\<close>; otherwise a valid page gives its address back, and a page that
  is lent or not reserved gives \<open>BadAddress\<close>, all without any change.  For a
  reserved page the function panics if main memory is exhausted, and also if
  the reservation is not both readable and writable or is already marked as a
  user page, because the kernel then faults when it zeroes the new page.  In
  all other cases it takes a page that nobody owned, gives it to the current
  process, maps it at the faulting page with the reserved permissions and for
  user access, and changes no other entry, no root table and no other space.
\<close>
theorem ensure_page_backs_reservation:
  assumes "tables_inv s"
  shows "let e = leaf_at (cur_space s) address; run = ensure_page_exists_inner address s in
     if \<not> mapping_is_kernel (satp s) \<and> address \<ge> USER_AREA_END then run = (Err OutOfMemory, s)
     else if bit e 0 then run = (Ok address, s)
     else if \<not> reserved e then run = (Err BadAddress, s)
     else if None \<notin> set (mem_allocs s) \<or> \<not> (has_flag e FLG_R \<and> has_flag e FLG_W \<and> \<not> has_flag e FLG_U) then fst run = Panic
     else \<exists>p s'. run = (Ok p, s') \<and> tables_inv s' \<and> local_change s s' \<and>
       page_aligned p \<and> owner p s = None \<and> owner p s' = Some (table_current s) \<and>
       (\<forall>b. page_aligned b \<longrightarrow> b \<noteq> p \<longrightarrow> owner b s' = owner b s) \<and>
       virt_to_phys (address AND NOT 0xfff) s' = Ok p \<and> has_flag (leaf_at (cur_space s') address) FLG_U \<and>
       (\<forall>k \<in> {1, 2, 3}. bit (leaf_at (cur_space s') address) k = bit e k) \<and>
       (\<forall>v i. (v, i) \<noteq> (vpn1 address, vpn0 address) \<longrightarrow> leaf (cur_space s') v i = leaf (cur_space s) v i) \<and>
       l1 (cur_space s') = l1 (cur_space s)"
proof (cases "\<not> mapping_is_kernel (satp s) \<and> address \<ge> USER_AREA_END \<or> bit (leaf_at (cur_space s) address) 0 \<or>
      \<not> reserved (leaf_at (cur_space s) address)")
  case True
  then show ?thesis using ensure_page_early [OF True] by (auto simp: Let_def)
next
  case False
  let ?e = "leaf_at (cur_space s) address"
  obtain ra sa where a: "alloc_page (table_current s) s = (ra, sa)" by fastforce
  note run = ensure_page_reserved [OF _ _ a, of address]
  show ?thesis
  proof (cases "None \<in> set (mem_allocs s) \<and> zeroable ?e")
    case True
    then obtain p where p: "ra = Ok p" "page_aligned p" "owner p s = None" "owner p sa = Some (table_current s)" "tables_inv sa"
        "\<forall>b. page_aligned b \<longrightarrow> b \<noteq> p \<longrightarrow> owner b sa = owner b s"
      using alloc_page_spec [OF assms, of "table_current s"] a by (cases ra) auto
    show ?thesis using False True run p backed_page [OF a p(1,2), of address] by (auto simp: Let_def zeroable_def)
  next
    case F: False
    then have "fst (ensure_page_exists_inner address s) = Panic"
      using False run alloc_page_full [OF assms, of "table_current s"] a by (auto split: outcome.split)
    then show ?thesis using False F by (auto simp: Let_def zeroable_def)
  qed
qed

theorem ensure_page_backs_reservation_witness:
  "(\<exists>p s'. ensure_page_exists_inner 0x400abc (set_pte 1 0 0x6 demo_two) = (Ok p, s') \<and>
     owner p s' = Some 1 \<and> virt_to_phys 0x400000 s' = Ok p) \<and>
   fst (ensure_page_exists_inner 0x400abc (set_pte 1 0 0x2 demo_two)) = Panic"
proof -
  have inv: "tables_inv (set_pte (Suc 0) 0 x demo_two)" for x using demo_two_spaces by (simp add: two_spaces_def)
  have l1: "l1_valid (Suc 0) (set_pte (Suc 0) 0 x demo_two)" for x
    by simp (simp add: l1_valid_bit demo_two_def one_page_def windows_only_def table_entry_bit)
  have u: "\<not> USER_AREA_END \<le> 0x400abc" by (simp add: USER_AREA_END_def)
  have t: "table_current (set_pte (Suc 0) 0 x demo_two) = 1" "None \<in> set (mem_allocs (set_pte (Suc 0) 0 x demo_two))" for x
    by (simp_all add: set_pte_def demo_two_def demo_mem_def)
  have lf: "leaf_at (cur_space (set_pte (Suc 0) 0 x demo_two)) 0x400abc = x" for x
    using leaf_pte [of "set_pte (Suc 0) 0 x demo_two" "Suc 0" 0] l1 by (simp add: vpn1_def vpn0_def)
  note lf = lf [simplified]
  have b: "\<not> bit (6 :: usize) 0" "bit (6 :: usize) 1" "bit (6 :: usize) (Suc 0)" "bit (6 :: usize) 2" "\<not> bit (6 :: usize) 4"
    "\<not> bit (6 :: usize) 8" "\<not> bit (2 :: usize) 0" "bit (2 :: usize) 1" "\<not> bit (2 :: usize) 2" "\<not> bit (2 :: usize) 8"
    by (simp_all add: bit_iff_odd)
  have "reserved 6" "reserved 2" unfolding reserved_def using b by (auto intro!: exI [of _ 1])
  then show ?thesis
    using ensure_page_backs_reservation [OF inv, of 6 "0x400abc"] ensure_page_backs_reservation [OF inv, of 2 "0x400abc"] b u
    by (auto simp: Let_def lf t)
qed

text \<open>
  C17: A failed loan is not rolled back.  If the lender can access the page
  and mapping it in the borrower fails (for example because no page is left
  for a leaf table), \<open>lend_page_inner\<close> reports the error but leaves the
  lender's entry marked as shared and invalid: the lender has lost the page.
\<close>
theorem lend_failure_strands:
  assumes "two_spaces src dst s" "user_page a" "user_page d" "virt_to_phys a s = Ok phys"
    and "lend_page_inner src a pid dst d mutable s = (Err e, s')"
  shows "virt_to_phys a s' = Err ShareViolation \<and> spaces s' dst = spaces s dst"
proof -
  let ?e = "leaf_at (spaces s src) a"
  have st: "satp s = src" using assms(1) by (simp add: two_spaces_def)
  have ok: "bit ?e 0" "\<not> bit ?e 8"
    using assms(4) st by (auto simp: virt_to_phys_leaf leaf_phys_def split: if_splits)
  then have v: "l1_valid (vpn1 a) s" using st by (auto simp: leaf_def l1_valid_bit split: if_splits)
  have pe: "pagetable_entry a s = Ok (vpn1 a, vpn0 a)" using v user_page_facts(2) assms(2) by (simp add: pagetable_entry_Ok)
  have e: "pte (vpn1 a) (vpn0 a) s = ?e" using v st leaf_pte [of s] by simp
  obtain s1 where m: "map_page_inner pid (entry_phys ?e) d (if mutable \<and> bit ?e 2 then MF_R OR MF_W else MF_R) (pid \<noteq> 1)
      (activate_mapping dst (set_pte (vpn1 a) (vpn0 a) (lent_entry ?e) s)) = (Err e, s1)"
    and s': "s' = activate_mapping src s1"
    using assms(5) pe ok e unfolding lent_entry_def lend_page_inner_def
    by (auto simp: Let_def bit_simps split: prod.splits outcome.splits if_splits)
  note c = cross_map [OF assms(1,3) user_page_facts(3) [OF assms(2)] v m]
  show ?thesis using c(4) [of "vpn1 a" "vpn0 a"] c(6) s'
    by (simp add: virt_to_phys_leaf leaf_phys_def lent_entry_bit)
qed

theorem lend_failure_strands_witness:
  "\<exists>s'. lend_page_inner 0x80800001 0x400000 3 0x80c00002 0x40000000 True (demo_two\<lparr>ram_size := 0, mem_allocs := []\<rparr>) = (Err OutOfMemory, s') \<and>
     virt_to_phys 0x400000 s' = Err ShareViolation"
proof -
  let ?s = "demo_two\<lparr>ram_size := 0, mem_allocs := []\<rparr>"
  have st: "satp ?s = 0x80800001" "spaces ?s = spaces demo_two" by (simp_all add: demo_two_def)
  have two: "two_spaces 0x80800001 0x80c00002 ?s"
    using demo_windows by (simp add: two_spaces_def) (simp add: demo_two_def demo_mem_def tables_inv_def region_ok_def)
  have v: "virt_to_phys 0x400000 ?s = Ok 0x40002000"
    using demo_leaf(1) demo_entry_bits st by (simp add: virt_to_phys_leaf leaf_phys_def)
  have l1: "l1_valid (Suc 0) ?s"
    by (simp add: l1_valid_bit demo_two_def one_page_def windows_only_def table_entry_bit)
  have pe: "pagetable_entry 0x400000 ?s = Ok (Suc 0, 0)" using l1 demo_vpn demo_user_page user_page_facts(2)
    by (simp add: pagetable_entry_Ok)
  have e: "pte (Suc 0) 0 ?s = demo_entry" using leaf_pte [of ?s "Suc 0" 0] l1 demo_leaf(1) st demo_vpn by simp
  have al: "alloc_page 3 (activate_mapping q (set_pte (Suc 0) 0 x ?s)) = (Err OutOfMemory, activate_mapping q (set_pte (Suc 0) 0 x ?s))" for x q
    by (simp add: alloc_page_def Let_def set_pte_def) (simp add: demo_two_def demo_mem_def)
  have w: "spaces (set_pte (Suc 0) 0 x ?s) 0x80c00002 = windows_only" for x
    by (simp add: spaces_set_pte) (simp add: demo_two_def)
  have nv: "\<not> l1_valid 256 (activate_mapping 0x80c00002 (set_pte (Suc 0) 0 x ?s))" for x
    using w [of x] by (simp add: l1_valid_bit windows_only_def)
  have "map_page_inner 3 p 0x40000000 req u (activate_mapping 0x80c00002 (set_pte (Suc 0) 0 x ?s)) =
      (Err OutOfMemory, activate_mapping 0x80c00002 (set_pte (Suc 0) 0 x ?s))" for p req u x
    using map_page_inner_eq [of "activate_mapping 0x80c00002 (set_pte (Suc 0) 0 x ?s)" "0x40000000" 3 p req u]
      w [of x] nv [of x] al demo_windows(1) demo_vpn by simp
  then have "\<exists>s'. lend_page_inner 0x80800001 0x400000 3 0x80c00002 0x40000000 True ?s = (Err OutOfMemory, s')"
    using demo_entry_bits by (simp add: lend_page_inner_def pe e Let_def)
  then show ?thesis using lend_failure_strands [OF two demo_user_page v] by blast
qed
end
