(* ===== verification/Mem_Manager.thy ===== *)
theory Mem_Manager
  imports Page_Table
begin

text \<open>
  The rest of the memory manager of \<open>kernel/src/mem.rs\<close>: the search for a free
  range of virtual addresses, reservation and mapping of ranges, unmapping,
  the per-page transfers, the release of the memory of a process and the
  change of permissions of a range; and \<open>MemoryMapping::allocate\<close> of
  \<open>kernel/src/arch/riscv/mem.rs\<close>, which builds a new address space.

  Pages that only the kernel's own program text touches (the zeroing of user
  pages) have no trace in the state.
\<close>

section \<open>Virtual addresses\<close>

definition range_free :: "usize \<Rightarrow> usize \<Rightarrow> 'z mstate_scheme \<Rightarrow> bool" where
  "range_free start sz s = list_all (\<lambda>p. address_available p s) (step_by_page start (start + sz))"

text \<open>The two search loops: from the last address handed out to the end, then from the start.\<close>

definition search_range :: "usize \<Rightarrow> usize \<Rightarrow> usize \<Rightarrow> usize \<Rightarrow> 'z mstate_scheme \<Rightarrow> usize option" where
  "search_range start end_addr initial sz s =
     (case find (\<lambda>a. range_free a sz s) (step_by_page initial (end_addr - sz)) of
        Some a \<Rightarrow> Some a
      | None \<Rightarrow> find (\<lambda>a. range_free a sz s) (step_by_page start initial))"

definition find_virtual_address :: "usize \<Rightarrow> usize \<Rightarrow> MemoryType \<Rightarrow> ('z mstate_scheme, usize) kop" where
  "find_virtual_address virt_ptr sz kind s =
     (if virt_ptr \<noteq> 0 then (Ok virt_ptr, s)
      else let p = cur_inner s in (case kind of
          MT_Stack \<Rightarrow> (Err BadAddress, s)
        | MT_Heap \<Rightarrow>
            (let new_virt = mem_heap_base p + mem_heap_size p + PAGE_SIZE
             in if new_virt + sz > mem_heap_base p + mem_heap_max p then (Err OutOfMemory, s) else (Ok new_virt, s))
        | MT_Default \<Rightarrow>
            (case search_range (mem_default_base p) (mem_default_base p + 0x10000000) (mem_default_last p) sz s of
               None \<Rightarrow> (Err BadAddress, s)
             | Some a \<Rightarrow> (Ok a, upd_inner (\<lambda>p. p\<lparr>mem_default_last := a\<rparr>) s))
        | MT_Messages \<Rightarrow>
            (case search_range (mem_message_base p) (mem_message_base p + 0x400000) (mem_message_last p) sz s of
               None \<Rightarrow> (Err BadAddress, s)
             | Some a \<Rightarrow> (Ok a, upd_inner (\<lambda>p. p\<lparr>mem_message_last := a\<rparr>) s))))"

definition reserve_range :: "usize \<Rightarrow> usize \<Rightarrow> MemoryFlags \<Rightarrow> ('z mstate_scheme, memory_range) kop" where
  "reserve_range virt_ptr sz flags =
     bindM (find_virtual_address virt_ptr sz MT_Default) (\<lambda>virt.
       if virt AND 0xfff \<noteq> 0 then failM BadAlignment
       else if sz AND 0xfff \<noteq> 0 then failM BadAlignment
       else thenM (for_each (step_by_page virt (virt + sz)) (\<lambda>a. reserve_address a flags))
              (liftO (memory_range_new virt_ptr sz)))"

definition map_zeroed_page :: "PID \<Rightarrow> bool \<Rightarrow> ('z mstate_scheme, usize) kop" where
  "map_zeroed_page pid is_user =
     bindM (find_virtual_address 0 PAGE_SIZE MT_Default) (\<lambda>virt.
     bindM (alloc_page pid) (\<lambda>phys.
     bindM (tryM (map_page_inner pid phys virt (MF_R OR MF_W) False)) (\<lambda>r. case r of
         Inl e \<Rightarrow> thenM (ignoreM (release_page phys pid)) (failM e)
       | Inr _ \<Rightarrow> thenM (bzero virt (virt + PAGE_SIZE))
                   (thenM (if is_user then hand_page_to_user virt else retM ()) (retM virt)))))"

section \<open>Mapping a range\<close>

text \<open>The search for a run of free pages for a device: start of the run and its length so far.\<close>

fun device_scan :: "nat \<Rightarrow> PID option list \<Rightarrow> nat \<Rightarrow> nat option \<Rightarrow> nat \<Rightarrow> nat option \<times> nat" where
  "device_scan pages [] index range_start run = (range_start, run)"
| "device_scan pages (entry # es) index range_start run =
     (let (range_start', run') =
        (if entry = None then (case range_start of Some a \<Rightarrow> (Some a, run + 1) | None \<Rightarrow> (Some index, 1))
         else (None, 0))
      in if run' \<ge> pages then (range_start', run') else device_scan pages es (index + 1) range_start' run')"

definition device_block :: "usize \<Rightarrow> ('z mstate_scheme, usize) kop" where
  "device_block sz s =
     (let pages = unat (sz div PAGE_SIZE) in
      case device_scan pages (mem_allocs s) 0 None 0 of
        (Some start, run) \<Rightarrow>
          (if run \<ge> pages then (Ok (of_nat start * PAGE_SIZE + ram_start s), s) else (Err OutOfMemory, s))
      | (None, _) \<Rightarrow> (Err OutOfMemory, s))"

text \<open>Claim every page of the range; on an error release the ones claimed so far.\<close>

primrec claim_range :: "usize \<Rightarrow> PID \<Rightarrow> usize list \<Rightarrow> ('z mstate_scheme, unit) kop" where
  "claim_range phys pid [] = retM ()"
| "claim_range phys pid (a # as) =
     bindM (tryM (claim_page a pid)) (\<lambda>r. case r of
        Inl err \<Rightarrow> thenM (for_each (step_by_page phys a) (\<lambda>b. ignoreM (release_page b pid))) (failM err)
      | Inr _ \<Rightarrow> claim_range phys pid as)"

text \<open>Map every page of the range; on an error undo the pages before it.\<close>

primrec map_pages :: "usize \<Rightarrow> usize \<Rightarrow> PID \<Rightarrow> MemoryFlags \<Rightarrow> usize list \<Rightarrow> ('z mstate_scheme, unit) kop" where
  "map_pages phys virt pid flags [] = retM ()"
| "map_pages phys virt pid flags (off # offs) =
     bindM (tryM (map_page_inner pid (off + phys) (off + virt) flags False)) (\<lambda>r. case r of
        Inl e \<Rightarrow> thenM (for_each (step_by_page 0 off) (\<lambda>u.
                    thenM (ignoreM (unmap_page_inner (u + virt))) (ignoreM (release_page (u + phys) pid))))
                 (failM e)
      | Inr _ \<Rightarrow> map_pages phys virt pid flags offs)"

text \<open>A request for memory-mapped flash: reserve read-only pages that the swapper fills.\<close>

definition map_virt_range :: "usize \<Rightarrow> usize \<Rightarrow> ('z mstate_scheme, memory_range) kop" where
  "map_virt_range virt_ptr sz =
     (let start = virt_ptr AND NOT (PAGE_SIZE - 1);
          end_addr = (virt_ptr + sz + PAGE_SIZE - 1) AND NOT (PAGE_SIZE - 1)
      in thenM (for_each (step_by_page start end_addr) (\<lambda>virt.
            thenM (reserve_address virt (MF_R OR MF_P))
              (bindM (\<lambda>s. (pagetable_entry virt s, s)) (\<lambda>vi. case vi of (v, i) \<Rightarrow>
                 modM (\<lambda>s. set_pte v i (pte v i s OR FLG_U) s)))))
          (liftO (memory_range_new start (end_addr - start))))"

definition map_range :: "usize \<Rightarrow> usize \<Rightarrow> usize \<Rightarrow> PID \<Rightarrow> MemoryFlags \<Rightarrow> MemoryType \<Rightarrow> ('z mstate_scheme, memory_range) kop" where
  "map_range phys_ptr virt_ptr sz pid flags kind =
     bindM (find_virtual_address virt_ptr sz kind) (\<lambda>virt.
       let device_ram = (flags AND MF_DEV = MF_DEV \<and> phys_ptr = 0)
       in if phys_ptr = 0 \<and> flags AND MF_VIRT = MF_VIRT \<and> virt_ptr AND MMAP_VIRT_BASE = MMAP_VIRT_BASE
          then map_virt_range virt_ptr sz
          else if phys_ptr = 0 \<and> \<not> device_ram then reserve_range virt sz flags
          else bindM (if device_ram then device_block sz else retM phys_ptr) (\<lambda>phys.
               thenM (claim_range phys pid (step_by_page phys (phys + sz)))
              (thenM (map_pages phys virt pid flags (step_by_page 0 sz))
              (thenM (if device_ram
                      then thenM (bzero virt (virt + sz))
                             (for_each (step_by_page 0 sz) (\<lambda>off. unwrapM (hand_page_to_user (virt + off))))
                      else retM ())
                (liftO (memory_range_new virt sz))))))"

section \<open>Single pages\<close>

definition unmap_page :: "usize \<Rightarrow> ('z mstate_scheme, usize) kop" where
  "unmap_page virt s =
     (case virt_to_phys virt s of
        Ok phys \<Rightarrow> thenM (ignoreM (release_page phys (table_current s))) (unmap_page_inner virt) s
      | _ \<Rightarrow> unmap_page_inner virt s)"

definition move_page :: "PID \<Rightarrow> usize \<Rightarrow> usize \<Rightarrow> PID \<Rightarrow> usize \<Rightarrow> usize \<Rightarrow> ('z mstate_scheme, unit) kop" where
  "move_page src_pid src_mapping src_addr dest_pid dest_mapping dest_addr =
     bindM (\<lambda>s. (virt_to_phys src_addr s, s)) (\<lambda>phys_addr.
     thenM (move_page_inner src_mapping src_addr dest_pid dest_mapping dest_addr)
       (claim_release_move phys_addr dest_pid (MoveFrom src_pid)))"

definition lend_page :: "usize \<Rightarrow> usize \<Rightarrow> PID \<Rightarrow> usize \<Rightarrow> usize \<Rightarrow> bool \<Rightarrow> ('z mstate_scheme, usize) kop" where
  "lend_page src_mapping src_addr dest_pid dest_mapping dest_addr mutable =
     lend_page_inner src_mapping src_addr dest_pid dest_mapping dest_addr mutable"

definition unlend_page :: "usize \<Rightarrow> usize \<Rightarrow> PID \<Rightarrow> usize \<Rightarrow> usize \<Rightarrow> ('z mstate_scheme, usize) kop" where
  "unlend_page src_mapping src_addr dest_pid dest_mapping dest_addr =
     return_page_inner src_mapping src_addr dest_pid dest_mapping dest_addr"

definition ensure_page_exists :: "usize \<Rightarrow> ('z mstate_scheme, unit) kop" where
  "ensure_page_exists address = thenM (ensure_page_exists_inner address) (retM ())"

section \<open>Whole processes and ranges\<close>

text \<open>
  The new owner of one entry.  \<open>page_is_lent\<close> expects a virtual address and is
  given the physical address of the page, as in the source.
\<close>

definition release_entry :: "PID \<Rightarrow> 'z mstate_scheme \<Rightarrow> PID option \<Rightarrow> usize \<Rightarrow> PID option" where
  "release_entry pid s old phys_addr =
     (if old = Some pid then (if page_is_lent phys_addr s then Some 1 else None) else old)"

definition release_table :: "(nat \<Rightarrow> usize option) \<Rightarrow> PID \<Rightarrow> 'z mstate_scheme \<Rightarrow> PID option list \<Rightarrow> PID option list kresult" where
  "release_table address pid s tab =
     (if \<exists>idx \<in> set [0 ..< length tab]. tab ! idx = Some pid \<and> address idx = None then Panic
      else Ok (map (\<lambda>idx. case address idx of
         None \<Rightarrow> tab ! idx | Some a \<Rightarrow> release_entry pid s (tab ! idx) a) [0 ..< length tab]))"

definition release_all_memory_for_process :: "PID \<Rightarrow> ('z mstate_scheme, unit) kop" where
  "release_all_memory_for_process pid =
     bindM (\<lambda>s. (release_table (\<lambda>idx. allocation_offset_to_address idx s) pid s (mem_allocs s), s)) (\<lambda>tab.
     thenM (modM (\<lambda>s. s\<lparr>mem_allocs := tab\<rparr>))
    (bindM (\<lambda>s. (release_table (\<lambda>idx. allocation_offset_to_address_extra idx s) pid s (extra_allocs s), s)) (\<lambda>tab.
       modM (\<lambda>s. s\<lparr>extra_allocs := tab\<rparr>))))"

definition check_new_flags :: "MemoryFlags \<Rightarrow> usize \<Rightarrow> ('z mstate_scheme, unit) kop" where
  "check_new_flags flags virt s =
     (case page_flags virt s of
        None \<Rightarrow> (Err MemoryInUse, s)
      | Some existing_flags \<Rightarrow>
          (if flags_not existing_flags AND flags \<noteq> 0 then (Err MemoryInUse, s) else (Ok (), s)))"

definition update_memory_flags :: "memory_range \<Rightarrow> MemoryFlags \<Rightarrow> ('z mstate_scheme, unit) kop" where
  "update_memory_flags rng flags =
     (let virt = mr_addr rng; sz = mr_size rng
      in if virt AND (PAGE_SIZE - 1) \<noteq> 0 then failM BadAlignment
         else if sz AND (PAGE_SIZE - 1) \<noteq> 0 then failM BadAlignment
         else thenM (for_each (step_by_page virt (virt + sz)) (check_new_flags flags))
                (for_each (step_by_page virt (virt + sz)) (\<lambda>a.
                   thenM (check_new_flags flags a) (update_page_flags a flags))))"

section \<open>A new address space\<close>

text \<open>
  The four pages of a new space: root table, table of the windows, table of
  the process superpage, and context page.  The kernel's superpage 1023 is
  shared: its root entry is copied from the active space.  The context page
  is all zero, which the fields of \<open>space\<close> spell out.
\<close>

definition zero_inner :: process_inner where
  "zero_inner = \<lparr>mem_default_base = 0, mem_default_last = 0, mem_message_base = 0, mem_message_last = 0,
     mem_heap_base = 0, mem_heap_size = 0, mem_heap_max = 0, connection_map = replicate 32 None, inner_pid = 0\<rparr>"

definition page_entry :: "usize \<Rightarrow> usize" where
  "page_entry phys = push_bit 10 (drop_bit 12 phys) OR FLG_VALID OR FLG_R OR FLG_W OR FLG_D OR FLG_A"

definition new_space :: "usize \<Rightarrow> usize \<Rightarrow> usize \<Rightarrow> usize \<Rightarrow> space \<Rightarrow> space" where
  "new_space root_phys pages_l0_phys process_l0_phys context_phys current =
     \<lparr>l1 = (\<lambda>_. 0)(1023 := l1 current 1023, 1022 := table_entry process_l0_phys, 1021 := table_entry pages_l0_phys),
      l0 = (\<lambda>_ _. 0)(1022 := (\<lambda>_. 0)(0 := page_entry root_phys, 1 := page_entry context_phys),
                     1021 := (\<lambda>_. 0)(1022 := page_entry process_l0_phys, 1021 := page_entry pages_l0_phys),
                     1023 := l0 current 1023),
      hardware_thread = 0, inner = zero_inner, last_tid_allocated = 0, threads = replicate 31 thread_default\<rparr>"

definition new_satp :: "PID \<Rightarrow> usize \<Rightarrow> usize" where
  "new_satp pid root_phys = 0x80000000 OR push_bit 22 (ucast pid) OR drop_bit 12 root_phys"

definition allocate_mapping :: "usize \<Rightarrow> PID \<Rightarrow> ('z mstate_scheme, usize) kop" where
  "allocate_mapping old_satp pid =
     (if old_satp \<noteq> 0 then failM MemoryInUse
      else bindM (getM table_current) (\<lambda>current_pid.
       bindM (map_zeroed_page current_pid False) (\<lambda>root_virt.
       bindM (unwrapM (\<lambda>s. (virt_to_phys root_virt s, s))) (\<lambda>root_phys.
       bindM (map_zeroed_page current_pid False) (\<lambda>pages_virt.
       bindM (\<lambda>s. (virt_to_phys pages_virt s, s)) (\<lambda>pages_phys.
       bindM (map_zeroed_page current_pid False) (\<lambda>process_virt.
       bindM (\<lambda>s. (virt_to_phys process_virt s, s)) (\<lambda>process_phys.
       bindM (map_zeroed_page current_pid False) (\<lambda>context_virt.
       bindM (\<lambda>s. (virt_to_phys context_virt s, s)) (\<lambda>context_phys.
       thenM (for_each [root_phys, pages_phys, process_phys, context_phys] (\<lambda>p. move_page_raw p pid))
      (thenM (for_each [root_virt, pages_virt, process_virt, context_virt]
                (\<lambda>v. thenM (unmap_page_inner v) (retM ())))
      (bindM (getM (\<lambda>s. new_space root_phys pages_phys process_phys context_phys (cur_space s))) (\<lambda>sp.
       thenM (modM (\<lambda>s. s\<lparr>spaces := (spaces s)(new_satp pid root_phys := sp)\<rparr>))
         (retM (new_satp pid root_phys)))))))))))))))"

end
