(* ===== verification/Thread_Ctx.thy ===== *)
theory Thread_Ctx
  imports Mem_Manager
begin

text \<open>
  The thread contexts of \<open>kernel/src/arch/riscv/process.rs\<close> and the frame
  set-up of \<open>kernel/src/arch/riscv/syscall.rs\<close>.

  The context page of a process is visible at a fixed address of its own
  address space, so every function works on the active space.  The process
  table of the architecture (which ids are in use, and the current one) is
  \<open>proc_table\<close> and \<open>table_current\<close>.  The privilege bit that \<open>invoke\<close> sets in
  \<open>sstatus\<close> only matters for the return to user code and is not modelled.
\<close>

section \<open>Constants\<close>

definition MAX_THREAD :: nat where "MAX_THREAD = 31"
definition IRQ_TID :: TID where "IRQ_TID = 0"
definition EXCEPTION_TID :: TID where "EXCEPTION_TID = 1"
definition INITIAL_TID :: TID where "INITIAL_TID = 2"
definition IRQ_TID_SENTINAL :: TID where "IRQ_TID_SENTINAL = 255"
definition MAX_PROCESS_COUNT :: nat where "MAX_PROCESS_COUNT = 64"
definition RETURN_FROM_ISR :: usize where "RETURN_FROM_ISR = 0xff802000"
definition EXIT_THREAD :: usize where "EXIT_THREAD = 0xff803000"
definition RETURN_FROM_EXCEPTION_HANDLER :: usize where "RETURN_FROM_EXCEPTION_HANDLER = 0xff804000"
definition RETURN_FROM_SWAPPER :: usize where "RETURN_FROM_SWAPPER = 0xff808000"

lemmas tid_defs = IRQ_TID_def EXCEPTION_TID_def INITIAL_TID_def IRQ_TID_SENTINAL_def

section \<open>The current process\<close>

text \<open>\<open>Process::current\<close> asserts that the table and the hardware agree on the process.\<close>

definition process_current :: "('z mstate_scheme, PID) kop" where
  "process_current s =
     (if ucast (table_current s) = drop_bit 22 (satp s) AND 0x1ff then (Ok (table_current s), s) else (Panic, s))"

definition set_current_pid :: "PID \<Rightarrow> ('z mstate_scheme, unit) kop" where
  "set_current_pid pid s =
     (let pid_idx = unat (pid - 1)
      in if pid_idx < length (proc_table s) \<and> proc_table s ! pid_idx
         then (Ok (), s\<lparr>table_current := pid\<rparr>) else (Panic, s))"

definition arch_destroy :: "PID \<Rightarrow> ('z mstate_scheme, unit) kop" where
  "arch_destroy pid s =
     (let pid_idx = unat pid - 1
      in if pid_idx \<ge> length (proc_table s) then (Panic, s)
         else (Ok (), s\<lparr>proc_table := (proc_table s)[pid_idx := False]\<rparr>))"

section \<open>Threads\<close>

definition fixup_irq :: "TID \<Rightarrow> TID" where
  "fixup_irq tid = (if tid = IRQ_TID_SENTINAL then 0 else tid)"

text \<open>
  \<open>thread\<close> and \<open>thread_mut\<close> assert \<open>tid <= threads.len()\<close> and then index, so
  the index check is the one that decides.
\<close>

definition thread_index :: "TID \<Rightarrow> ('z mstate_scheme, nat) kop" where
  "thread_index tid s =
     (let i = unat (fixup_irq tid)
      in if \<not> i \<le> length (threads (cur_space s)) then (Panic, s)
         else if \<not> i < length (threads (cur_space s)) then (Panic, s)
         else (Ok i, s))"

definition get_thread :: "nat \<Rightarrow> 'z mstate_scheme \<Rightarrow> thread" where
  "get_thread i s = threads (cur_space s) ! i"

definition put_thread :: "nat \<Rightarrow> thread \<Rightarrow> 'z mstate_scheme \<Rightarrow> 'z mstate_scheme" where
  "put_thread i t = upd_space (\<lambda>sp. sp\<lparr>threads := (threads sp)[i := t]\<rparr>)"

definition upd_thread :: "nat \<Rightarrow> (thread \<Rightarrow> thread) \<Rightarrow> 'z mstate_scheme \<Rightarrow> 'z mstate_scheme" where
  "upd_thread i f s = put_thread i (f (get_thread i s)) s"

definition current_tid :: "'z mstate_scheme \<Rightarrow> TID" where
  "current_tid s = hardware_thread (cur_space s) - 1"

text \<open>\<open>current_thread\<close> and \<open>current_thread_mut\<close>: the index of the active context.\<close>

definition current_thread_index :: "('z mstate_scheme, nat) kop" where
  "current_thread_index s =
     (let i = unat (hardware_thread (cur_space s) - 1)
      in if hardware_thread (cur_space s) = 0 then (Panic, s)
         else if i < length (threads (cur_space s)) then (Ok i, s) else (Panic, s))"

definition thread_exists :: "TID \<Rightarrow> ('z mstate_scheme, bool) kop" where
  "thread_exists tid = bindM (thread_index (fixup_irq tid)) (\<lambda>i. getM (\<lambda>s. sepc (get_thread i s) \<noteq> 0))"

definition set_tid :: "TID \<Rightarrow> ('z mstate_scheme, unit) kop" where
  "set_tid tid s =
     (let tid = fixup_irq tid
      in if unat tid \<le> length (threads (cur_space s))
         then (Ok (), upd_space (\<lambda>sp. sp\<lparr>hardware_thread := tid + 1\<rparr>) s) else (Panic, s))"

text \<open>\<open>a.iter().chain(b.iter())\<close>: from the last allocated id to the end, then from 0.\<close>

definition find_free_thread :: "('z mstate_scheme, TID option) kop" where
  "find_free_thread s =
     (let start_tid = unat (last_tid_allocated (cur_space s)); n = length (threads (cur_space s))
      in if start_tid > n then (Panic, s)
         else (case find (\<lambda>tid. of_nat tid \<noteq> IRQ_TID \<and> of_nat tid \<noteq> EXCEPTION_TID \<and> sepc (threads (cur_space s) ! tid) = 0)
                     ([start_tid ..< n] @ [0 ..< start_tid]) of
             None \<Rightarrow> (Ok None, s)
           | Some tid \<Rightarrow> (Ok (Some (of_nat tid)), upd_space (\<lambda>sp. sp\<lparr>last_tid_allocated := of_nat tid\<rparr>) s)))"

text \<open>Copy values over the registers from index \<open>n\<close> on.\<close>

definition write_regs :: "nat \<Rightarrow> usize list \<Rightarrow> usize list \<Rightarrow> usize list" where
  "write_regs n vals regs = take n regs @ take (length regs - n) vals @ drop (n + length vals) regs"

definition arch_set_thread_result :: "TID \<Rightarrow> XResult \<Rightarrow> ('z mstate_scheme, unit) kop" where
  "arch_set_thread_result tid result =
     bindM (thread_index tid) (\<lambda>i.
       modM (upd_thread i (\<lambda>t. t\<lparr>registers := write_regs 9 (result_to_args result) (registers t)\<rparr>)))"

definition retry_instruction :: "TID \<Rightarrow> ('z mstate_scheme, unit) kop" where
  "retry_instruction tid s =
     (if unat tid < length (threads (cur_space s))
      then (Ok (), upd_thread (unat tid) (\<lambda>t. if sepc t \<ge> 4 then t\<lparr>sepc := sepc t - 4\<rparr> else t) s)
      else (Panic, s))"

text \<open>\<open>arch::syscall::invoke\<close>.\<close>

definition invoke_frame :: "usize \<Rightarrow> usize \<Rightarrow> usize \<Rightarrow> usize list \<Rightarrow> thread \<Rightarrow> thread" where
  "invoke_frame pc sp ret_addr args t =
     t\<lparr>registers := write_regs 9 args ((registers t)[0 := ret_addr, 1 := sp]), sepc := pc\<rparr>"

definition arch_setup_thread :: "TID \<Rightarrow> thread_init \<Rightarrow> ('z mstate_scheme, unit) kop" where
  "arch_setup_thread new_tid setup =
     bindM (thread_index new_tid) (\<lambda>i.
       let sp = mr_addr (ti_stack setup) + mr_size (ti_stack setup)
       in if sp \<le> 16 then failM BadAddress
          else modM (put_thread i (invoke_frame (ti_call setup) ((sp - 16) AND NOT 0xf) EXIT_THREAD
                 [ti_arg1 setup, ti_arg2 setup, ti_arg3 setup, ti_arg4 setup] thread_default)))"

definition arch_destroy_thread :: "TID \<Rightarrow> ('z mstate_scheme, usize) kop" where
  "arch_destroy_thread tid =
     bindM (thread_index tid) (\<lambda>i.
     bindM (getM (get_thread i)) (\<lambda>t.
       if sepc t = 0 \<or> tid = IRQ_TID then failM ThreadNotAvailable
       else thenM (modM (put_thread i thread_default)) (retM (registers t ! 9))))"

definition arch_find_thread :: "(TID \<Rightarrow> thread \<Rightarrow> bool) \<Rightarrow> 'z mstate_scheme \<Rightarrow> TID option" where
  "arch_find_thread op' s =
     map_option of_nat (find (\<lambda>i. sepc (threads (cur_space s) ! i) \<noteq> 0 \<and> op' (of_nat i) (threads (cur_space s) ! i))
        [0 ..< length (threads (cur_space s))])"

definition setup_process :: "PID \<Rightarrow> thread_init \<Rightarrow> ('z mstate_scheme, unit) kop" where
  "setup_process pid thread_init =
     (let stack = ti_stack thread_init; tid = INITIAL_TID; pid_idx = unat pid - 1;
          init_sp = mr_addr stack AND NOT 0xfff
      in bindM (getM id) (\<lambda>s.
         thenM (assertM (arch_current_pid s = Some pid))
        (thenM (assertM (pid_idx < length (proc_table s) \<and> \<not> proc_table s ! pid_idx))
        (thenM (modM (\<lambda>s. s\<lparr>proc_table := (proc_table s)[pid_idx := True]\<rparr>))
        (thenM (modM (upd_space (\<lambda>sp. sp\<lparr>hardware_thread := tid + 1,
             threads := (replicate (length (threads sp)) thread_default)[unat tid :=
               \<lparr>registers = write_regs 9 [ti_arg1 thread_init, ti_arg2 thread_init, ti_arg3 thread_init, ti_arg4 thread_init]
                  ((registers thread_default)[1 := mr_addr stack + mr_size stack]),
                sepc = ti_call thread_init\<rparr>],
             inner := process_inner_default\<lparr>inner_pid := pid\<rparr>\<rparr>)))
          (if init_sp \<noteq> 0
           then thenM (unwrapM (reserve_range init_sp (mr_size stack) (MF_R OR MF_W))) (retM ())
           else retM ()))))))"

end
