(* ===== verification/Kernel_State.thy ===== *)
theory Kernel_State
  imports Thread_Ctx Server_Queue
begin

text \<open>
  The state of the whole kernel: \<open>SystemServices\<close> of \<open>kernel/src/services.rs\<close>
  (the process table and the server table), the interrupt handlers of
  \<open>kernel/src/irq.rs\<close>, and the static variables of
  \<open>kernel/src/arch/riscv/irq.rs\<close> and \<open>kernel/src/syscall.rs\<close>.  The record
  extends the machine state, so the operations of the memory manager and of
  the thread contexts apply to it as they are.

  The random words of \<open>platform::rand\<close> come from a hardware generator: the
  state has the sequence \<open>rand_words\<close> of its outputs and the number of words
  already taken, and every theorem holds for all sequences.

  The theory also has the interrupt mask and the handler table, which need
  nothing of the scheduler.
\<close>

section \<open>Data\<close>

record exception_handler =
  eh_pc :: usize
  eh_sp :: usize

datatype (plugins only: code size) ProcessState =
    PS_Free
  | PS_Allocated
  | PS_Setup thread_init
  | PS_Ready usize
  | PS_Running usize
  | PS_Sleeping
  | PS_Exception usize
  | PS_BlockedException usize

record process =
  mapping :: usize
  state :: ProcessState
  proc_pid :: PID
  ppid :: PID
  current_thread :: TID
  previous_thread :: TID
  exn_handler :: "exception_handler option"

record kernel = mstate +
  processes :: "process list"
  servers :: "server option list"
  irq_handlers :: "(PID \<times> usize \<times> usize option) option list"
  sim :: usize
  sim_backing :: usize
  irq_enabled :: bool
  handling_irq :: bool
  previous_pair :: "(PID \<times> TID) option"
  switchto_caller :: "(PID \<times> TID) option"
  original_pid :: u8
  original_tid :: usize
  rand_words :: "nat \<Rightarrow> u32"
  rand_pos :: nat

definition MAX_SERVER_COUNT :: nat where "MAX_SERVER_COUNT = 128"
definition EXCEPTION_STACK_TOP :: usize where "EXCEPTION_STACK_TOP = 0xffff0000"

definition get_u32 :: "(kernel, u32) kop" where
  "get_u32 s = (Ok (rand_words s (rand_pos s)), s\<lparr>rand_pos := rand_pos s + 1\<rparr>)"

section \<open>The process table\<close>

definition pid_idx :: "PID \<Rightarrow> nat" where
  "pid_idx pid = unat pid - 1"

text \<open>\<open>Process::runnable\<close> and \<open>Process::free\<close>.\<close>

definition process_runnable :: "process \<Rightarrow> bool" where
  "process_runnable p = (case state p of PS_Setup _ \<Rightarrow> True | PS_Ready _ \<Rightarrow> True | PS_Exception _ \<Rightarrow> True | _ \<Rightarrow> False)"

definition process_free :: "process \<Rightarrow> bool" where
  "process_free p = (case state p of PS_Free \<Rightarrow> True | _ \<Rightarrow> False)"

definition get_process :: "PID \<Rightarrow> (kernel, process) kop" where
  "get_process pid s =
     (if pid_idx pid \<ge> length (processes s) then (Panic, s)
      else let p = processes s ! pid_idx pid
        in if mapping_get_pid (mapping p) \<noteq> Some pid then (Err ProcessNotFound, s)
           else if process_free p then (Err ProcessNotFound, s)
           else (Ok p, s))"

text \<open>Writes through the reference that \<open>get_process_mut\<close> returned.\<close>

definition upd_process :: "PID \<Rightarrow> (process \<Rightarrow> process) \<Rightarrow> kernel \<Rightarrow> kernel" where
  "upd_process pid f s = s\<lparr>processes := (processes s)[pid_idx pid := f (processes s ! pid_idx pid)]\<rparr>"

definition set_state :: "PID \<Rightarrow> ProcessState \<Rightarrow> (kernel, unit) kop" where
  "set_state pid st = modM (upd_process pid (\<lambda>p. p\<lparr>state := st\<rparr>))"

definition set_current_thread :: "PID \<Rightarrow> TID \<Rightarrow> (kernel, unit) kop" where
  "set_current_thread pid tid = modM (upd_process pid (\<lambda>p. p\<lparr>current_thread := tid\<rparr>))"

text \<open>\<open>Process::activate\<close>.\<close>

definition process_activate :: "process \<Rightarrow> (kernel, unit) kop" where
  "process_activate p =
     thenM (set_current_pid (proc_pid p))
    (thenM (modM (activate_mapping (mapping p)))
    (thenM process_current (retM ())))"

section \<open>The server table\<close>

text \<open>The bound is \<open>sidx > self.servers.len()\<close>, followed by an index.\<close>

definition server_from_sidx :: "usize \<Rightarrow> (kernel, server option) kop" where
  "server_from_sidx sidx s =
     (if unat sidx > length (servers s) then (Ok None, s)
      else if unat sidx = length (servers s) then (Panic, s)
      else (Ok (servers s ! unat sidx), s))"

text \<open>Run an operation on the server at an index that is in use.\<close>

definition with_server :: "usize \<Rightarrow> (server, 'a) kop \<Rightarrow> (kernel, 'a) kop" where
  "with_server sidx m =
     bindM (server_from_sidx sidx) (\<lambda>srv. case srv of
         None \<Rightarrow> panicM
       | Some sv \<Rightarrow> (\<lambda>s. case m sv of (r, sv') \<Rightarrow> (r, s\<lparr>servers := (servers s)[unat sidx := Some sv']\<rparr>)))"

section \<open>The interrupt mask\<close>

definition disable_all_irqs :: "(kernel, unit) kop" where
  "disable_all_irqs = modM (\<lambda>s. s\<lparr>sim_backing := sim s, irq_enabled := False, sim := 0\<rparr>)"

definition enable_all_irqs :: "(kernel, unit) kop" where
  "enable_all_irqs = modM (\<lambda>s. s\<lparr>irq_enabled := True, sim := sim_backing s\<rparr>)"

definition enable_irq :: "usize \<Rightarrow> (kernel, unit) kop" where
  "enable_irq irq_no = modM (\<lambda>s.
     if irq_enabled s then s\<lparr>sim := sim s OR thread_bit irq_no\<rparr>
     else s\<lparr>sim_backing := sim_backing s OR thread_bit irq_no\<rparr>)"

definition disable_irq :: "usize \<Rightarrow> (kernel, unit) kop" where
  "disable_irq irq_no = modM (\<lambda>s.
     if irq_enabled s then s\<lparr>sim := sim s AND NOT (thread_bit irq_no)\<rparr>
     else s\<lparr>sim_backing := sim_backing s AND NOT (thread_bit irq_no)\<rparr>)"

section \<open>Interrupt handlers\<close>

definition set_handler :: "nat \<Rightarrow> (PID \<times> usize \<times> usize option) option \<Rightarrow> (kernel, unit) kop" where
  "set_handler i h = modM (\<lambda>s. s\<lparr>irq_handlers := (irq_handlers s)[i := h]\<rparr>)"

definition interrupt_claim :: "usize \<Rightarrow> PID \<Rightarrow> usize \<Rightarrow> usize option \<Rightarrow> (kernel, unit) kop" where
  "interrupt_claim irq pid f arg s =
     (if unat irq > length (irq_handlers s) then (Err InterruptNotFound, s)
      else if unat irq = length (irq_handlers s) then (Panic, s)
      else if irq_handlers s ! unat irq \<noteq> None then (Err InterruptInUse, s)
      else thenM (set_handler (unat irq) (Some (pid, f, arg))) (enable_irq irq) s)"

definition handler_owned :: "PID \<Rightarrow> (PID \<times> usize \<times> usize option) option \<Rightarrow> bool" where
  "handler_owned pid h = (case h of None \<Rightarrow> False | Some (p, _, _) \<Rightarrow> p = pid)"

definition interrupt_free :: "usize \<Rightarrow> PID \<Rightarrow> (kernel, unit) kop" where
  "interrupt_free irq pid s =
     (if unat irq > length (irq_handlers s) then (Err InterruptNotFound, s)
      else if unat irq = length (irq_handlers s) then (Panic, s)
      else if \<not> handler_owned pid (irq_handlers s ! unat irq) then (Err InterruptNotFound, s)
      else thenM (disable_irq irq) (set_handler (unat irq) None) s)"

definition release_interrupts_for_pid :: "PID \<Rightarrow> (kernel, unit) kop" where
  "release_interrupts_for_pid pid s =
     for_each [0 ..< length (irq_handlers s)] (\<lambda>i.
       bindM (getM (\<lambda>s. irq_handlers s ! i)) (\<lambda>h.
         if handler_owned pid h then thenM (disable_irq (of_nat i)) (set_handler i None) else retM ())) s"

end
