(* ===== verification/Scheduler.thy ===== *)
theory Scheduler
  imports Kernel_State
begin

text \<open>
  The scheduler of \<open>kernel/src/services.rs\<close>: the choice of the next thread, the
  transitions of a process between its states, the switch between processes,
  the call-backs of interrupt handlers and the exception handler.

  The transitions of \<open>ready_thread\<close>, \<open>unschedule_thread\<close> and the like are
  functions on \<open>ProcessState\<close>, \<open>Panic\<close> standing for the branches on which the
  kernel panics; the operations apply them to the process table.
\<close>

section \<open>The next thread\<close>

text \<open>\<open>trailing_zeros\<close>: the table lookup with a de Bruijn multiplier.\<close>

definition debruijn_table :: "usize list" where
  "debruijn_table = [0, 1, 28, 2, 29, 14, 24, 3, 30, 22, 20, 15, 25, 17, 4, 8, 31, 27, 13, 23, 21, 19, 16, 7, 26,
     12, 18, 6, 11, 5, 10, 9]"

definition trailing_zeros :: "usize \<Rightarrow> usize" where
  "trailing_zeros v = debruijn_table ! unat (drop_bit 27 ((NOT (v - 1) AND v) * 0x077CB531))"

definition find_next_thread :: "usize \<Rightarrow> usize \<Rightarrow> usize kresult" where
  "find_next_thread thread_mask cur =
     (if thread_mask = 0 then Panic
      else if thread_mask AND (thread_mask - 1) = 0 then Ok (trailing_zeros thread_mask)
      else let upper_bits = thread_mask AND NOT (push_bit (unat cur mod 32) 2 - 1)
        in if upper_bits \<noteq> 0 then Ok (trailing_zeros upper_bits) else Ok (trailing_zeros thread_mask))"

section \<open>State transitions\<close>

abbreviation tid_in :: "TID \<Rightarrow> usize \<Rightarrow> bool" where
  "tid_in tid x \<equiv> x AND thread_bit tid \<noteq> 0"

definition runnable :: "PID \<Rightarrow> TID option \<Rightarrow> (kernel, bool) kop" where
  "runnable pid tid =
     bindM (get_process pid) (\<lambda>p. retM (case tid of
         Some tid \<Rightarrow> (case state p of
             PS_Running x \<Rightarrow> tid = current_thread p \<or> tid_in tid x
           | PS_Ready x \<Rightarrow> tid_in tid x
           | PS_Sleeping \<Rightarrow> True
           | _ \<Rightarrow> False)
       | None \<Rightarrow> (case state p of PS_Running _ \<Rightarrow> True | PS_Ready _ \<Rightarrow> True | PS_Sleeping \<Rightarrow> True | _ \<Rightarrow> False)))"

fun ready_state :: "TID \<Rightarrow> ProcessState \<Rightarrow> ProcessState kresult" where
  "ready_state tid (PS_Running x) = (if tid_in tid x then Panic else Ok (PS_Running (x OR thread_bit tid)))"
| "ready_state tid (PS_Ready x) = (if tid_in tid x then Panic else Ok (PS_Ready (x OR thread_bit tid)))"
| "ready_state tid PS_Sleeping = Ok (PS_Ready (thread_bit tid))"
| "ready_state tid (PS_Exception x) = Ok (PS_Exception x)"
| "ready_state tid (PS_BlockedException x) = Ok (PS_Exception x)"
| "ready_state tid st = Panic"

definition ready_thread :: "PID \<Rightarrow> TID \<Rightarrow> (kernel, unit) kop" where
  "ready_thread pid tid =
     bindM (get_process pid) (\<lambda>p. bindM (liftO (ready_state tid (state p))) (set_state pid))"

definition set_last_thread :: "PID \<Rightarrow> TID \<Rightarrow> (kernel, unit) kop" where
  "set_last_thread pid tid =
     bindM (get_process pid) (\<lambda>p. case state p of
         PS_Ready x \<Rightarrow> (if tid_in tid x then set_current_thread pid tid else failM ThreadNotAvailable)
       | PS_Sleeping \<Rightarrow> failM ThreadNotAvailable
       | PS_Running _ \<Rightarrow> panicM
       | _ \<Rightarrow> failM ProcessNotFound)"

fun unschedule_state :: "TID \<Rightarrow> ProcessState \<Rightarrow> ProcessState kresult" where
  "unschedule_state tid (PS_Running x) =
     (if tid_in tid x then Panic else if x = 0 then Ok PS_Sleeping else Ok (PS_Ready x))"
| "unschedule_state tid (PS_Exception x) = Ok (PS_BlockedException x)"
| "unschedule_state tid st = Panic"

definition unschedule_thread :: "PID \<Rightarrow> TID \<Rightarrow> (kernel, unit) kop" where
  "unschedule_thread pid tid =
     bindM (get_process pid) (\<lambda>p. bindM (liftO (unschedule_state tid (state p))) (set_state pid))"

definition thread_is_running :: "PID \<Rightarrow> TID \<Rightarrow> (kernel, bool) kop" where
  "thread_is_running pid tid =
     bindM (unwrapM (get_process pid)) (\<lambda>p. case state p of
         PS_Running x \<Rightarrow> (if \<not> tid_in tid x then retM True else panicM)
       | _ \<Rightarrow> panicM)"

section \<open>Switching within the rules of one process\<close>

text \<open>\<open>ArchProcess::current().set_tid(tid)?\<close>.\<close>

definition current_set_tid :: "TID \<Rightarrow> (kernel, unit) kop" where
  "current_set_tid tid = thenM process_current (set_tid tid)"

text \<open>\<open>tid.unwrap_or_else(|| find_next_thread(..))\<close>.\<close>

definition chosen_thread :: "TID option \<Rightarrow> usize \<Rightarrow> TID \<Rightarrow> (kernel, TID) kop" where
  "chosen_thread tid ready cur = (case tid of Some t \<Rightarrow> retM t | None \<Rightarrow> liftO (find_next_thread ready cur))"

definition switch_to_thread :: "PID \<Rightarrow> TID option \<Rightarrow> (kernel, unit) kop" where
  "switch_to_thread pid tid =
     bindM (get_process pid) (\<lambda>p. case state p of
         PS_Free \<Rightarrow> failM ProcessNotFound
       | PS_Sleeping \<Rightarrow> failM ProcessNotFound
       | PS_Allocated \<Rightarrow> failM ProcessNotFound
       | PS_BlockedException _ \<Rightarrow> panicM
       | PS_Exception x \<Rightarrow>
           thenM (process_activate p)
          (thenM (current_set_tid EXCEPTION_TID) (set_state pid (PS_Exception x)))
       | PS_Setup setup \<Rightarrow>
           thenM (process_activate p)
          (thenM (assertM (case tid of None \<Rightarrow> True | Some t \<Rightarrow> t = INITIAL_TID))
          (thenM process_current
          (thenM (arch_setup_thread INITIAL_TID setup)
          (thenM (set_tid INITIAL_TID)
          (thenM (modM (upd_inner (\<lambda>i. i\<lparr>inner_pid := pid\<rparr>)))
          (thenM (set_current_thread pid INITIAL_TID) (set_state pid (PS_Running 0))))))))
       | PS_Ready ready \<Rightarrow>
           (if ready = 0 then panicM
            else bindM (chosen_thread tid ready (current_thread p)) (\<lambda>new_thread.
              if \<not> tid_in new_thread ready then panicM
              else thenM (process_activate p)
                  (thenM (current_set_tid new_thread)
                  (thenM (set_current_thread pid new_thread)
                     (set_state pid (PS_Running (ready AND NOT (thread_bit new_thread))))))))
       | PS_Running ready0 \<Rightarrow>
           (let ready = ready0 OR thread_bit (current_thread p)
            in bindM (chosen_thread tid ready (current_thread p)) (\<lambda>new_thread.
              if \<not> tid_in new_thread ready then failM InvalidThread
              else thenM (current_set_tid new_thread)
                  (thenM (set_current_thread pid new_thread)
                     (set_state pid (PS_Running (ready AND NOT (thread_bit new_thread))))))))"

definition set_thread_result :: "PID \<Rightarrow> TID \<Rightarrow> XResult \<Rightarrow> (kernel, unit) kop" where
  "set_thread_result pid tid result =
     bindM (getM table_current) (\<lambda>current_pid.
       if current_pid = pid then thenM process_current (arch_set_thread_result tid result)
       else bindM (get_process pid) (\<lambda>target.
            thenM (process_activate target)
           (thenM process_current
           (thenM (arch_set_thread_result tid result)
           (bindM (unwrapM (get_process current_pid)) process_activate)))))"

section \<open>Switching between processes\<close>

datatype (plugins only: code size) PostActivateOp =
    PA_None
  | PA_SetThreadResult XResult
  | PA_RememberServerMessage usize PID TID Message "usize option"

text \<open>The first \<open>match new.state\<close>: which thread of the new process runs.\<close>

definition pick_thread :: "PID \<Rightarrow> TID \<Rightarrow> process \<Rightarrow> (kernel, TID) kop" where
  "pick_thread new_pid new_tid new = (case state new of
     PS_Free \<Rightarrow> failM ProcessNotFound
   | PS_Setup _ \<Rightarrow> retM INITIAL_TID
   | PS_Allocated \<Rightarrow> retM INITIAL_TID
   | PS_Exception _ \<Rightarrow> retM EXCEPTION_TID
   | PS_Ready x \<Rightarrow>
       thenM (assertM (x \<noteq> 0))
      (bindM (if new_tid = 0 then liftO (find_next_thread x (current_thread new)) else retM new_tid) (\<lambda>tid.
         if \<not> tid_in tid x then failM ProcessNotFound
         else thenM (set_current_thread new_pid tid) (retM tid)))
   | PS_Running _ \<Rightarrow> panicM
   | PS_Sleeping \<Rightarrow> failM ProcessNotFound
   | PS_BlockedException _ \<Rightarrow> failM ProcessNotFound)"

text \<open>The second one: the state the new process enters.\<close>

definition enter_state :: "PID \<Rightarrow> TID \<Rightarrow> ProcessState \<Rightarrow> (kernel, ProcessState) kop" where
  "enter_state new_pid new_tid st = (case st of
     PS_Setup thread_init \<Rightarrow>
       thenM (unwrapM (setup_process new_pid thread_init))
      (thenM (modM (upd_inner (\<lambda>i. i\<lparr>inner_pid := new_pid\<rparr>))) (retM (PS_Running 0)))
   | PS_Allocated \<Rightarrow> thenM (modM (upd_inner (\<lambda>i. i\<lparr>inner_pid := new_pid\<rparr>))) (retM (PS_Running 0))
   | PS_Free \<Rightarrow> panicM
   | PS_Ready x \<Rightarrow> retM (PS_Running (x AND NOT (thread_bit new_tid)))
   | PS_Running x \<Rightarrow> retM (PS_Running (x AND NOT (thread_bit new_tid)))
   | PS_Sleeping \<Rightarrow> retM (PS_Running 0)
   | PS_Exception x \<Rightarrow> retM (PS_Exception x)
   | PS_BlockedException _ \<Rightarrow> panicM)"

text \<open>The third one: the state of the process that was left.\<close>

fun leave_state :: "TID \<Rightarrow> bool \<Rightarrow> ProcessState \<Rightarrow> ProcessState kresult" where
  "leave_state previous_tid can_resume (PS_Running x) =
     Ok (if x = 0 then (if can_resume then PS_Ready (thread_bit previous_tid) else PS_Sleeping)
         else if can_resume then PS_Ready (x OR thread_bit previous_tid) else PS_Ready x)"
| "leave_state previous_tid can_resume (PS_Exception x) =
     Ok (if can_resume then PS_Exception x else PS_BlockedException x)"
| "leave_state previous_tid can_resume st = Panic"

definition post_activate :: "TID \<Rightarrow> PostActivateOp \<Rightarrow> (kernel, usize option) kop" where
  "post_activate new_tid lazy_arg = (case lazy_arg of
     PA_None \<Rightarrow> retM None
   | PA_SetThreadResult result \<Rightarrow>
       thenM process_current (thenM (arch_set_thread_result new_tid result) (retM None))
   | PA_RememberServerMessage sidx pid tid message client_address \<Rightarrow>
       bindM (with_server sidx (queue_response pid tid message client_address)) (\<lambda>si. retM (Some (of_nat si))))"

definition switch_process :: "TID \<Rightarrow> PID \<Rightarrow> PID \<Rightarrow> TID \<Rightarrow> bool \<Rightarrow> PostActivateOp \<Rightarrow> (kernel, usize option \<times> TID) kop" where
  "switch_process previous_tid previous_pid new_pid new_tid0 can_resume lazy_arg =
     bindM (bindM (get_process new_pid) (pick_thread new_pid new_tid0)) (\<lambda>new_tid.
     bindM (get_process new_pid) (\<lambda>new.
     thenM (modM (activate_mapping (mapping new)))
    (bindM (get_process new_pid) (\<lambda>new.
     bindM (enter_state new_pid new_tid (state new)) (\<lambda>st.
     thenM (set_state new_pid st)
    (thenM (process_activate new)
    (bindM (post_activate new_tid lazy_arg) (\<lambda>sender_idx.
     bindM (unwrapM (get_process previous_pid)) (\<lambda>previous.
     thenM (set_current_thread previous_pid previous_tid)
    (bindM (liftO (leave_state previous_tid can_resume (state previous))) (\<lambda>st.
     thenM (set_state previous_pid st) (retM (sender_idx, new_tid)))))))))))))"

text \<open>The same process: \<open>Inl\<close> for the early return when the thread does not change.\<close>

definition switch_thread :: "TID \<Rightarrow> PID \<Rightarrow> TID \<Rightarrow> bool \<Rightarrow> PostActivateOp \<Rightarrow> (kernel, TID + usize option \<times> TID) kop" where
  "switch_thread previous_tid new_pid new_tid0 can_resume lazy_arg =
     bindM (post_activate new_tid0 lazy_arg) (\<lambda>sender_idx.
     bindM (get_process new_pid) (\<lambda>new.
       if previous_tid = new_tid0
       then thenM (assertM can_resume)
           (thenM (unwrapM (current_set_tid new_tid0))
           (thenM (set_current_thread new_pid new_tid0) (retM (Inl new_tid0))))
       else (case state new of
           PS_Running x0 \<Rightarrow>
             thenM (assertM (\<not> tid_in (current_thread new) x0))
            (let x = x0 OR (if can_resume then thread_bit (current_thread new) else 0)
             in bindM (if new_tid0 = 0 then liftO (find_next_thread x (current_thread new)) else retM new_tid0) (\<lambda>new_tid.
                  if \<not> tid_in new_tid x then failM ThreadNotAvailable
                  else thenM (set_current_thread new_pid new_tid)
                      (thenM (set_state new_pid (PS_Running (x AND NOT (thread_bit new_tid))))
                         (retM (Inr (sender_idx, new_tid))))))
         | _ \<Rightarrow> panicM)))"

definition activate_process_thread :: "TID \<Rightarrow> PID \<Rightarrow> TID \<Rightarrow> bool \<Rightarrow> PostActivateOp \<Rightarrow> (kernel, usize) kop" where
  "activate_process_thread previous_tid new_pid new_tid can_resume lazy_arg =
     bindM (getM table_current) (\<lambda>previous_pid.
     bindM (if new_pid \<noteq> previous_pid
            then bindM (switch_process previous_tid previous_pid new_pid new_tid can_resume lazy_arg) (\<lambda>r. retM (Inr r))
            else switch_thread previous_tid new_pid new_tid can_resume lazy_arg) (\<lambda>r. case r of
         Inl tid \<Rightarrow> retM tid
       | Inr (sender_idx, tid) \<Rightarrow>
           thenM (current_set_tid tid) (retM (case sender_idx of Some si \<Rightarrow> si | None \<Rightarrow> tid))))"

section \<open>Call-backs\<close>

fun suspend_state :: "ProcessState \<Rightarrow> ProcessState kresult" where
  "suspend_state (PS_Running x) = Ok (if x = 0 then PS_Sleeping else PS_Ready x)"
| "suspend_state st = Panic"

fun resume_state :: "TID \<Rightarrow> ProcessState \<Rightarrow> ProcessState kresult" where
  "resume_state tid (PS_Ready x) = (if tid_in tid x then Ok (PS_Running (x AND NOT (thread_bit tid))) else Panic)"
| "resume_state tid st = Panic"

definition finish_callback_and_resume :: "PID \<Rightarrow> TID \<Rightarrow> (kernel, unit) kop" where
  "finish_callback_and_resume pid tid =
     bindM (getM table_current) (\<lambda>current_pid.
     bindM (unwrapM (get_process current_pid)) (\<lambda>current.
     bindM (liftO (suspend_state (state current))) (\<lambda>st.
     thenM (set_state current_pid st)
    (bindM (get_process pid) (\<lambda>p.
     bindM (liftO (resume_state tid (state p))) (\<lambda>st.
     thenM (set_state pid st)
    (thenM (modM (activate_mapping (mapping p)))
    (thenM (process_activate p)
    (thenM (current_set_tid tid) (set_current_thread pid tid))))))))))"

fun interrupt_state :: "TID \<Rightarrow> ProcessState \<Rightarrow> ProcessState kresult" where
  "interrupt_state tid (PS_Running x) = Ok (PS_Ready (x OR thread_bit tid))"
| "interrupt_state tid st = Panic"

fun callback_threads :: "ProcessState \<Rightarrow> usize kresult" where
  "callback_threads (PS_Ready x) = Ok x"
| "callback_threads (PS_Running x) = Ok x"
| "callback_threads (PS_Exception x) = Ok x"
| "callback_threads PS_Sleeping = Ok 0"
| "callback_threads (PS_BlockedException _) = Ok 0"
| "callback_threads _ = Panic"

text \<open>\<open>make_callback_to\<close> with \<open>CallbackType::Interrupt(irq_no, arg)\<close>, the only kind without swap.\<close>

definition make_callback_to :: "PID \<Rightarrow> usize \<Rightarrow> usize \<Rightarrow> usize \<Rightarrow> (kernel, unit) kop" where
  "make_callback_to pid pc irq_no arg =
     bindM (getM table_current) (\<lambda>current_pid.
     thenM (unwrapM (get_process current_pid))
    (thenM (modM (\<lambda>s. upd_process current_pid (\<lambda>p.
              if current_thread p = 0 then p\<lparr>current_thread := current_tid s\<rparr> else p) s))
    (bindM (getM (\<lambda>s. processes s ! pid_idx current_pid)) (\<lambda>current.
     bindM (liftO (interrupt_state (current_thread current) (state current))) (\<lambda>st.
     thenM (set_state current_pid st)
    (bindM (get_process pid) (\<lambda>p.
     bindM (liftO (callback_threads (state p))) (\<lambda>available.
     thenM (set_state pid (PS_Running available))
    (thenM (modM (upd_process pid (\<lambda>p.
              p\<lparr>previous_thread := (if current_thread p \<noteq> IRQ_TID then current_thread p else previous_thread p),
                current_thread := IRQ_TID\<rparr>)))
    (thenM (modM (activate_mapping (mapping p)))
    (thenM (process_activate p)
    (thenM process_current
    (bindM (if pid = 1 then retM EXCEPTION_STACK_TOP
            else bindM current_thread_index (\<lambda>i. getM (\<lambda>s. registers (get_thread i s) ! 1))) (\<lambda>sp.
     thenM (unwrapM (set_tid IRQ_TID))
    (bindM current_thread_index (\<lambda>i.
       modM (upd_thread i (invoke_frame pc sp RETURN_FROM_ISR [irq_no, arg]))))))))))))))))))"

section \<open>Exception handlers\<close>

fun exception_state :: "TID \<Rightarrow> ProcessState \<Rightarrow> ProcessState option" where
  "exception_state tid (PS_Running x) = Some (PS_Exception (x OR thread_bit tid))"
| "exception_state tid (PS_Ready x) = Some (PS_Exception x)"
| "exception_state tid _ = None"

definition begin_exception_handler :: "PID \<Rightarrow> (kernel, exception_handler option) kop" where
  "begin_exception_handler pid =
     bindM (tryM (get_process pid)) (\<lambda>r. case r of
        Inl _ \<Rightarrow> retM None
      | Inr p \<Rightarrow> (case exn_handler p of
          None \<Rightarrow> retM None
        | Some handler \<Rightarrow> (case exception_state (current_thread p) (state p) of
            None \<Rightarrow> retM None
          | Some st \<Rightarrow>
              thenM (set_state pid st)
             (thenM (modM (upd_process pid (\<lambda>p. p\<lparr>previous_thread := current_thread p, current_thread := EXCEPTION_TID\<rparr>)))
             (bindM (tryM (current_set_tid EXCEPTION_TID)) (\<lambda>r.
                retM (case r of Inl _ \<Rightarrow> None | Inr _ \<Rightarrow> Some handler)))))))"

definition finish_exception_handler_and_resume :: "PID \<Rightarrow> (kernel, unit) kop" where
  "finish_exception_handler_and_resume pid =
     bindM (get_process pid) (\<lambda>p. case state p of
         PS_Exception tids \<Rightarrow>
           thenM (assertM (tid_in (previous_thread p) tids))
          (thenM (set_state pid (PS_Running (tids AND NOT (thread_bit (previous_thread p)))))
          (thenM (set_current_thread pid (previous_thread p)) (current_set_tid (previous_thread p))))
       | _ \<Rightarrow> failM ThreadNotAvailable)"

section \<open>Thread selection is round robin\<close>

definition lowest_bit :: "usize \<Rightarrow> nat" where
  "lowest_bit v = (LEAST i. bit v i)"

lemma lowest_bit_props:
  assumes "v \<noteq> 0"
  shows "bit v (lowest_bit v)" "lowest_bit v < 32" "j < lowest_bit v \<Longrightarrow> \<not> bit v j"
proof -
  obtain i where i: "bit v i" using assms by (auto simp: bit_eq_iff)
  show b: "bit v (lowest_bit v)" unfolding lowest_bit_def using i by (rule LeastI)
  show "lowest_bit v < 32" using bit_imp_le_length [OF b] by simp
  show "j < lowest_bit v \<Longrightarrow> \<not> bit v j" unfolding lowest_bit_def by (rule not_less_Least)
qed

lemma odd_and_minus: "bit (u :: usize) 0 \<Longrightarrow> u AND - u = 1"
proof -
  assume u: "bit u 0"
  have "NOT u + 1 = NOT u OR 1"
    by (rule disjunctive_add) (use u in \<open>auto simp: bit_simps\<close>)
  hence "- u = NOT u OR 1" by (simp add: minus_eq_not_plus_1)
  thus ?thesis using u by (auto intro!: bit_eqI simp: bit_simps)
qed

lemma isolate_lowest_bit:
  assumes "v \<noteq> 0"
  shows "NOT (v - 1) AND v = push_bit (lowest_bit v) 1"
proof -
  let ?i = "lowest_bit v" and ?u = "drop_bit (lowest_bit v) v"
  have v: "v = push_bit ?i ?u"
  proof (rule bit_eqI)
    fix n assume "possible_bit TYPE(usize) n"
    show "bit v n = bit (push_bit ?i ?u) n"
      using lowest_bit_props(3) [OF assms, of n] \<open>possible_bit TYPE(usize) n\<close>
      by (cases "?i \<le> n") (auto simp: bit_simps)
  qed
  have "NOT (v - 1) = - v" by (simp add: not_eq_complement)
  also have "- v = push_bit ?i (- ?u)"
    by (subst v) (simp add: push_bit_eq_mult)
  finally have "NOT (v - 1) AND v = push_bit ?i (- ?u) AND push_bit ?i ?u" using v by simp
  also have "\<dots> = push_bit ?i (?u AND - ?u)" by (simp add: push_bit_and and.commute)
  also have "\<dots> = push_bit ?i 1" using lowest_bit_props(1) [OF assms] odd_and_minus [of ?u] by (simp add: bit_simps)
  finally show ?thesis .
qed

lemma debruijn_lookup: "i < 32 \<Longrightarrow> debruijn_table ! unat (drop_bit 27 (push_bit i 1 * 0x077CB531 :: usize)) = of_nat i"
proof -
  have "\<forall>i \<in> set [0..<32]. debruijn_table ! unat (drop_bit 27 (push_bit i 1 * 0x077CB531 :: usize)) = of_nat i"
    by code_simp
  thus "i < 32 \<Longrightarrow> ?thesis" by simp
qed

lemma trailing_zeros_eq: "v \<noteq> 0 \<Longrightarrow> trailing_zeros v = of_nat (lowest_bit v)"
  unfolding trailing_zeros_def isolate_lowest_bit by (rule debruijn_lookup) (rule lowest_bit_props(2))
text \<open>The reference: the first ready thread after \<open>cur\<close>, going round.\<close>

definition round_robin :: "usize \<Rightarrow> nat \<Rightarrow> nat option" where
  "round_robin m cur = find (bit m) ([cur + 1 ..< 32] @ [0 ..< cur + 1])"

lemma find_upt_lowest:
  assumes "a \<le> lowest_bit v" "lowest_bit v < b" "v \<noteq> 0"
  shows "find (bit v) [a ..< b] = Some (lowest_bit v)"
  unfolding find_Some_iff using assms lowest_bit_props [OF assms(3)]
  by (intro exI [of _ "lowest_bit v - a"]) auto

lemma bit_low_mask: "c < 32 \<Longrightarrow> bit (push_bit c 2 - 1 :: usize) i \<longleftrightarrow> i \<le> c"
proof -
  assume c: "c < 32"
  have "push_bit c 2 - 1 = (mask (Suc c) :: usize)" by (simp add: mask_eq_exp_minus_1 push_bit_eq_mult)
  thus ?thesis using c by (auto simp: bit_mask_iff less_Suc_eq_le)
qed

lemma single_bit_iff:
  assumes "v \<noteq> 0" "v AND (v - 1) = 0" "bit v i"
  shows "i = lowest_bit v"
proof -
  have "bit (NOT (v - 1) AND v) j = bit v j" for j
    using arg_cong [OF assms(2), of "\<lambda>w. bit w j"] bit_imp_le_length [of v j]
    by (auto simp: bit_simps possible_bit_def)
  hence "v = NOT (v - 1) AND v" by (auto intro: bit_eqI)
  hence "bit (push_bit (lowest_bit v) 1 :: usize) i" using isolate_lowest_bit [OF assms(1)] assms(3) by simp
  thus ?thesis by (auto simp: bit_simps)
qed

text \<open>
  C18: the branch-free choice of the next thread (a table lookup on the product
  with a de Bruijn number) is a round robin: the first ready thread after the
  current one, going round, and a panic exactly when no thread is ready.
\<close>

theorem find_next_thread_round_robin:
  "find_next_thread m cur =
     (case round_robin m (unat cur mod 32) of None \<Rightarrow> Panic | Some i \<Rightarrow> Ok (of_nat i))"
proof (cases "m = 0")
  case True
  hence "round_robin m (unat cur mod 32) = None" by (simp add: round_robin_def find_None_iff del: upt_Suc)
  thus ?thesis using True by (simp add: find_next_thread_def)
next
  case m: False
  define c where "c = unat cur mod 32"
  define u where "u = m AND NOT (push_bit c 2 - 1)"
  have c: "c < 32" by (simp add: c_def)
  have u: "bit u i \<longleftrightarrow> bit m i \<and> c < i" for i
    using bit_imp_le_length [of m i] by (auto simp: u_def bit_simps bit_low_mask [OF c] possible_bit_def)
  have find_u: "find (bit m) [c + 1 ..< 32] = find (bit u) [c + 1 ..< 32]"
    by (rule find_cong) (auto simp: u)
  have rr: "round_robin m c = Some (if u = 0 then lowest_bit m else lowest_bit u)"
  proof (cases "u = 0")
    case True
    hence "\<not> bit m i" if "c < i" for i using u [of i] that by simp
    hence "lowest_bit m \<le> c" using lowest_bit_props(1) [OF m] not_less by blast
    moreover have "find (bit m) [c + 1 ..< 32] = None" using find_u True by (simp add: find_None_iff)
    ultimately show ?thesis using True find_upt_lowest [of 0 m "c + 1"] m
      by (simp add: round_robin_def find_append del: upt_Suc)
  next
    case False
    hence "c < lowest_bit u" using lowest_bit_props(1) u by blast
    thus ?thesis using find_upt_lowest [of "c + 1" u 32] False lowest_bit_props(2) [OF False] find_u
      by (simp add: round_robin_def find_append)
  qed
  have "lowest_bit u = lowest_bit m" if "m AND (m - 1) = 0" "u \<noteq> 0"
    using single_bit_iff [OF m that(1)] lowest_bit_props(1) [OF that(2)] u by blast
  thus ?thesis using m rr unfolding c_def [symmetric]
    by (auto simp: find_next_thread_def trailing_zeros_eq Let_def c_def [symmetric] u_def [symmetric])
qed

end
