(* ===== verification/Memory_Ipc.thy ===== *)
theory Memory_Ipc
  imports Scheduler
begin

text \<open>
  Memory that travels with a message: \<open>send_memory\<close>, \<open>lend_memory\<close> and
  \<open>return_memory\<close> of \<open>kernel/src/services.rs\<close>, which move, lend and give back
  a range page by page between the current process and another one.

  The loops of the source step through the range in units of \<open>usize\<close>; the
  model has the byte offsets of the pages.  The result of one page does not
  stop the loop: the last error is kept, and reported (or turned into a panic)
  at the end.
\<close>

definition page_offsets :: "usize \<Rightarrow> usize list" where
  "page_offsets len = map (\<lambda>k. of_nat k * PAGE_SIZE) [0 ..< unat len div 4096]"

definition aligned :: "usize \<Rightarrow> bool" where
  "aligned a = (a AND 0xfff = 0)"

primrec page_loop :: "('i \<Rightarrow> ('s, Error option) kop) \<Rightarrow> Error option \<Rightarrow> 'i list \<Rightarrow> ('s, Error option) kop" where
  "page_loop body error [] = retM error"
| "page_loop body error (off # offs) =
     bindM (body off) (\<lambda>e. page_loop body (case e of None \<Rightarrow> error | Some _ \<Rightarrow> e) offs)"

text \<open>\<open>.unwrap_or_else(|e| error = Some(e))\<close>: the error of one page as a value.\<close>

definition note_error :: "('s, 'a) kop \<Rightarrow> ('s, Error option) kop" where
  "note_error m = bindM (tryM m) (\<lambda>r. retM (case r of Inl e \<Rightarrow> Some e | Inr _ \<Rightarrow> None))"

definition ensure_range :: "usize \<Rightarrow> usize \<Rightarrow> (kernel, unit) kop" where
  "ensure_range src_virt len = for_each (page_offsets len) (\<lambda>off. ensure_page_exists (src_virt + off))"

text \<open>Activate the destination, find room there, and come back on either outcome.\<close>

definition find_room :: "usize \<Rightarrow> usize \<Rightarrow> usize \<Rightarrow> usize \<Rightarrow> (kernel, usize) kop" where
  "find_room src_mapping dest_mapping dest_virt len =
     thenM (modM (activate_mapping dest_mapping))
    (bindM (tryM (find_virtual_address dest_virt len MT_Messages)) (\<lambda>r.
     thenM (modM (activate_mapping src_mapping))
       (case r of Inl e \<Rightarrow> failM e | Inr a \<Rightarrow> retM a)))"

definition send_memory :: "usize \<Rightarrow> PID \<Rightarrow> usize \<Rightarrow> usize \<Rightarrow> (kernel, usize) kop" where
  "send_memory src_virt dest_pid dest_virt len =
     (if len = 0 then failM BadAddress
      else if \<not> aligned len then failM BadAddress
      else if \<not> aligned src_virt then failM BadAddress
      else if \<not> aligned dest_virt then failM BadAddress
      else if dest_virt + len > USER_AREA_END then failM BadAddress
      else bindM (getM table_current) (\<lambda>current_pid.
        if current_pid = dest_pid then thenM (ensure_range src_virt len) (retM src_virt)
        else bindM (get_process current_pid) (\<lambda>src.
             bindM (get_process dest_pid) (\<lambda>dest.
             bindM (find_room (mapping src) (mapping dest) dest_virt len) (\<lambda>dest_virt.
             bindM (page_loop (\<lambda>off.
                 thenM (assertM (aligned (src_virt + off)))
                (thenM (assertM (aligned (dest_virt + off)))
                (thenM (ensure_page_exists (src_virt + off))
                  (note_error (move_page current_pid (mapping src) (src_virt + off)
                     dest_pid (mapping dest) (dest_virt + off)))))) None (page_offsets len)) (\<lambda>error.
             case error of None \<Rightarrow> retM dest_virt | Some _ \<Rightarrow> panicM))))))"

definition lend_memory :: "usize \<Rightarrow> PID \<Rightarrow> usize \<Rightarrow> usize \<Rightarrow> bool \<Rightarrow> (kernel, usize) kop" where
  "lend_memory src_virt dest_pid dest_virt len mutable =
     (if len = 0 then failM BadAddress
      else if \<not> aligned len then failM BadAlignment
      else if \<not> aligned src_virt then failM BadAlignment
      else if \<not> aligned dest_virt then failM BadAlignment
      else bindM (getM table_current) (\<lambda>current_pid.
        if current_pid = dest_pid
        then thenM (for_each (page_offsets len) (\<lambda>off.
               thenM (assertM (aligned (src_virt + off))) (ensure_page_exists (src_virt + off)))) (retM src_virt)
        else bindM (get_process current_pid) (\<lambda>src.
             bindM (get_process dest_pid) (\<lambda>dest.
             bindM (find_room (mapping src) (mapping dest) dest_virt len) (\<lambda>dest_virt.
             bindM (page_loop (\<lambda>off.
                 thenM (assertM (aligned (src_virt + off)))
                (thenM (assertM (aligned (dest_virt + off)))
                (thenM (ensure_page_exists (src_virt + off))
                  (note_error (lend_page (mapping src) (src_virt + off)
                     dest_pid (mapping dest) (dest_virt + off) mutable))))) None (page_offsets len)) (\<lambda>error.
             case error of None \<Rightarrow> retM dest_virt | Some _ \<Rightarrow> panicM))))))"

definition return_memory :: "usize \<Rightarrow> PID \<Rightarrow> TID \<Rightarrow> usize \<Rightarrow> usize \<Rightarrow> (kernel, usize) kop" where
  "return_memory src_virt dest_pid dest_tid dest_virt len =
     (if len = 0 then failM BadAddress
      else if \<not> aligned len then failM BadAddress
      else if \<not> aligned src_virt then failM BadAddress
      else if \<not> aligned dest_virt then failM BadAddress
      else bindM (getM table_current) (\<lambda>current_pid.
        if current_pid = dest_pid then retM src_virt
        else bindM (get_process current_pid) (\<lambda>src.
             bindM (get_process dest_pid) (\<lambda>dest.
             bindM (page_loop (\<lambda>off.
                 thenM (assertM (aligned (src_virt + off)))
                (thenM (assertM (aligned (dest_virt + off)))
                  (note_error (unlend_page (mapping src) (src_virt + off)
                     dest_pid (mapping dest) (dest_virt + off))))) None (page_offsets len)) (\<lambda>error.
             case error of None \<Rightarrow> retM dest_virt | Some e \<Rightarrow> failM e)))))"

end
