(* ===== verification/Server_Table.thy ===== *)
theory Server_Table
  imports Memory_Ipc
begin

text \<open>
  Servers and connections, from \<open>kernel/src/services.rs\<close>: creation of servers,
  the connection table of a process, the lookup of a server by connection or
  by address, queueing a message from another address space, and
  \<open>Server::destroy\<close> of \<open>kernel/src/server.rs\<close>.

  A connection table entry is 0 (free, \<open>None\<close>), 1 (a server that is gone), or
  the index of a server plus 2.
\<close>

section \<open>Lookup\<close>

definition sidx_from_sid :: "SID \<Rightarrow> PID \<Rightarrow> kernel \<Rightarrow> usize option" where
  "sidx_from_sid sid pid s =
     map_option of_nat (find (\<lambda>i. case servers s ! i of
        Some sv \<Rightarrow> srv_pid sv = pid \<and> srv_sid sv = sid | None \<Rightarrow> False) [0 ..< length (servers s)])"

definition sidx_from_cid :: "CID \<Rightarrow> (kernel, usize option) kop" where
  "sidx_from_cid cid s =
     (if cid < 2 then (Ok None, s)
      else if table_current s \<noteq> inner_pid (cur_inner s) then (Panic, s)
      else let slot = unat (cid - 2); cmap = connection_map (cur_inner s)
        in if slot \<ge> length cmap then (Ok None, s)
           else (case cmap ! slot of
               None \<Rightarrow> (Ok None, s)
             | Some v \<Rightarrow>
                 (if v < 2 then (Ok None, s)
                  else if unat (v - 2) \<ge> length (servers s) then (Ok None, s)
                  else (Ok (Some (ucast (v - 2))), s))))"

section \<open>Connecting\<close>

text \<open>
  The first loop of \<open>connect_to_server\<close>: \<open>Inl cid\<close> for an existing connection,
  otherwise \<open>Inr\<close> of the first free slot.  The index into the server table is
  not checked in the source.
\<close>

fun scan_connections :: "SID \<Rightarrow> server option list \<Rightarrow> nat \<Rightarrow> nat option \<Rightarrow> u8 option list \<Rightarrow> (CID + nat option) kresult" where
  "scan_connections sid srvs i slot [] = Ok (Inr slot)"
| "scan_connections sid srvs i slot (None # cs) =
     scan_connections sid srvs (i + 1) (if slot = None then Some i else slot) cs"
| "scan_connections sid srvs i slot (Some v # cs) =
     (if v < 2 then scan_connections sid srvs (i + 1) slot cs
      else if unat (v - 2) \<ge> length srvs then Panic
      else (case srvs ! unat (v - 2) of
          Some sv \<Rightarrow> (if srv_sid sv = sid then Ok (Inl (of_nat i + 2)) else scan_connections sid srvs (i + 1) slot cs)
        | None \<Rightarrow> scan_connections sid srvs (i + 1) slot cs))"

definition find_server :: "SID \<Rightarrow> kernel \<Rightarrow> nat option" where
  "find_server sid s = find (\<lambda>i. case servers s ! i of
     Some sv \<Rightarrow> srv_sid sv = sid | None \<Rightarrow> False) [0 ..< length (servers s)]"

definition set_connection :: "nat \<Rightarrow> u8 option \<Rightarrow> kernel \<Rightarrow> kernel" where
  "set_connection slot v = upd_inner (\<lambda>i. i\<lparr>connection_map := (connection_map i)[slot := v]\<rparr>)"

definition connect_to_server :: "SID \<Rightarrow> (kernel, CID) kop" where
  "connect_to_server sid s =
     (if table_current s \<noteq> inner_pid (cur_inner s) then (Panic, s)
      else (case scan_connections sid (servers s) 0 None (connection_map (cur_inner s)) of
          Panic \<Rightarrow> (Panic, s)
        | Err e \<Rightarrow> (Err e, s)
        | Ok (Inl cid) \<Rightarrow> (Ok cid, s)
        | Ok (Inr None) \<Rightarrow> (Err OutOfMemory, s)
        | Ok (Inr (Some slot)) \<Rightarrow> (case find_server sid s of
              None \<Rightarrow> (Err ServerNotFound, s)
            | Some i \<Rightarrow>
                (if (of_nat i :: u8) + 2 = 0 then (Panic, s)
                 else (Ok (of_nat slot + 2), set_connection slot (Some (of_nat i + 2)) s)))))"

definition connect_process_to_server :: "PID \<Rightarrow> SID \<Rightarrow> (kernel, CID) kop" where
  "connect_process_to_server target_pid sid =
     bindM (getM table_current) (\<lambda>original.
     bindM (get_process target_pid) (\<lambda>p.
     thenM (process_activate p)
    (bindM (tryM (connect_to_server sid)) (\<lambda>result.
     bindM (get_process original) (\<lambda>p.
     thenM (unwrapM (process_activate p))
       (case result of Inl e \<Rightarrow> failM e | Inr cid \<Rightarrow> retM cid))))))"

definition disconnect_from_server :: "CID \<Rightarrow> (kernel, unit) kop" where
  "disconnect_from_server cid s =
     (if cid < 2 then (Err ServerNotFound, s)
      else if table_current s \<noteq> inner_pid (cur_inner s) then (Panic, s)
      else let slot = unat (cid - 2)
        in if slot \<ge> length (connection_map (cur_inner s)) then (Err ServerNotFound, s)
           else if connection_map (cur_inner s) ! slot = None then (Err ServerNotFound, s)
           else (Ok (), set_connection slot None s))"

section \<open>Creating servers\<close>

definition free_server_slot :: "kernel \<Rightarrow> nat option" where
  "free_server_slot s = find (\<lambda>i. servers s ! i = None) [0 ..< length (servers s)]"

definition create_server_with_address :: "PID \<Rightarrow> SID \<Rightarrow> bool \<Rightarrow> (kernel, SID \<times> CID) kop" where
  "create_server_with_address pid sid connect =
     bindM (get_process pid) (\<lambda>p.
       if ppid p \<noteq> 1 then panicM
       else bindM (getM free_server_slot) (\<lambda>slot. case slot of
           None \<Rightarrow> failM ServerNotFound
         | Some i \<Rightarrow>
             bindM (map_zeroed_page pid False) (\<lambda>virt.
             bindM (liftO (memory_range_new virt PAGE_SIZE)) (\<lambda>backing.
             thenM (unwrapM (\<lambda>s. case server_init pid sid backing (servers s ! i) of
                      (r, e) \<Rightarrow> (r, s\<lparr>servers := (servers s)[i := e]\<rparr>)))
               (if connect then bindM (connect_to_server sid) (\<lambda>cid. retM (sid, cid)) else retM (sid, 0))))))"

definition create_server_id :: "(kernel, SID) kop" where
  "create_server_id =
     bindM get_u32 (\<lambda>a. bindM get_u32 (\<lambda>b. bindM get_u32 (\<lambda>c. bindM get_u32 (\<lambda>d. retM (SID a b c d)))))"

definition create_server :: "PID \<Rightarrow> bool \<Rightarrow> (kernel, SID \<times> CID) kop" where
  "create_server pid connect = bindM create_server_id (\<lambda>sid. create_server_with_address pid sid connect)"

section \<open>Messages from another space\<close>

definition queue_server_message :: "usize \<Rightarrow> PID \<Rightarrow> TID \<Rightarrow> Message \<Rightarrow> usize option \<Rightarrow> (kernel, usize) kop" where
  "queue_server_message sidx pid tid message original_address =
     bindM (getM table_current) (\<lambda>current_pid.
     bindM (bindM (server_from_sidx sidx) (\<lambda>sv. liftO (ok_or sv ServerNotFound))) (\<lambda>sv.
     bindM (get_process (srv_pid sv)) (\<lambda>server_process.
     thenM (modM (activate_mapping (mapping server_process)))
    (bindM (tryM (with_server sidx (queue_message pid tid message original_address))) (\<lambda>result.
     bindM (unwrapM (get_process current_pid)) (\<lambda>current_process.
     thenM (modM (activate_mapping (mapping current_process)))
       (case result of Inl e \<Rightarrow> failM e | Inr i \<Rightarrow> retM (of_nat i))))))))"

definition remember_server_message :: "usize \<Rightarrow> PID \<Rightarrow> TID \<Rightarrow> Message \<Rightarrow> usize option \<Rightarrow> (kernel, usize) kop" where
  "remember_server_message sidx current_pid tid message client_address =
     bindM (bindM (server_from_sidx sidx) (\<lambda>sv. liftO (ok_or sv ServerNotFound))) (\<lambda>sv.
     bindM (get_process (srv_pid sv)) (\<lambda>server_process.
     thenM (modM (activate_mapping (mapping server_process)))
    (bindM (tryM (with_server sidx (queue_response current_pid tid message client_address))) (\<lambda>result.
     bindM (unwrapM (get_process current_pid)) (\<lambda>current_process.
     thenM (modM (activate_mapping (mapping current_process)))
       (case result of Inl e \<Rightarrow> failM e | Inr i \<Rightarrow> retM (of_nat i)))))))"

section \<open>Destroying a server\<close>

text \<open>The loop over the pages of a range that goes on after an error and reports the first one.\<close>

primrec unmap_loop :: "Error option \<Rightarrow> usize list \<Rightarrow> (kernel, Error option) kop" where
  "unmap_loop error [] = retM error"
| "unmap_loop error (addr # addrs) =
     bindM (note_error (unmap_page addr)) (\<lambda>e. unmap_loop (case error of None \<Rightarrow> e | Some _ \<Rightarrow> error) addrs)"

definition unmap_range :: "usize \<Rightarrow> usize \<Rightarrow> (kernel, unit) kop" where
  "unmap_range virt sz =
     bindM (unmap_loop None (step_by_page virt (virt + sz))) (\<lambda>error.
       case error of None \<Rightarrow> retM () | Some e \<Rightarrow> failM e)"

definition client_of :: "u16 \<Rightarrow> (kernel, PID) kop" where
  "client_of pid = liftO (unwrap_opt (nz_new (ucast pid :: u8)))"

definition return_to_client :: "u16 \<Rightarrow> u8 \<Rightarrow> usize \<Rightarrow> usize \<Rightarrow> usize \<Rightarrow> (kernel, unit) kop" where
  "return_to_client pid tid client_addr server_addr buf_size =
     bindM (client_of pid) (\<lambda>client_pid.
     thenM (unwrapM (return_memory server_addr client_pid (ucast tid) client_addr buf_size))
    (thenM (unwrapM (ready_thread client_pid (ucast tid)))
       (unwrapM (set_thread_result client_pid (ucast tid) (R_Error ServerNotFound)))))"

definition discard_entry :: "QueuedMessage \<Rightarrow> (kernel, unit) kop" where
  "discard_entry entry = (case entry of
     QWaitingForget _ _ _ _ _ _ \<Rightarrow> panicM
   | QWaitingReturnMemory _ _ _ _ _ _ \<Rightarrow> panicM
   | QWaitingReturnScalar _ _ _ _ \<Rightarrow> panicM
   | QEmpty \<Rightarrow> retM ()
   | QScalarMessage _ _ _ _ _ _ _ _ _ \<Rightarrow> retM ()
   | QMemoryMessageSend _ _ _ _ _ server_addr len _ _ \<Rightarrow> unwrapM (unmap_range server_addr len)
   | QBlockingScalarTerminated pid tid _ _ _ _ _ _ _ \<Rightarrow>
       bindM (client_of pid) (\<lambda>client_pid.
       thenM (unwrapM (set_thread_result client_pid (ucast tid) (R_Error ServerNotFound)))
         (unwrapM (ready_thread client_pid (ucast tid))))
   | QBlockingScalarMessage pid tid _ _ _ _ _ _ _ \<Rightarrow>
       bindM (client_of pid) (\<lambda>client_pid.
       thenM (unwrapM (set_thread_result client_pid (ucast tid) (R_Error ServerNotFound)))
         (unwrapM (ready_thread client_pid (ucast tid))))
   | QMemoryMessageROLend pid tid _ client_addr _ server_addr len _ _ \<Rightarrow>
       return_to_client pid tid client_addr server_addr len
   | QMemoryMessageRWLend pid tid _ client_addr _ server_addr len _ _ \<Rightarrow>
       return_to_client pid tid client_addr server_addr len
   | QMemoryMessageROLendTerminated pid tid _ client_addr _ server_addr len _ _ \<Rightarrow>
       return_to_client pid tid client_addr server_addr len
   | QMemoryMessageRWLendTerminated pid tid _ client_addr _ server_addr len _ _ \<Rightarrow>
       return_to_client pid tid client_addr server_addr len)"

text \<open>
  The \<open>while let Some(tid) = self.take_available_thread()\<close> loop.  Each round
  clears one bit of \<open>ready_threads\<close>, so 32 rounds and the one that finds
  nothing are enough.
\<close>

primrec wake_threads :: "nat \<Rightarrow> PID \<Rightarrow> server \<Rightarrow> (kernel, unit) kop" where
  "wake_threads 0 pid sv = retM ()"
| "wake_threads (Suc n) pid sv = (case take_available_thread sv of
     (Ok None, _) \<Rightarrow> retM ()
   | (Ok (Some tid), sv') \<Rightarrow>
       thenM (unwrapM (ready_thread pid tid))
      (thenM (unwrapM (set_thread_result pid tid (R_Error ServerNotFound))) (wake_threads n pid sv'))
   | _ \<Rightarrow> panicM)"

text \<open>
  \<open>Server::destroy\<close> takes the server by value; \<open>Some server\<close> is the \<open>Err\<close> that
  hands it back.  The last loop uses the number of slots as a number of bytes.
\<close>

definition server_destroy :: "server \<Rightarrow> (kernel, server option) kop" where
  "server_destroy sv =
     (if list_ex is_in_server (queue sv) then retM (Some sv)
      else thenM (for_each (queue sv) discard_entry)
          (bindM (getM table_current) (\<lambda>server_pid.
           thenM (wake_threads 33 server_pid (sv\<lparr>queue := map (\<lambda>_. QEmpty) (queue sv)\<rparr>))
          (thenM (for_each (step_by_page (queue_base sv) (queue_base sv + of_nat (length (queue sv))))
                    (\<lambda>addr. thenM (unwrapM (unmap_page addr)) (retM ())))
             (retM None)))))"

definition drop_connections :: "nat \<Rightarrow> kernel \<Rightarrow> kernel" where
  "drop_connections server_idx = upd_inner (\<lambda>i. i\<lparr>connection_map :=
     map (\<lambda>v. if v = Some (of_nat (server_idx + 2)) then None else v) (connection_map i)\<rparr>)"

definition destroy_server :: "PID \<Rightarrow> SID \<Rightarrow> (kernel, unit) kop" where
  "destroy_server pid sid =
     bindM (getM (sidx_from_sid sid pid)) (\<lambda>idx. case idx of
        None \<Rightarrow> failM ServerNotFound
      | Some sidx \<Rightarrow> let server_idx = unat sidx in
          bindM (getM (\<lambda>s. servers s ! server_idx)) (\<lambda>sv. case sv of None \<Rightarrow> panicM | Some sv \<Rightarrow>
          thenM (modM (\<lambda>s. s\<lparr>servers := (servers s)[server_idx := None]\<rparr>))
         (bindM (server_destroy sv) (\<lambda>r. case r of
             Some sv' \<Rightarrow> thenM (modM (\<lambda>s. s\<lparr>servers := (servers s)[server_idx := Some sv']\<rparr>)) (failM ServerQueueFull)
           | None \<Rightarrow>
               bindM (getM table_current) (\<lambda>pid.
               bindM (getM (\<lambda>s. length (processes s))) (\<lambda>n.
               thenM (for_each [0 ..< n] (\<lambda>i. bindM (getM (\<lambda>s. processes s ! i)) (\<lambda>p.
                        if process_free p then retM ()
                        else thenM (unwrapM (process_activate p)) (modM (drop_connections server_idx)))))
                 (bindM (unwrapM (get_process pid)) (\<lambda>p. unwrapM (process_activate p)))))))))"

end
