(* ===== verification/Lifecycle.thy ===== *)
theory Lifecycle
  imports Server_Table Syscall_Abi
begin

text \<open>
  Threads and processes coming and going, from \<open>kernel/src/services.rs\<close>:
  \<open>create_thread\<close>, \<open>destroy_thread\<close>, \<open>join_thread\<close>, \<open>create_process\<close> with
  \<open>Process::create\<close> of \<open>kernel/src/arch/riscv/process.rs\<close>, \<open>Process::terminate\<close>,
  \<open>terminate_process\<close> and \<open>shutdown\<close>.
\<close>

section \<open>Threads\<close>

definition create_thread :: "PID \<Rightarrow> thread_init \<Rightarrow> (kernel, TID) kop" where
  "create_thread pid thread_init =
     bindM (get_process pid) (\<lambda>p.
     thenM (process_activate p)
    (thenM process_current
    (bindM (bindM find_free_thread (\<lambda>t. liftO (ok_or t ThreadNotAvailable))) (\<lambda>new_tid.
     thenM (arch_setup_thread new_tid thread_init)
    (thenM (case state p of
         PS_Running x \<Rightarrow> set_state pid (PS_Running (x OR thread_bit new_tid))
       | PS_Allocated \<Rightarrow>
           thenM (modM (upd_inner (\<lambda>i. i\<lparr>inner_pid := pid\<rparr>))) (set_state pid (PS_Ready (thread_bit new_tid)))
       | _ \<Rightarrow> panicM)
       (retM new_tid))))))"

text \<open>The test of \<open>find_thread\<close> in \<open>destroy_thread\<close>: a thread blocked in \<open>JoinThread(tid)\<close>.\<close>

definition waits_for :: "usize \<Rightarrow> TID \<Rightarrow> TID \<Rightarrow> thread \<Rightarrow> bool" where
  "waits_for waiting_threads tid waiting_tid thr =
     (\<not> tid_in waiting_tid waiting_threads
      \<and> registers thr ! 9 = number_as_usize SN_JoinThread \<and> registers thr ! 10 = tid)"

text \<open>\<open>.unwrap_or_default()\<close>.\<close>

definition or_default :: "('s, usize) kop \<Rightarrow> ('s, usize) kop" where
  "or_default m = bindM (tryM m) (\<lambda>r. retM (case r of Inl _ \<Rightarrow> 0 | Inr v \<Rightarrow> v))"

definition destroy_thread :: "PID \<Rightarrow> TID \<Rightarrow> (kernel, bool) kop" where
  "destroy_thread pid tid =
     bindM (getM table_current) (\<lambda>current_pid.
     thenM (assertM (pid = current_pid))
    (bindM (get_process pid) (\<lambda>p. case state p of
       PS_Running waiting_threads \<Rightarrow>
         thenM process_current
        (bindM (or_default (arch_destroy_thread tid)) (\<lambda>return_value.
         bindM (getM (arch_find_thread (waits_for waiting_threads tid))) (\<lambda>waiter.
         bindM (case waiter of
             None \<Rightarrow> retM waiting_threads
           | Some waiting_tid \<Rightarrow>
               thenM (set_thread_result pid waiting_tid (R_Scalar1 return_value))
                 (retM (waiting_threads OR thread_bit waiting_tid))) (\<lambda>waiting_threads.
         bindM (get_process pid) (\<lambda>p.
         thenM (set_state pid (if waiting_threads = 0 then PS_Sleeping else PS_Ready waiting_threads))
        (let new_pid = (if waiting_threads = 0 then ppid p else pid)
         in thenM (switch_to_thread new_pid None) (retM (new_pid \<noteq> pid))))))))
     | _ \<Rightarrow> panicM)))"

definition join_thread :: "PID \<Rightarrow> TID \<Rightarrow> TID \<Rightarrow> (kernel, XResult) kop" where
  "join_thread pid tid join_tid =
     bindM (getM table_current) (\<lambda>current_pid.
     thenM (assertM (pid = current_pid))
       (if tid = join_tid then failM ThreadNotAvailable
        else thenM process_current
            (bindM (thread_exists join_tid) (\<lambda>ex.
               if ex
               then bindM (unwrapM (get_process pid)) (\<lambda>p.
                    thenM (map_errM (\<lambda>_. ProcessNotFound) (activate_process_thread tid (ppid p) 0 False PA_None))
                      (retM R_ResumeProcess))
               else retM (R_Scalar1 0)))))"

section \<open>Creating a process\<close>

text \<open>\<open>Process::create\<close> of the architecture.\<close>

definition arch_process_create :: "PID \<Rightarrow> process_init \<Rightarrow> (kernel, process_startup) kop" where
  "arch_process_create pid init_data =
     bindM (getM table_current) (\<lambda>current_pid.
     bindM (get_process pid) (\<lambda>p.
     thenM (modM (activate_mapping (mapping p)))
    (bindM create_server_id (\<lambda>server_id.
     bindM (liftO (case server_id of SID a b c d \<Rightarrow> Ok
        \<lparr>ti_call = pi_start init_data, ti_stack = pi_stack init_data,
         ti_arg1 = a, ti_arg2 = b, ti_arg3 = c, ti_arg4 = d\<rparr>)) (\<lambda>initial_thread.
     thenM (unwrapM (setup_process pid initial_thread))
    (thenM (create_server_with_address pid server_id False)
    (bindM (get_process current_pid) (\<lambda>cur.
     thenM (modM (activate_mapping (mapping cur)))
    (bindM (connect_process_to_server current_pid server_id) (\<lambda>cid.
     thenM (send_memory (mr_addr (pi_text init_data)) pid (pi_text_destination init_data) (mr_size (pi_text init_data)))
       (retM \<lparr>ps_pid = pid, ps_connection = cid\<rparr>)))))))))))"

definition create_process :: "process_init \<Rightarrow> (kernel, process_startup) kop" where
  "create_process init_process =
     bindM (getM (\<lambda>s. find (\<lambda>i. process_free (processes s ! i)) [0 ..< length (processes s)])) (\<lambda>slot. case slot of
        None \<Rightarrow> failM ProcessNotFound
      | Some idx \<Rightarrow>
          bindM (liftO (pid_from_usize (of_nat idx + 1))) (\<lambda>new_pid.
          thenM (modM (\<lambda>s. s\<lparr>processes := (processes s)[idx := (processes s ! idx)
                     \<lparr>proc_pid := new_pid, ppid := 1, state := PS_Allocated\<rparr>]\<rparr>))
         (bindM (getM (\<lambda>s. mapping (processes s ! idx))) (\<lambda>old_mapping.
          bindM (map_errM (\<lambda>_. InternalError) (allocate_mapping old_mapping new_pid)) (\<lambda>new_mapping.
          thenM (modM (\<lambda>s. s\<lparr>processes := (processes s)[idx := (processes s ! idx)\<lparr>mapping := new_mapping\<rparr>]\<rparr>))
         (bindM (unwrapM (arch_process_create new_pid init_process)) (\<lambda>startup.
          thenM (modM (\<lambda>s. s\<lparr>processes := (processes s)[idx := (processes s ! idx)\<lparr>state := PS_Ready (thread_bit INITIAL_TID)\<rparr>]\<rparr>))
            (retM startup))))))))"

section \<open>Termination\<close>

text \<open>\<open>Process::terminate\<close> on the entry of the table at \<open>idx\<close>.\<close>

definition process_terminate :: "nat \<Rightarrow> (kernel, unit) kop" where
  "process_terminate idx =
     bindM (getM (\<lambda>s. processes s ! idx)) (\<lambda>p.
       if process_free p then failM ProcessNotFound
       else thenM (release_all_memory_for_process (proc_pid p))
           (thenM (release_interrupts_for_pid (proc_pid p))
           (thenM (arch_destroy (proc_pid p))
              (modM (\<lambda>s. s\<lparr>processes := (processes s)[idx := (processes s ! idx)\<lparr>state := PS_Free\<rparr>]\<rparr>)))))"

definition tombstone :: "nat \<Rightarrow> kernel \<Rightarrow> kernel" where
  "tombstone idx = upd_inner (\<lambda>i. i\<lparr>connection_map :=
     map (\<lambda>v. if v = Some (of_nat idx + 2) then Some 1 else v) (connection_map i)\<rparr>)"

text \<open>What the first loop of \<open>terminate_process\<close> does for the server at \<open>idx\<close>.\<close>

definition detach_server :: "PID \<Rightarrow> nat \<Rightarrow> (kernel, unit) kop" where
  "detach_server target_pid idx =
     bindM (getM (\<lambda>s. (servers s ! idx, processes s))) (\<lambda>(sv, procs). case sv of
        None \<Rightarrow> retM ()
      | Some sv \<Rightarrow>
          thenM (if srv_pid sv = target_pid
                 then for_each procs (\<lambda>p. if process_free p then retM ()
                        else thenM (process_activate p) (modM (tombstone idx)))
                 else retM ())
         (if unat (srv_pid sv - 1) \<ge> length procs then panicM
          else thenM (unwrapM (process_activate (procs ! unat (srv_pid sv - 1))))
              (modM (\<lambda>s. s\<lparr>servers := (servers s)[idx := Some (discard_messages_for_pid target_pid sv)]\<rparr>))))"

definition drop_servers :: "PID \<Rightarrow> server option list \<Rightarrow> server option list" where
  "drop_servers pid = map (\<lambda>sv. case sv of Some sv' \<Rightarrow> if srv_pid sv' = pid then None else sv | None \<Rightarrow> None)"

definition terminate_process :: "PID \<Rightarrow> (kernel, PID) kop" where
  "terminate_process target_pid =
     bindM (getM (\<lambda>s. length (servers s))) (\<lambda>n.
     thenM (for_each [0 ..< n] (detach_server target_pid))
    (thenM (modM (\<lambda>s. s\<lparr>servers := drop_servers target_pid (servers s)\<rparr>))
    (bindM (get_process target_pid) (\<lambda>p.
     thenM (process_activate p)
    (thenM (process_terminate (pid_idx target_pid))
    (thenM (unwrapM (switch_to_thread (ppid p) None)) (retM (ppid p))))))))"

definition shutdown :: "(kernel, unit) kop" where
  "shutdown =
     bindM (getM (\<lambda>s. (length (servers s), length (processes s)))) (\<lambda>(n, m).
     thenM (for_each [0 ..< n] (\<lambda>i. bindM (getM (\<lambda>s. servers s ! i)) (\<lambda>sv. case sv of
         None \<Rightarrow> retM ()
       | Some sv \<Rightarrow>
           thenM (modM (\<lambda>s. s\<lparr>servers := (servers s)[i := None]\<rparr>))
          (bindM (server_destroy sv) (\<lambda>r. assertM (r = None))))))
       (for_each [0 ..< m] (\<lambda>i. bindM (getM (\<lambda>s. processes s ! i)) (\<lambda>p.
          if process_free p then retM ()
          else thenM (unwrapM (process_activate p)) (unwrapM (process_terminate i))))))"

end
