(* ===== verification/Kernel_Syscall.thy ===== *)
theory Kernel_Syscall
  imports Lifecycle
begin

text \<open>
  The system calls, from \<open>kernel/src/syscall.rs\<close>: the message-passing handlers
  \<open>send_message\<close>, \<open>return_memory\<close>, \<open>return_result\<close>, \<open>reply_and_receive_next\<close>
  and \<open>receive_message\<close>, the retry of a call, and the dispatch of \<open>handle\<close> and
  \<open>handle_inner\<close>.  Calls that only exist with the swap, raw random number,
  address translation or bao1x features are left out; the variants that the
  model has but no feature implements fall in the last branch of
  \<open>handle_inner\<close>, as in the source.
\<close>

datatype ExecutionType = Blocking | NonBlocking

section \<open>Yielding\<close>

text \<open>\<open>.map(|_| Ok(ResumeProcess)).unwrap_or(Err(ProcessNotFound))\<close>, then \<open>set_last_thread(..).ok()\<close>.\<close>

definition resume_other :: "TID \<Rightarrow> PID \<Rightarrow> TID \<Rightarrow> bool \<Rightarrow> PostActivateOp \<Rightarrow> (kernel, XResult) kop" where
  "resume_other tid new_pid new_tid can_resume lazy_arg =
     map_errM (\<lambda>_. ProcessNotFound)
       (thenM (activate_process_thread tid new_pid new_tid can_resume lazy_arg) (retM R_ResumeProcess))"

definition note_quantum_owner :: "(kernel, unit) kop" where
  "note_quantum_owner =
     bindM (getM (\<lambda>s. (original_pid s, original_tid s))) (\<lambda>(pid, tid).
     bindM (liftO (unwrap_opt (nz_new pid))) (\<lambda>pid. ignoreM (set_last_thread pid tid)))"

definition leave_to :: "TID \<Rightarrow> PID \<Rightarrow> TID \<Rightarrow> bool \<Rightarrow> PostActivateOp \<Rightarrow> (kernel, XResult) kop" where
  "leave_to tid new_pid new_tid can_resume lazy_arg =
     bindM (tryM (resume_other tid new_pid new_tid can_resume lazy_arg)) (\<lambda>result.
     thenM note_quantum_owner (case result of Inl e \<Rightarrow> failM e | Inr r \<Rightarrow> retM r))"

definition reset_switchto_caller :: "(kernel, unit) kop" where
  "reset_switchto_caller = modM (\<lambda>s. s\<lparr>switchto_caller := None\<rparr>)"

text \<open>\<open>SWITCHTO_CALLER.take().expect(..)\<close>.\<close>

definition take_caller :: "(kernel, PID \<times> TID) kop" where
  "take_caller s = (case switchto_caller s of
     None \<Rightarrow> (Panic, s) | Some c \<Rightarrow> (Ok c, s\<lparr>switchto_caller := None\<rparr>))"

definition do_yield :: "PID \<Rightarrow> TID \<Rightarrow> (kernel, XResult) kop" where
  "do_yield pid tid = bindM take_caller (\<lambda>(parent_pid, parent_ctx). leave_to tid parent_pid parent_ctx True PA_None)"

definition retry_syscall :: "PID \<Rightarrow> TID \<Rightarrow> (kernel, XResult) kop" where
  "retry_syscall pid tid = thenM process_current (thenM (retry_instruction tid) (do_yield pid tid))"

section \<open>Sending\<close>

definition client_address_of :: "Message \<Rightarrow> usize option" where
  "client_address_of message = (case memory_message_of message of
     None \<Rightarrow> None | Some msg \<Rightarrow> nz_new (mr_addr (mm_buf msg)))"

definition rebase :: "memory_message \<Rightarrow> usize \<Rightarrow> (kernel, memory_message) kop" where
  "rebase msg new_virt =
     bindM (liftO (memory_range_new new_virt (mr_size (mm_buf msg)))) (\<lambda>buf. retM (msg\<lparr>mm_buf := buf\<rparr>))"

text \<open>Translate the buffer of the message into the address space of the server.\<close>

definition translate_message :: "PID \<Rightarrow> Message \<Rightarrow> (kernel, Message) kop" where
  "translate_message server_pid message = (case message of
     Scalar _ \<Rightarrow> retM message
   | BlockingScalar _ \<Rightarrow> retM message
   | Move msg \<Rightarrow>
       bindM (send_memory (mr_addr (mm_buf msg)) server_pid 0 (mr_size (mm_buf msg))) (\<lambda>new_virt.
       bindM (rebase msg new_virt) (\<lambda>m. retM (Move m)))
   | MutableBorrow msg \<Rightarrow>
       bindM (lend_memory (mr_addr (mm_buf msg)) server_pid 0 (mr_size (mm_buf msg)) True) (\<lambda>new_virt.
       bindM (rebase msg new_virt) (\<lambda>m. retM (MutableBorrow m)))
   | Borrow msg \<Rightarrow>
       bindM (lend_memory (mr_addr (mm_buf msg)) server_pid 0 (mr_size (mm_buf msg)) False) (\<lambda>new_virt.
       bindM (rebase msg new_virt) (\<lambda>m. retM (Borrow m))))"

definition envelope_for :: "usize \<Rightarrow> usize \<Rightarrow> PID \<Rightarrow> Message \<Rightarrow> envelope" where
  "envelope_for sidx idx pid message =
     \<lparr>env_sender = sender_id_to_usize \<lparr>sid_sidx = sidx, sid_idx = idx, sid_pid = Some pid\<rparr>, env_body = message\<rparr>"

text \<open>\<open>map_err(|e| { server.return_available_thread(tid); e })\<close>.\<close>

definition or_return_thread :: "usize \<Rightarrow> TID \<Rightarrow> (kernel, 'a) kop \<Rightarrow> (kernel, 'a) kop" where
  "or_return_thread sidx server_tid m =
     bindM (tryM m) (\<lambda>r. case r of
        Inl e \<Rightarrow> thenM (with_server sidx (return_available_thread server_tid)) (failM e)
      | Inr x \<Rightarrow> retM x)"

text \<open>The server has a thread waiting for a message: hand it over.\<close>

definition deliver_now :: "PID \<Rightarrow> TID \<Rightarrow> usize \<Rightarrow> PID \<Rightarrow> TID \<Rightarrow> Message \<Rightarrow> usize option \<Rightarrow> (kernel, XResult) kop" where
  "deliver_now pid tid sidx server_pid server_tid message client_address =
     thenM (or_return_thread sidx server_tid (ready_thread server_pid server_tid))
    (bindM (unwrapM (runnable server_pid (Some server_tid))) (\<lambda>can_run.
       if is_blocking message
       then if \<not> can_run
            then bindM (or_return_thread sidx server_tid
                          (remember_server_message sidx pid tid message client_address)) (\<lambda>sender_idx.
                 bindM take_caller (\<lambda>(parent_pid, parent_tid).
                   leave_to tid parent_pid parent_tid False
                     (PA_SetThreadResult (R_MessageEnvelope (envelope_for sidx sender_idx pid message)))))
            else bindM (map_errM (\<lambda>_. ProcessNotFound)
                          (activate_process_thread tid server_pid server_tid False
                             (PA_RememberServerMessage sidx pid tid message client_address))) (\<lambda>sender_idx.
                   retM (R_MessageEnvelope (envelope_for sidx sender_idx pid message)))
       else thenM (set_thread_result server_pid server_tid
                     (R_MessageEnvelope (envelope_for sidx 0 pid message))) (retM R_Ok)))"

definition send_message :: "PID \<Rightarrow> TID \<Rightarrow> CID \<Rightarrow> Message \<Rightarrow> (kernel, XResult) kop" where
  "send_message pid tid cid message0 =
     bindM (bindM (sidx_from_cid cid) (\<lambda>i. liftO (ok_or i ServerNotFound))) (\<lambda>sidx.
     bindM (bindM (server_from_sidx sidx) (\<lambda>sv. liftO (unwrap_opt sv))) (\<lambda>sv.
       let server_pid = srv_pid sv; client_address = client_address_of message0; blocking = is_blocking message0
       in bindM (translate_message server_pid message0) (\<lambda>message.
          bindM (with_server sidx take_available_thread) (\<lambda>server_tid. case server_tid of
            Some server_tid \<Rightarrow> deliver_now pid tid sidx server_pid server_tid message client_address
          | None \<Rightarrow>
              thenM (queue_server_message sidx pid tid message client_address)
                (if blocking
                 then bindM (unwrapM (get_process pid)) (\<lambda>p.
                      thenM reset_switchto_caller (leave_to tid (ppid p) 0 False PA_None))
                 else retM R_Ok)))))"

section \<open>Replying\<close>

definition reply_server :: "PID \<Rightarrow> sender_id \<Rightarrow> (kernel, unit) kop" where
  "reply_server server_pid sender =
     bindM (bindM (server_from_sidx (sid_sidx sender)) (\<lambda>sv. liftO (ok_or sv ServerNotFound))) (\<lambda>sv.
       if srv_pid sv \<noteq> server_pid then failM ServerNotFound else retM ())"

text \<open>Whether the reply goes back to the server instead of switching to the client.\<close>

definition stays_in_server :: "PID \<Rightarrow> PID \<Rightarrow> TID \<Rightarrow> bool \<Rightarrow> (kernel, bool) kop" where
  "stays_in_server server_pid client_pid client_tid in_irq =
     (if in_irq then retM True
      else bindM (runnable client_pid (Some client_tid)) (\<lambda>can_run.
        if \<not> can_run then retM True
        else getM (\<lambda>s. original_pid s = server_pid \<and> original_tid s = client_tid)))"

definition complete_reply :: "PID \<Rightarrow> TID \<Rightarrow> bool \<Rightarrow> PID \<Rightarrow> TID \<Rightarrow> XResult \<Rightarrow> XResult \<Rightarrow> (kernel, XResult) kop" where
  "complete_reply server_pid server_tid in_irq client_pid client_tid return_value server_result =
     bindM (stays_in_server server_pid client_pid client_tid in_irq) (\<lambda>stay.
       if stay then thenM (set_thread_result client_pid client_tid return_value) (retM server_result)
       else thenM (unschedule_thread server_pid server_tid)
           (thenM (ready_thread server_pid server_tid)
           (thenM (set_thread_result server_pid server_tid server_result)
           (thenM (switch_to_thread client_pid (Some client_tid)) (retM return_value)))))"

definition sys_return_memory ::
  "PID \<Rightarrow> TID \<Rightarrow> bool \<Rightarrow> MessageSender \<Rightarrow> memory_range \<Rightarrow> usize option \<Rightarrow> usize option \<Rightarrow> (kernel, XResult) kop" where
  "sys_return_memory server_pid server_tid in_irq sender0 buf offset valid =
     (let sender = sender_id_from_usize sender0
      in thenM (reply_server server_pid sender)
        (bindM (with_server (sid_sidx sender) (take_waiting_message (unat (sid_idx sender)) (Some buf))) (\<lambda>result.
         case result of
           WM_BorrowedMemory client_pid client_tid server_addr client_addr len \<Rightarrow>
             thenM (return_memory server_addr client_pid client_tid client_addr len)
            (thenM (ready_thread client_pid client_tid)
               (complete_reply server_pid server_tid in_irq client_pid client_tid (R_MemoryReturned offset valid) R_Ok))
         | WM_MovedMemory \<Rightarrow> retM R_Ok
         | WM_ForgetMemory rng \<Rightarrow>
             (if \<not> aligned (mr_addr rng) then failM BadAlignment
              else thenM (unmap_range (mr_addr rng) (mr_size rng)) (retM R_Ok))
         | WM_ScalarMessage _ _ \<Rightarrow> failM DoubleFree
         | WM_None \<Rightarrow> failM DoubleFree)))"

definition return_result :: "PID \<Rightarrow> TID \<Rightarrow> bool \<Rightarrow> MessageSender \<Rightarrow> XResult \<Rightarrow> (kernel, XResult) kop" where
  "return_result server_pid server_tid in_irq sender0 return_value =
     (let sender = sender_id_from_usize sender0
      in thenM (reply_server server_pid sender)
        (bindM (with_server (sid_sidx sender) (take_waiting_message (unat (sid_idx sender)) None)) (\<lambda>result.
         case result of
           WM_ScalarMessage client_pid client_tid \<Rightarrow>
             thenM (ready_thread client_pid client_tid)
               (complete_reply server_pid server_tid in_irq client_pid client_tid return_value R_Ok)
         | _ \<Rightarrow> failM DoubleFree)))"

definition scalar_reply :: "usize \<Rightarrow> usize \<Rightarrow> usize \<Rightarrow> usize \<Rightarrow> usize \<Rightarrow> usize \<Rightarrow> XResult" where
  "scalar_reply scalar_type a0 a1 a2 a3 a4 =
     (if scalar_type = 1 then R_Scalar1 a1 else if scalar_type = 2 then R_Scalar2 a1 a2 else R_Scalar5 a0 a1 a2 a3 a4)"

text \<open>\<open>take_next_message\<close> gives no error here: its \<open>Option\<close> is the value.\<close>

definition take_or_park :: "usize \<Rightarrow> TID \<Rightarrow> (server, envelope option) kop" where
  "take_or_park sidx tid =
     bindM (take_next_message sidx) (\<lambda>m. case m of
        Some e \<Rightarrow> retM (Some e)
      | None \<Rightarrow> thenM (park_thread tid) (retM None))"

definition reply_and_receive_next ::
  "PID \<Rightarrow> TID \<Rightarrow> bool \<Rightarrow> MessageSender \<Rightarrow> usize \<Rightarrow> usize \<Rightarrow> usize \<Rightarrow> usize \<Rightarrow> usize \<Rightarrow> usize \<Rightarrow> (kernel, XResult) kop" where
  "reply_and_receive_next server_pid server_tid in_irq sender0 a0 a1 a2 a3 a4 scalar_type =
     (let sender = sender_id_from_usize sender0
      in thenM (reply_server server_pid sender)
        (bindM (with_server (sid_sidx sender) (take_waiting_message (unat (sid_idx sender)) None)) (\<lambda>result.
         bindM (with_server (sid_sidx sender) (take_or_park (sid_sidx sender) server_tid)) (\<lambda>next_message.
         bindM (case result of
             WM_ScalarMessage pid tid \<Rightarrow> retM (pid, tid, scalar_reply scalar_type a0 a1 a2 a3 a4)
           | WM_BorrowedMemory pid tid server_addr client_addr len \<Rightarrow>
               thenM (return_memory server_addr pid tid client_addr len)
                 (retM (pid, tid, R_MemoryReturned (nz_new a3) (nz_new a4)))
           | _ \<Rightarrow> failM DoubleFree) (\<lambda>(client_pid, client_tid, return_value).
         thenM (ready_thread client_pid client_tid)
           (case next_message of
              Some msg \<Rightarrow>
                complete_reply server_pid server_tid in_irq client_pid client_tid return_value (R_MessageEnvelope msg)
            | None \<Rightarrow> resume_other server_tid client_pid client_tid False (PA_SetThreadResult return_value)))))))"

section \<open>Receiving\<close>

definition receive_message :: "PID \<Rightarrow> TID \<Rightarrow> SID \<Rightarrow> ExecutionType \<Rightarrow> (kernel, XResult) kop" where
  "receive_message pid tid sid blocking =
     bindM (thread_is_running pid tid) (\<lambda>running.
     thenM (assertM running)
    (bindM (bindM (getM (sidx_from_sid sid pid)) (\<lambda>i. liftO (ok_or i ServerNotFound))) (\<lambda>sidx.
     bindM (bindM (server_from_sidx sidx) (\<lambda>sv. liftO (ok_or sv ServerNotFound))) (\<lambda>sv.
       if srv_pid sv \<noteq> pid then failM ServerNotFound
       else bindM (with_server sidx (take_next_message sidx)) (\<lambda>msg. case msg of
          Some msg \<Rightarrow> retM (R_MessageEnvelope msg)
        | None \<Rightarrow>
            (if blocking = NonBlocking then retM R_None
             else thenM (with_server sidx (park_thread tid))
                 (thenM reset_switchto_caller
                 (bindM (unwrapM (get_process pid)) (\<lambda>p. leave_to tid (ppid p) 0 False PA_None)))))))))"

section \<open>Memory calls\<close>

definition sys_map_memory :: "PID \<Rightarrow> usize option \<Rightarrow> usize option \<Rightarrow> usize \<Rightarrow> MemoryFlags \<Rightarrow> (kernel, XResult) kop" where
  "sys_map_memory pid phys virt sz req_flags =
     (let phys_ptr = nz_get phys; virt_ptr = nz_get virt
      in if pid \<noteq> 1 \<and> (case virt of None \<Rightarrow> False | Some v \<Rightarrow> v \<ge> USER_AREA_END) then failM BadAddress
         else if sz AND (PAGE_SIZE - 1) \<noteq> 0 then failM BadAlignment
         else bindM (map_range phys_ptr virt_ptr sz pid req_flags MT_Default) (\<lambda>rng.
              thenM (if phys_ptr \<noteq> 0
                     then bindM (getM (is_main_memory phys_ptr)) (\<lambda>main.
                          thenM (if main then bzero (mr_addr rng) (mr_addr rng + mr_size rng) else retM ())
                            (for_each (step_by_page (mr_addr rng) (mr_addr rng + mr_size rng))
                              (\<lambda>a. unwrapM (hand_page_to_user a))))
                     else retM ())
                (retM (R_MemoryRange rng))))"

definition sys_increase_heap :: "usize \<Rightarrow> MemoryFlags \<Rightarrow> (kernel, XResult) kop" where
  "sys_increase_heap delta flags =
     (if delta AND 0xfff \<noteq> 0 then failM BadAlignment
      else if delta = 0
      then bindM (getM (\<lambda>s. (mem_heap_base (cur_inner s), mem_heap_size (cur_inner s)))) (\<lambda>(start, len).
           bindM (unwrapM (liftO (memory_range_new start (if len = 0 then 4096 else len)) :: (kernel, memory_range) kop))
             (\<lambda>r. retM (R_MemoryRange r)))
      else bindM (getM cur_inner) (\<lambda>i.
        if mem_heap_size i + delta > mem_heap_max i then failM OutOfMemory
        else thenM (modM (upd_inner (\<lambda>i. i\<lparr>mem_heap_size := mem_heap_size i + delta\<rparr>)))
            (bindM (reserve_range (mem_heap_base i + mem_heap_size i) delta flags) (\<lambda>r. retM (R_MemoryRange r)))))"

definition sys_decrease_heap :: "usize \<Rightarrow> (kernel, XResult) kop" where
  "sys_decrease_heap delta =
     (if delta AND 0xfff \<noteq> 0 then failM BadAlignment
      else bindM (getM cur_inner) (\<lambda>i.
        if delta > mem_heap_size i then failM OutOfMemory
        else let end_addr = mem_heap_base i + mem_heap_size i
          in thenM (modM (upd_inner (\<lambda>i. i\<lparr>mem_heap_size := mem_heap_size i - delta\<rparr>)))
            (thenM (for_each (step_by_page (end_addr - delta) end_addr)
                      (\<lambda>page. thenM (unwrapM (unmap_page page)) (retM ())))
            (bindM (unwrapM (liftO (memory_range_new (mem_heap_base i) (mem_heap_size i - delta)) :: (kernel, memory_range) kop))
               (\<lambda>r. retM (R_MemoryRange r))))))"

definition sys_adjust_limit :: "usize \<Rightarrow> usize \<Rightarrow> usize \<Rightarrow> (kernel, XResult) kop" where
  "sys_adjust_limit index current new =
     (if index = 1
      then thenM (modM (upd_inner (\<lambda>p. if mem_heap_max p = current then p\<lparr>mem_heap_max := new\<rparr> else p)))
             (getM (\<lambda>s. R_Scalar2 index (mem_heap_max (cur_inner s))))
      else if index = 2
      then thenM (modM (upd_inner (\<lambda>p.
                if mem_heap_size p = current \<and> new < mem_heap_max p then p\<lparr>mem_heap_size := new\<rparr> else p)))
             (getM (\<lambda>s. R_Scalar2 index (mem_heap_size (cur_inner s))))
      else failM InvalidLimit)"

section \<open>Dispatch\<close>

text \<open>\<open>match result { Err(e0) => retry_syscall(pid, tid), .. }\<close>.\<close>

definition retry_on :: "Error \<Rightarrow> PID \<Rightarrow> TID \<Rightarrow> (kernel, XResult) kop \<Rightarrow> (kernel, XResult) kop" where
  "retry_on e0 pid tid m =
     bindM (tryM m) (\<lambda>r. case r of
        Inr x \<Rightarrow> retM x
      | Inl e \<Rightarrow> if e = e0 then retry_syscall pid tid else failM e)"

definition sys_switch_to :: "PID \<Rightarrow> TID \<Rightarrow> PID \<Rightarrow> usize \<Rightarrow> (kernel, XResult) kop" where
  "sys_switch_to pid tid new_pid new_tid =
     bindM (getM switchto_caller) (\<lambda>c.
     thenM (assertM (c = None))
    (thenM (modM (\<lambda>s. s\<lparr>switchto_caller := Some (pid, tid)\<rparr>))
    (bindM (activate_process_thread tid new_pid new_tid True PA_None) (\<lambda>new_tid.
     thenM (modM (\<lambda>s. s\<lparr>original_pid := new_pid, original_tid := new_tid\<rparr>)) (retM R_ResumeProcess)))))"

definition sys_create_thread :: "PID \<Rightarrow> TID \<Rightarrow> thread_init \<Rightarrow> (kernel, XResult) kop" where
  "sys_create_thread pid tid thread_init =
     bindM (create_thread pid thread_init) (\<lambda>new_tid.
     thenM (unwrapM (switch_to_thread pid (Some new_tid)))
    (thenM (unwrapM (set_thread_result pid tid (R_ThreadID new_tid))) (retM R_ResumeProcess)))"

definition sys_join_thread :: "PID \<Rightarrow> TID \<Rightarrow> TID \<Rightarrow> (kernel, XResult) kop" where
  "sys_join_thread pid tid other_tid =
     bindM (join_thread pid tid other_tid) (\<lambda>ret.
     thenM (if ret = R_ResumeProcess then reset_switchto_caller else retM ()) (retM ret))"

definition handle_inner :: "PID \<Rightarrow> TID \<Rightarrow> bool \<Rightarrow> SysCall \<Rightarrow> (kernel, XResult) kop" where
  "handle_inner pid tid in_irq call = (case call of
     SC_MapMemory phys virt sz req_flags \<Rightarrow> sys_map_memory pid phys virt sz req_flags
   | SC_UnmapMemory rng \<Rightarrow>
       (if \<not> aligned (mr_addr rng) then failM BadAlignment
        else thenM (unmap_range (mr_addr rng) (mr_size rng)) (retM R_Ok))
   | SC_IncreaseHeap delta flags \<Rightarrow> sys_increase_heap delta flags
   | SC_DecreaseHeap delta \<Rightarrow> sys_decrease_heap delta
   | SC_SwitchTo new_pid new_tid \<Rightarrow> sys_switch_to pid tid new_pid new_tid
   | SC_ClaimInterrupt no callback arg \<Rightarrow> thenM (interrupt_claim no pid callback arg) (retM R_Ok)
   | SC_FreeInterrupt no \<Rightarrow> thenM (interrupt_free no pid) (retM R_Ok)
   | SC_Yield \<Rightarrow> do_yield pid tid
   | SC_ReturnToParent _ _ \<Rightarrow>
       thenM (modM (\<lambda>s. case switchto_caller s of
            None \<Rightarrow> s | Some c \<Rightarrow> s\<lparr>switchto_caller := None, previous_pair := Some c\<rparr>)) (retM R_ResumeProcess)
   | SC_ReceiveMessage sid \<Rightarrow> receive_message pid tid sid Blocking
   | SC_TryReceiveMessage sid \<Rightarrow> receive_message pid tid sid NonBlocking
   | SC_WaitEvent \<Rightarrow>
       bindM (unwrapM (get_process pid)) (\<lambda>p.
       thenM reset_switchto_caller (leave_to tid (ppid p) 0 False PA_None))
   | SC_CreateThread thread_init \<Rightarrow> sys_create_thread pid tid thread_init
   | SC_CreateProcess process_init \<Rightarrow> bindM (create_process process_init) (\<lambda>p. retM (R_NewProcess p))
   | SC_CreateServerWithAddress name \<Rightarrow>
       bindM (create_server_with_address pid name True) (\<lambda>(sid, cid). retM (R_NewServerID sid cid))
   | SC_CreateServer \<Rightarrow> bindM (create_server pid True) (\<lambda>(sid, cid). retM (R_NewServerID sid cid))
   | SC_CreateServerId \<Rightarrow> bindM create_server_id (\<lambda>sid. retM (R_ServerID sid))
   | SC_TryConnect sid \<Rightarrow> bindM (connect_to_server sid) (\<lambda>cid. retM (R_ConnectionID cid))
   | SC_ReturnMemory sender buf offset valid \<Rightarrow> sys_return_memory pid tid in_irq sender buf offset valid
   | SC_ReturnScalar1 sender arg \<Rightarrow> return_result pid tid in_irq sender (R_Scalar1 arg)
   | SC_ReturnScalar2 sender arg1 arg2 \<Rightarrow> return_result pid tid in_irq sender (R_Scalar2 arg1 arg2)
   | SC_ReturnScalar5 sender arg1 arg2 arg3 arg4 arg5 \<Rightarrow>
       return_result pid tid in_irq sender (R_Scalar5 arg1 arg2 arg3 arg4 arg5)
   | SC_ReplyAndReceiveNext sender a0 a1 a2 a3 a4 scalar_type \<Rightarrow>
       reply_and_receive_next pid tid in_irq sender a0 a1 a2 a3 a4 scalar_type
   | SC_TrySendMessage cid message \<Rightarrow> send_message pid tid cid message
   | SC_TerminateProcess _ \<Rightarrow>
       thenM (unschedule_thread pid tid)
      (thenM (terminate_process pid) (thenM reset_switchto_caller (retM R_ResumeProcess)))
   | SC_Shutdown \<Rightarrow> thenM shutdown (retM R_Ok)
   | SC_GetProcessId \<Rightarrow> retM (R_ProcessID pid)
   | SC_GetThreadId \<Rightarrow> retM (R_ThreadID tid)
   | SC_Connect sid \<Rightarrow>
       retry_on ServerNotFound pid tid (bindM (connect_to_server sid) (\<lambda>cid. retM (R_ConnectionID cid)))
   | SC_ConnectForProcess pid sid \<Rightarrow>
       retry_on ServerNotFound pid tid (bindM (connect_process_to_server pid sid) (\<lambda>cid. retM (R_ConnectionID cid)))
   | SC_SendMessage cid message \<Rightarrow> retry_on ServerQueueFull pid tid (send_message pid tid cid message)
   | SC_Disconnect cid \<Rightarrow> thenM (disconnect_from_server cid) (retM R_Ok)
   | SC_DestroyServer sid \<Rightarrow> thenM (destroy_server pid sid) (retM R_Ok)
   | SC_JoinThread other_tid \<Rightarrow> sys_join_thread pid tid other_tid
   | SC_UpdateMemoryFlags rng flags target \<Rightarrow>
       (if target \<noteq> None then failM ProcessNotChild else thenM (update_memory_flags rng flags) (retM R_Ok))
   | SC_AdjustProcessLimit index current new \<Rightarrow> sys_adjust_limit index current new
   | SC_PlatformSpecific _ _ _ _ _ _ _ \<Rightarrow> panicM
   | _ \<Rightarrow> failM UnhandledSyscall)"

definition handle :: "PID \<Rightarrow> TID \<Rightarrow> bool \<Rightarrow> SysCall \<Rightarrow> (kernel, XResult) kop" where
  "handle pid tid in_irq call =
     (if in_irq \<and> \<not> can_call_from_interrupt call then failM InvalidSyscall else handle_inner pid tid in_irq call)"

end
