(* ===== verification/Trap.thy ===== *)
theory Trap
  imports Kernel_Syscall
begin

text \<open>
  The trap entry of \<open>kernel/src/arch/riscv/irq.rs\<close>, the decoding of the trap
  cause of \<open>kernel/src/arch/riscv/exception.rs\<close> and the interrupt dispatch of
  \<open>kernel/src/irq.rs\<close>.

  The control registers a trap reads are arguments: the cause, the faulting
  instruction and address, the privilege the trap came from, and the pending
  interrupts.  \<open>trap_handler\<close> does not return in the source; its result here is
  how it leaves the kernel: by resuming a thread frame as it is, by resuming it
  with a result in the argument registers, or by halting.
\<close>

section \<open>Causes\<close>

datatype (plugins only: code size) RiscvException =
    RE_NoException
  | RE_UserSoftwareInterrupt usize
  | RE_SupervisorSoftwareInterrupt usize
  | RE_MachineSoftwareInterrupt usize
  | RE_UserTimerInterrupt usize
  | RE_SupervisorTimerInterrupt usize
  | RE_MachineTimerInterrupt usize
  | RE_UserExternalInterrupt usize
  | RE_SupervisorExternalInterrupt usize
  | RE_MachineExternalInterrupt usize
  | RE_ReservedInterrupt usize usize
  | RE_InstructionAddressMisaligned usize usize
  | RE_InstructionAccessFault usize usize
  | RE_IllegalInstruction usize usize
  | RE_Breakpoint usize
  | RE_LoadAddressMisaligned usize usize
  | RE_LoadAccessFault usize usize
  | RE_StoreAddressMisaligned usize usize
  | RE_StoreAccessFault usize usize
  | RE_CallFromUMode usize usize
  | RE_CallFromSMode usize usize
  | RE_CallFromMMode usize
  | RE_InstructionPageFault usize usize
  | RE_LoadPageFault usize usize
  | RE_StorePageFault usize usize
  | RE_ReservedFault usize usize usize

definition from_regs :: "usize \<Rightarrow> usize \<Rightarrow> usize \<Rightarrow> RiscvException" where
  "from_regs cause epc tval =
     (if epc = 0 \<and> tval = 0 \<and> cause = 0 then RE_NoException
      else if cause = 0x80000000 then RE_UserSoftwareInterrupt epc
      else if cause = 0x80000001 then RE_SupervisorSoftwareInterrupt epc
      else if cause = 0x80000003 then RE_MachineSoftwareInterrupt epc
      else if cause = 0x80000004 then RE_UserTimerInterrupt epc
      else if cause = 0x80000005 then RE_SupervisorTimerInterrupt epc
      else if cause = 0x80000007 then RE_MachineTimerInterrupt epc
      else if cause = 0x80000008 then RE_UserExternalInterrupt epc
      else if cause = 0x80000009 then RE_SupervisorExternalInterrupt epc
      else if cause = 0x8000000b then RE_MachineExternalInterrupt epc
      else if cause = 0 then RE_InstructionAddressMisaligned epc tval
      else if cause = 1 then RE_InstructionAccessFault epc tval
      else if cause = 2 then RE_IllegalInstruction epc tval
      else if cause = 3 then RE_Breakpoint epc
      else if cause = 4 then RE_LoadAddressMisaligned epc tval
      else if cause = 5 then RE_LoadAccessFault epc tval
      else if cause = 6 then RE_StoreAddressMisaligned epc tval
      else if cause = 7 then RE_StoreAccessFault epc tval
      else if cause = 8 then RE_CallFromUMode epc tval
      else if cause = 9 then RE_CallFromSMode epc tval
      else if cause = 11 then RE_CallFromMMode epc
      else if cause = 12 then RE_InstructionPageFault epc tval
      else if cause = 13 then RE_LoadPageFault epc tval
      else if cause = 15 then RE_StorePageFault epc tval
      else if cause \<le> 0x7fffffff then RE_ReservedFault cause epc tval
      else RE_ReservedInterrupt (cause AND 0x7fffffff) epc)"

text \<open>The arguments of a user exception handler; the numbers are those of \<open>ExceptionType\<close>.\<close>

definition generate_exception_args :: "RiscvException \<Rightarrow> usize list option" where
  "generate_exception_args ex = (case ex of
     RE_InstructionAddressMisaligned epc addr \<Rightarrow> Some [0, epc, addr]
   | RE_InstructionAccessFault epc addr \<Rightarrow> Some [1, epc, addr]
   | RE_IllegalInstruction epc instruction \<Rightarrow> Some [2, epc, instruction]
   | RE_LoadAddressMisaligned epc addr \<Rightarrow> Some [3, epc, addr]
   | RE_LoadAccessFault epc addr \<Rightarrow> Some [4, epc, addr]
   | RE_StoreAddressMisaligned epc addr \<Rightarrow> Some [5, epc, addr]
   | RE_StoreAccessFault epc addr \<Rightarrow> Some [6, epc, addr]
   | RE_InstructionPageFault epc addr \<Rightarrow> Some [7, epc, addr]
   | RE_LoadPageFault epc addr \<Rightarrow> Some [8, epc, addr]
   | RE_StorePageFault epc addr \<Rightarrow> Some [9, epc, addr]
   | _ \<Rightarrow> None)"

section \<open>Interrupts\<close>

text \<open>\<open>irq::handle\<close>: mask what has no handler, call the first handler found.\<close>

fun irq_handle :: "usize \<Rightarrow> nat \<Rightarrow> (PID \<times> usize \<times> usize option) option list \<Rightarrow> (kernel, XResult) kop" where
  "irq_handle irqs_pending irq_no [] = retM R_ResumeProcess"
| "irq_handle irqs_pending irq_no (handler # hs) =
     (if irqs_pending AND thread_bit (of_nat irq_no) \<noteq> 0
      then (case handler of
          Some (pid, f, arg) \<Rightarrow>
            thenM disable_all_irqs
           (thenM (make_callback_to pid f (of_nat irq_no) (nz_get arg)) (retM R_ResumeProcess))
        | None \<Rightarrow> thenM (disable_irq (of_nat irq_no)) (irq_handle irqs_pending (irq_no + 1) hs))
      else irq_handle irqs_pending (irq_no + 1) hs)"

definition finish_isr :: "(kernel, bool) kop" where
  "finish_isr =
     bindM (getM handling_irq) (\<lambda>was.
     thenM (modM (\<lambda>s. s\<lparr>handling_irq := False\<rparr>))
       (if \<not> was then retM False
        else bindM (bindM (getM previous_pair) (\<lambda>p. liftO (unwrap_opt p))) (\<lambda>(pid, tid).
             thenM (modM (\<lambda>s. s\<lparr>previous_pair := None\<rparr>))
            (thenM (unwrapM (finish_callback_and_resume pid tid))
            (thenM enable_all_irqs (retM True))))))"

section \<open>The trap handler\<close>

datatype (plugins only: code size) trap_exit =
    Resume thread
  | ReturnResult XResult thread
  | Halt

record trap =
  scause :: usize
  trap_epc :: usize
  stval :: usize
  spp_supervisor :: bool
  sip :: usize
  trap_args :: "usize list"

text \<open>\<open>resume(.., process.current_thread())\<close> inside \<open>with_current_mut\<close>.\<close>

definition resume_current :: "(kernel, trap_exit) kop" where
  "resume_current = thenM process_current (bindM current_thread_index (\<lambda>i. getM (\<lambda>s. Resume (get_thread i s))))"

definition return_current :: "XResult \<Rightarrow> (kernel, trap_exit) kop" where
  "return_current r = thenM process_current (bindM current_thread_index (\<lambda>i. getM (\<lambda>s. ReturnResult r (get_thread i s))))"

text \<open>The \<open>pid\<close> the handler starts from: the address space identifier of \<open>satp\<close>.\<close>

definition trap_pid :: "(kernel, PID) kop" where
  "trap_pid = bindM (getM arch_current_pid) (\<lambda>p. liftO (unwrap_opt p))"

definition trap_syscall :: "PID \<Rightarrow> trap \<Rightarrow> (kernel, trap_exit) kop" where
  "trap_syscall pid t =
     thenM process_current
    (bindM current_thread_index (\<lambda>i.
     thenM (modM (upd_thread i (\<lambda>th. th\<lparr>sepc := sepc th + 4\<rparr>)))
    (bindM (getM current_tid) (\<lambda>tid.
     bindM (tryM (liftO (from_args_list (trap_args t)))) (\<lambda>call. case call of
         Inl _ \<Rightarrow> return_current (R_Error UnhandledSyscall)
       | Inr call \<Rightarrow>
           bindM (getM (\<lambda>s. previous_pair s \<noteq> None)) (\<lambda>in_irq.
           bindM (tryM (handle pid tid in_irq call)) (\<lambda>r.
             let response = (case r of Inl e \<Rightarrow> R_Error e | Inr x \<Rightarrow> x)
             in if response = R_ResumeProcess then resume_current else return_current response)))))))"

definition trap_interrupt :: "PID \<Rightarrow> trap \<Rightarrow> (kernel, trap_exit) kop" where
  "trap_interrupt pid t =
     bindM (getM (\<lambda>s. sip t AND sim s)) (\<lambda>irqs_pending.
     thenM (modM (\<lambda>s. if previous_pair s = None then s\<lparr>previous_pair := Some (pid, current_tid s)\<rparr> else s))
    (thenM (modM (\<lambda>s. s\<lparr>handling_irq := True\<rparr>))
    (thenM (bindM (getM irq_handlers) (\<lambda>hs. unwrapM (irq_handle irqs_pending 0 hs)))
       resume_current)))"

text \<open>What comes after the \<open>match\<close>: a user exception handler, or the end of the process.\<close>

definition trap_unhandled :: "PID \<Rightarrow> trap \<Rightarrow> RiscvException \<Rightarrow> (kernel, trap_exit) kop" where
  "trap_unhandled pid t ex =
     bindM (case generate_exception_args ex of
         None \<Rightarrow> retM None
       | Some args \<Rightarrow> bindM (begin_exception_handler pid) (\<lambda>h. retM (map_option (\<lambda>h. (h, args)) h))) (\<lambda>h. case h of
         Some (handler, args) \<Rightarrow>
           thenM process_current
          (bindM (thread_index EXCEPTION_TID) (\<lambda>i.
           thenM (modM (upd_thread i (invoke_frame (eh_pc handler) (eh_sp handler) RETURN_FROM_EXCEPTION_HANDLER args)))
             (getM (\<lambda>s. Resume (get_thread i s)))))
       | None \<Rightarrow>
           thenM process_current
          (thenM current_thread_index
             (if spp_supervisor t then retM Halt
              else thenM finish_isr
                  (thenM (unwrapM (terminate_process pid))
                  (thenM reset_switchto_caller resume_current)))))"

definition trap_fault :: "PID \<Rightarrow> trap \<Rightarrow> RiscvException \<Rightarrow> usize \<Rightarrow> (kernel, trap_exit) kop" where
  "trap_fault pid t ex addr =
     bindM (tryM (ensure_page_exists_inner addr)) (\<lambda>r. case r of
         Inr _ \<Rightarrow> resume_current
       | Inl _ \<Rightarrow> trap_unhandled pid t ex)"

definition trap_exception_return :: "PID \<Rightarrow> usize \<Rightarrow> (kernel, trap_exit) kop" where
  "trap_exception_return pid a0 =
     thenM (unwrapM (finish_exception_handler_and_resume pid))
    (thenM process_current
    (bindM current_thread_index (\<lambda>i.
     thenM (modM (upd_thread i (\<lambda>th. th\<lparr>sepc := (if sint a0 < 0 then sepc th - (- a0) else sepc th + a0)\<rparr>)))
       (getM (\<lambda>s. Resume (get_thread i s))))))"

definition trap_exit_thread :: "PID \<Rightarrow> (kernel, trap_exit) kop" where
  "trap_exit_thread pid =
     thenM process_current
    (bindM (getM current_tid) (\<lambda>tid.
     bindM (unwrapM (destroy_thread pid tid)) (\<lambda>changed.
     thenM (if changed then reset_switchto_caller else retM ())
    (thenM finish_isr resume_current))))"

text \<open>
  \<open>halt_on_unknown\<close> is true on the precursor and renode platforms, where an
  exception outside the list is a kernel panic.
\<close>

definition trap_dispatch :: "bool \<Rightarrow> PID \<Rightarrow> trap \<Rightarrow> (kernel, trap_exit) kop" where
  "trap_dispatch halt_on_unknown pid t =
     (let ex = from_regs (scause t) (trap_epc t) (stval t)
      in case ex of
           RE_CallFromSMode _ _ \<Rightarrow> trap_syscall pid t
         | RE_CallFromUMode _ _ \<Rightarrow> trap_syscall pid t
         | RE_UserExternalInterrupt _ \<Rightarrow> trap_interrupt pid t
         | RE_SupervisorExternalInterrupt _ \<Rightarrow> trap_interrupt pid t
         | RE_StorePageFault _ addr \<Rightarrow> trap_fault pid t ex addr
         | RE_LoadPageFault _ addr \<Rightarrow> trap_fault pid t ex addr
         | RE_InstructionPageFault pc _ \<Rightarrow>
             (if pc = RETURN_FROM_EXCEPTION_HANDLER then trap_exception_return pid (trap_args t ! 0)
              else if pc = EXIT_THREAD then trap_exit_thread pid
              else if pc = RETURN_FROM_ISR then thenM finish_isr resume_current
              else if halt_on_unknown then panicM
              else trap_unhandled pid t ex)
         | _ \<Rightarrow> if halt_on_unknown then panicM else trap_unhandled pid t ex)"

definition trap_handler :: "bool \<Rightarrow> trap \<Rightarrow> (kernel, trap_exit) kop" where
  "trap_handler halt_on_unknown t =
     (if spp_supervisor t \<and> scause t = 0xf then panicM
      else bindM trap_pid (\<lambda>pid. trap_dispatch halt_on_unknown pid t))"

end
