(* ===== verification/Op_Frames.thy ===== *)
theory Op_Frames
  imports Thread_Ctx
begin

text \<open>
  What the memory manager, the page tables and the thread contexts leave alone.
  The locale \<open>local_view\<close> is a predicate on the state that does not depend on
  what is inside an address space or on the ownership tables; every operation
  on the active space keeps it.  \<open>switch_view\<close> adds that it does not depend on
  which space is active, and covers the operations that go to another space
  and come back.  The views are the current process with the part of the state
  that \<open>SystemServices\<close> adds to the machine (\<open>kview\<close>), and the active space
  (\<open>in_space\<close>).
\<close>

section \<open>Operations on the active space\<close>

locale local_view =
  fixes V :: "'z mstate_scheme \<Rightarrow> bool"
  assumes view_space [simp]: "V (upd_space f s) = V s"
    and view_tables [simp]: "V (s\<lparr>mem_allocs := a\<rparr>) = V s" "V (s\<lparr>extra_allocs := a\<rparr>) = V s"
    and view_hint [simp]: "V (s\<lparr>last_ram_page := l\<rparr>) = V s"
    and view_table [simp]: "V (s\<lparr>proc_table := t\<rparr>) = V s"
begin

lemma view_set [simp]:
  "V (set_pte v i e s) = V s" "V (set_l1 v e s) = V s" "V (zero_leaf v s) = V s" "V (upd_inner g s) = V s"
  "V (put_thread i th s) = V s" "V (upd_thread i h s) = V s"
  by (simp_all add: set_pte_def set_l1_def zero_leaf_def upd_inner_def put_thread_def upd_thread_def)

lemma keeps_alloc_page [keeps_intros]: "keeps V (alloc_page pid)"
  by (rule keepsI) (auto simp: alloc_page_def Let_def split: if_splits option.splits)

lemma keeps_claim_release_move [keeps_intros]: "keeps V (claim_release_move a p act)"
  by (rule keepsI) (auto simp: claim_release_move_def split: if_splits option.splits page_slot.splits outcome.splits)

lemma keeps_claims [keeps_intros]:
  "keeps V (claim_page a p)" "keeps V (release_page a p)"
  unfolding claim_page_def release_page_def by (intro keeps_intros)+

lemma keeps_move_page_raw [keeps_intros]: "keeps V (move_page_raw a p)"
  by (rule keepsI) (auto simp: move_page_raw_def dest: keepsD [OF keeps_claim_release_move])

lemma keeps_map_page_fuel: "keeps V (map_page_fuel n pid phys virt req u)"
proof (induction n arbitrary: phys virt req u)
  case 0
  then show ?case by (simp add: keeps_def)
next
  case (Suc n)
  show ?case
  proof (rule keepsI)
    fix s r s'
    assume k: "V s" and run: "map_page_fuel (Suc n) pid phys virt req u s = (r, s')" and r: "r \<noteq> Panic"
    obtain r1 s1 where alloc: "alloc_page pid s = (r1, s1)" by fastforce
    show "V s'"
    proof (cases "l1_valid (vpn1 virt) s")
      case True
      then show ?thesis using run k r by (auto simp: Let_def split: if_splits)
    next
      case False
      note notvalid = this
      show ?thesis
      proof (cases r1)
        case (Ok l0_phys)
        obtain r2 s2 where rec: "map_page_fuel n pid l0_phys (window (vpn1 virt)) (MF_W OR MF_R) False
            (set_l1 (vpn1 virt) (table_entry l0_phys) s1) = (r2, s2)" by fastforce
        have "V s1" using keepsD [OF keeps_alloc_page k alloc] Ok by simp
        hence "r2 \<noteq> Panic \<Longrightarrow> V s2" using keepsD [OF Suc.IH _ rec] by simp
        thus ?thesis using run r notvalid alloc Ok rec
          by (cases r2) (auto simp: Let_def split: if_splits)
      qed (use run r notvalid alloc keepsD [OF keeps_alloc_page k alloc] in \<open>auto simp: Let_def split: if_splits\<close>)
    qed
  qed
qed

lemma keeps_map_page [keeps_intros]: "keeps V (map_page_inner pid phys virt req u)"
  unfolding map_page_inner_def by (rule keeps_map_page_fuel)

lemma keeps_reserve_address [keeps_intros]: "keeps V (reserve_address a f)"
proof (rule keepsI)
  fix s r s'
  assume k: "V s" and run: "reserve_address a f s = (r, s')" and r: "r \<noteq> Panic"
  show "V s'"
  proof (cases "l1_valid (vpn1 a) s")
    case True
    then show ?thesis using run k by (auto simp: reserve_address_def Let_def split: if_splits)
  next
    case False
    note notvalid = this
    then obtain pid where pid: "arch_current_pid s = Some pid"
      using run r by (auto simp: reserve_address_def Let_def split: option.splits)
    obtain r1 s1 where alloc: "alloc_page pid s = (r1, s1)" by fastforce
    show ?thesis
    proof (cases r1)
      case (Ok l0_phys)
      obtain r2 s2 where rec: "map_page_inner pid l0_phys (window (vpn1 a)) (MF_W OR MF_R) False
          (set_l1 (vpn1 a) (table_entry l0_phys) s1) = (r2, s2)" by fastforce
      have "V s1" using keepsD [OF keeps_alloc_page k alloc] Ok by simp
      hence "r2 \<noteq> Panic \<Longrightarrow> V s2" using keepsD [OF keeps_map_page _ rec] by simp
      thus ?thesis using run r notvalid pid alloc Ok rec
        by (cases r2) (auto simp: reserve_address_def Let_def split: if_splits)
    qed (use run r notvalid pid alloc keepsD [OF keeps_alloc_page k alloc] in
          \<open>auto simp: reserve_address_def Let_def split: if_splits\<close>)
  qed
qed

lemma keeps_pages [keeps_intros]:
  "keeps V (unmap_page_inner a)" "keeps V (hand_page_to_user a)"
  "keeps V (update_page_flags a f)"
  by (rule keepsI; auto simp: unmap_page_inner_def hand_page_to_user_def update_page_flags_def Let_def
        split: if_splits prod.splits outcome.splits)+

lemma keeps_ensure [keeps_intros]: "keeps V (ensure_page_exists_inner a)"
proof (rule keepsI)
  fix s r s'
  assume k: "V s" and run: "ensure_page_exists_inner a s = (r, s')" and r: "r \<noteq> Panic"
  obtain r1 s1 where alloc: "alloc_page (table_current s) s = (r1, s1)" by fastforce
  note step = keepsD [OF keeps_alloc_page k alloc]
  show "V s'"
    using run r k step unfolding ensure_page_exists_inner_def Let_def alloc
    by (cases r1) (auto simp: zeropage_def split: if_splits prod.splits outcome.splits)
qed

lemma keeps_zeropage [keeps_intros]: "keeps V (zeropage a)"
  by (rule keepsI) (auto simp: zeropage_def split: if_splits)

lemma keeps_bzero [keeps_intros]: "keeps V (bzero a b)"
  unfolding bzero_def by (intro keeps_intros)

lemma keeps_find_virtual_address [keeps_intros]: "keeps V (find_virtual_address v sz k)"
  by (rule keepsI) (auto simp: find_virtual_address_def Let_def split: if_splits MemoryType.splits option.splits)

lemma keeps_reserve_range [keeps_intros]: "keeps V (reserve_range v sz f)"
  unfolding reserve_range_def by (intro keeps_intros)

lemma keeps_map_zeroed_page [keeps_intros]: "keeps V (map_zeroed_page p u)"
  unfolding map_zeroed_page_def by (intro keeps_intros)

lemma keeps_claim_range [keeps_intros]: "keeps V (claim_range phys pid as)"
  by (induction as) (auto intro!: keeps_intros)

lemma keeps_map_pages [keeps_intros]: "keeps V (map_pages phys virt pid f offs)"
  by (induction offs) (auto intro!: keeps_intros)

lemma keeps_map_virt_range [keeps_intros]: "keeps V (map_virt_range v sz)"
  unfolding map_virt_range_def by (intro keeps_intros) simp

lemma keeps_device_block [keeps_intros]: "keeps V (device_block sz)"
  by (rule keepsI) (auto simp: device_block_def Let_def split: if_splits prod.splits option.splits)

lemma keeps_map_range [keeps_intros]: "keeps V (map_range phys virt sz pid f k)"
  unfolding map_range_def by (intro keeps_intros)

lemma keeps_unmap_page [keeps_intros]: "keeps V (unmap_page a)"
proof (rule keepsI)
  fix s r s'
  assume k: "V s" and run: "unmap_page a s = (r, s')" and r: "r \<noteq> Panic"
  have "keeps V (thenM (ignoreM (release_page p q)) (unmap_page_inner a))" for p q
    by (intro keeps_intros)
  from keepsD [OF this k] keepsD [OF keeps_pages(1) k] show "V s'"
    using run r by (auto simp: unmap_page_def split: outcome.splits)
qed

lemma keeps_ensure_page [keeps_intros]: "keeps V (ensure_page_exists a)"
  unfolding ensure_page_exists_def by (intro keeps_intros)

lemma keeps_update_memory_flags [keeps_intros]: "keeps V (update_memory_flags rng f)"
proof -
  have "keeps V (check_new_flags f a)" for a
    by (rule keepsI) (auto simp: check_new_flags_def split: option.splits if_splits)
  thus ?thesis unfolding update_memory_flags_def by (intro keeps_intros)
qed

lemma keeps_context [keeps_intros]:
  "keeps V process_current" "keeps V (arch_destroy pid)"
  "keeps V (thread_index tid)" "keeps V current_thread_index"
  "keeps V (set_tid tid)" "keeps V find_free_thread" "keeps V (retry_instruction tid)"
  by (rule keepsI; auto simp: process_current_def arch_destroy_def thread_index_def current_thread_index_def
        set_tid_def find_free_thread_def retry_instruction_def Let_def split: if_splits option.splits)+

lemma keeps_threads [keeps_intros]:
  "keeps V (thread_exists tid)" "keeps V (arch_set_thread_result tid res)"
  "keeps V (arch_setup_thread tid ti)" "keeps V (arch_destroy_thread tid)"
  unfolding thread_exists_def arch_set_thread_result_def arch_setup_thread_def arch_destroy_thread_def
  by (intro keeps_intros; simp)+

lemma keeps_setup_process [keeps_intros]: "keeps V (setup_process pid ti)"
  unfolding setup_process_def by (intro keeps_intros; simp)

end

section \<open>Operations across spaces\<close>

locale switch_view = local_view +
  assumes view_activate [simp]: "V (activate_mapping sp s) = V s"
    and view_spaces [simp]: "V (s\<lparr>spaces := sps\<rparr>) = V s"
begin

lemma keeps_move_inner [keeps_intros]: "keeps V (move_page_inner sp sa dp ds da)"
proof (rule keepsI)
  fix s r s'
  assume k: "V s" and run: "move_page_inner sp sa dp ds da s = (r, s')" and r: "r \<noteq> Panic"
  show "V s'"
  proof (cases "pagetable_entry sa s")
    case (Ok vi)
    obtain v i where [simp]: "vi = (v, i)" by fastforce
    let ?s = "activate_mapping ds (set_pte v i 0 s)" and ?e = "pte v i s"
    obtain r1 s1 where map: "map_page_inner dp (entry_phys ?e) da (untranslate_flags ?e) (dp \<noteq> 1) ?s = (r1, s1)"
      by fastforce
    have "r1 \<noteq> Panic \<Longrightarrow> V s1" using keepsD [OF keeps_map_page _ map] k by simp
    thus ?thesis using run r k unfolding move_page_inner_def Let_def Ok
      by (auto simp: map split: if_splits)
  qed (use run k r in \<open>auto simp: move_page_inner_def\<close>)
qed

lemma keeps_lend_inner [keeps_intros]: "keeps V (lend_page_inner sp sa dp ds da mu)"
proof (rule keepsI)
  fix s r s'
  assume k: "V s" and run: "lend_page_inner sp sa dp ds da mu s = (r, s')" and r: "r \<noteq> Panic"
  show "V s'"
  proof (cases "pagetable_entry sa s")
    case (Ok vi)
    obtain v i where [simp]: "vi = (v, i)" by fastforce
    let ?e = "pte v i s" let ?n = "(?e AND NOT FLG_VALID) OR FLG_S"
    let ?s = "activate_mapping ds (set_pte v i ?n s)"
    let ?f = "if mu \<and> has_flag ?n FLG_W then MF_R OR MF_W else MF_R"
    obtain r1 s1 where map: "map_page_inner dp (entry_phys ?e) da ?f (dp \<noteq> 1) ?s = (r1, s1)"
      by fastforce
    have "r1 \<noteq> Panic \<Longrightarrow> V s1" using keepsD [OF keeps_map_page _ map] k by simp
    thus ?thesis using run r k unfolding lend_page_inner_def Let_def Ok
      by (cases r1) (auto simp: map simp del: has_flag_bit split: if_splits)
  qed (use run k r in \<open>auto simp: lend_page_inner_def\<close>)
qed

lemma keeps_return_inner [keeps_intros]: "keeps V (return_page_inner sp sa dp ds da)"
  by (rule keepsI) (auto simp: return_page_inner_def Let_def split: if_splits prod.splits outcome.splits)

lemma keeps_manager [keeps_intros]:
  "keeps V (move_page sp' sm sa dp dm da)" "keeps V (lend_page sm sa dp dm da mu)" "keeps V (unlend_page sm sa dp dm da)"
  unfolding move_page_def lend_page_def unlend_page_def by (intro keeps_intros)+

lemma keeps_release_all [keeps_intros]: "keeps V (release_all_memory_for_process pid)"
  unfolding release_all_memory_for_process_def by (intro keeps_intros) simp_all

lemma keeps_allocate_mapping [keeps_intros]: "keeps V (allocate_mapping old pid)"
  unfolding allocate_mapping_def by (intro keeps_intros) simp

end

section \<open>The views\<close>

definition kview :: "'z \<Rightarrow> PID \<Rightarrow> 'z mstate_scheme \<Rightarrow> bool" where
  "kview m c s = (mstate.more s = m \<and> table_current s = c)"

interpretation kv: switch_view "kview m c" for m c
  by unfold_locales (simp_all add: kview_def)

definition in_space :: "usize \<Rightarrow> 'z mstate_scheme \<Rightarrow> bool" where
  "in_space sp s = (satp s = sp)"

interpretation sv: local_view "in_space sp" for sp
  by unfold_locales (simp_all add: in_space_def)

end
