(* ===== verification/Schedule_Inv.thy ===== *)
theory Schedule_Inv
  imports Scheduler Op_Frames
begin

text \<open>
  The scheduling invariant, kept by every system call and every trap: only the
  current process is \<open>Running\<close>, and a \<open>Ready\<close> process has a thread to run.
\<close>

named_theorems triple_intros \<open>rules for operations on the process table\<close>

section \<open>The invariant\<close>

fun is_running :: "ProcessState \<Rightarrow> bool" where
  "is_running (PS_Running _) = True"
| "is_running _ = False"

fun state_ok :: "ProcessState \<Rightarrow> bool" where
  "state_ok (PS_Ready x) = (x \<noteq> 0)"
| "state_ok _ = True"

definition maps :: "PID \<Rightarrow> kernel \<Rightarrow> bool" where
  "maps pid s = (pid_idx pid < length (processes s) \<and>
     mapping_get_pid (mapping (processes s ! pid_idx pid)) = Some pid)"

text \<open>Only processes of \<open>C\<close> are running, and every state is one the scheduler can continue from.\<close>

definition sched :: "PID set \<Rightarrow> kernel \<Rightarrow> bool" where
  "sched C s = (\<forall>i < length (processes s). state_ok (state (processes s ! i)) \<and>
     (is_running (state (processes s ! i)) \<longrightarrow> (\<exists>c \<in> C. pid_idx c = i \<and> maps c s)))"

definition schedule_inv :: "kernel \<Rightarrow> bool" where
  "schedule_inv s = sched {table_current s} s"

definition S :: "PID set \<Rightarrow> PID set \<Rightarrow> PID \<Rightarrow> (server option list \<Rightarrow> bool) \<Rightarrow> kernel \<Rightarrow> bool" where
  "S C M d F s = (sched C s \<and> (\<forall>p \<in> M. maps p s) \<and> table_current s = d \<and> F (servers s))"

lemma S_weaken: "\<lbrakk>S C M d F s; C \<subseteq> C'; M' \<subseteq> M; \<And>v. F v \<Longrightarrow> F' v\<rbrakk> \<Longrightarrow> S C' M' d F' s"
  unfolding S_def sched_def by blast

lemma S_inv: "S C M d F s \<Longrightarrow> C \<subseteq> {d} \<Longrightarrow> schedule_inv s"
  unfolding S_def sched_def schedule_inv_def by blast

lemma inv_S: "schedule_inv s \<longleftrightarrow> S {table_current s} {} (table_current s) (\<lambda>_. True) s"
  by (simp add: S_def schedule_inv_def)

lemma pid_idx_inj: "\<lbrakk>maps a s; maps b s; pid_idx a = pid_idx b\<rbrakk> \<Longrightarrow> a = b"
  by (simp add: maps_def)

lemma one_thread_nonzero [simp]: "thread_bit t \<noteq> 0" "x OR thread_bit t \<noteq> 0"
proof -
  have b: "bit (thread_bit t) (unat t mod 32)" by (simp add: thread_bit_def bit_simps)
  show "thread_bit t \<noteq> 0" using b by fastforce
  have "bit (x OR thread_bit t) (unat t mod 32)" using b by (simp add: bit_or_iff)
  thus "x OR thread_bit t \<noteq> 0" by fastforce
qed

subsection \<open>What leaves it alone\<close>

lemma more_fields:
  fixes s s' :: kernel
  assumes "mstate.more s' = mstate.more s"
  shows "processes s' = processes s" "servers s' = servers s"
  using assms by (cases s; cases s'; simp)+

lemma S_more:
  fixes s s' :: kernel
  assumes "mstate.more s' = mstate.more s" "table_current s' = table_current s"
  shows "S C M d F s' = S C M d F s"
  using more_fields [OF assms(1)] assms(2) by (simp add: S_def sched_def maps_def)

lemma S_frame:
  assumes "\<And>m c. keeps (kview m c) (op' :: (kernel, 'a) kop)" "\<And>e s. S C M d F s \<Longrightarrow> R e s"
  shows "triple (S C M d F) op' (\<lambda>_. S C M d F) R"
proof (rule tripleI)
  fix s assume s: "S C M d F s"
  obtain r s' where run: "op' s = (r, s')" by fastforce
  have "r \<noteq> Panic \<Longrightarrow> kview (mstate.more s) (table_current s) s'"
    using keepsD [OF assms(1) _ run] by (simp add: kview_def)
  hence "r \<noteq> Panic \<Longrightarrow> S C M d F s'" using S_more [of s' s] s by (simp add: kview_def)
  thus "case op' s of (Ok x, s') \<Rightarrow> S C M d F s' | (Err e, s') \<Rightarrow> R e s' | (Panic, s') \<Rightarrow> True"
    using assms(2) run by (auto split: outcome.split)
qed

lemma S_simps [simp]:
  "S C M d F (upd_space f s) = S C M d F s" "S C M d F (activate_mapping sp s) = S C M d F s"
  "S C M d F (upd_inner g s) = S C M d F s" "S C M d F (upd_thread i h s) = S C M d F s"
  "S C M d F (s\<lparr>irq_handlers := h'\<rparr>) = S C M d F s" "S C M d F (s\<lparr>sim := v\<rparr>) = S C M d F s"
  "S C M d F (s\<lparr>sim_backing := v\<rparr>) = S C M d F s" "S C M d F (s\<lparr>irq_enabled := b\<rparr>) = S C M d F s"
  "S C M d F (s\<lparr>handling_irq := b\<rparr>) = S C M d F s" "S C M d F (s\<lparr>previous_pair := pp\<rparr>) = S C M d F s"
  "S C M d F (s\<lparr>switchto_caller := pp\<rparr>) = S C M d F s" "S C M d F (s\<lparr>original_pid := q\<rparr>) = S C M d F s"
  "S C M d F (s\<lparr>original_tid := v\<rparr>) = S C M d F s" "S C M d F (s\<lparr>rand_pos := n\<rparr>) = S C M d F s"
  "S C M d F (s\<lparr>proc_table := t\<rparr>) = S C M d F s"
  by (simp_all add: S_def sched_def maps_def upd_space_def activate_mapping_def upd_inner_def upd_thread_def put_thread_def)

lemma inv_simps [simp]:
  "schedule_inv (upd_thread i h s) = schedule_inv s" "schedule_inv (s\<lparr>switchto_caller := pp\<rparr>) = schedule_inv s"
  "schedule_inv (s\<lparr>original_pid := q, original_tid := v\<rparr>) = schedule_inv s"
  "schedule_inv (s\<lparr>handling_irq := b\<rparr>) = schedule_inv s" "schedule_inv (s\<lparr>previous_pair := pp\<rparr>) = schedule_inv s"
  by (simp_all add: schedule_inv_def sched_def maps_def upd_thread_def put_thread_def upd_space_def)

subsection \<open>The process table\<close>

lemma S_get_process [triple_intros]:
  assumes "\<And>e s. S C M d F s \<Longrightarrow> R e s"
  shows "triple (S C M d F) (get_process pid)
    (\<lambda>p s. S C (insert pid M) d F s \<and> (mapping_get_pid (mapping p) = Some pid \<and> state_ok (state p)
      \<and> (is_running (state p) \<longrightarrow> pid \<in> C))) R"
proof (rule tripleI)
  fix s assume s: "S C M d F s"
  show "case get_process pid s of
      (Ok p, s) \<Rightarrow> S C (insert pid M) d F s \<and> (mapping_get_pid (mapping p) = Some pid \<and> state_ok (state p)
        \<and> (is_running (state p) \<longrightarrow> pid \<in> C))
    | (Err e, s) \<Rightarrow> R e s | (Panic, s) \<Rightarrow> True"
  proof (cases "\<not> process_free (processes s ! pid_idx pid) \<and> maps pid s")
    case True
    hence m: "maps pid s" and ok: "state_ok (state (processes s ! pid_idx pid))"
      using s by (auto simp: S_def sched_def maps_def)
    have "pid \<in> C" if run: "is_running (state (processes s ! pid_idx pid))"
    proof -
      obtain c where "c \<in> C" "pid_idx c = pid_idx pid" "maps c s"
        using s m run unfolding S_def sched_def maps_def by blast
      thus ?thesis using m pid_idx_inj by blast
    qed
    moreover have "get_process pid s = (Ok (processes s ! pid_idx pid), s)"
      using True by (simp add: get_process_def maps_def)
    moreover have "S C (insert pid M) d F s" using s m by (simp add: S_def)
    ultimately show ?thesis using ok m by (simp add: maps_def)
  next
    case False
    hence "get_process pid s = (Panic, s) \<or> get_process pid s = (Err ProcessNotFound, s)"
      by (auto simp: get_process_def maps_def Let_def)
    thus ?thesis using assms [OF s] by auto
  qed
qed

lemma get_process_eq: "get_process pid s = (Ok p, s') \<Longrightarrow> s' = s \<and> p = processes s ! pid_idx pid \<and> pid_idx pid < length (processes s)"
  by (auto simp: get_process_def Let_def split: if_splits)

lemma upd_process_nth [simp]:
  "j < length (processes s) \<Longrightarrow> processes (upd_process pid f s) ! j =
     (if j = pid_idx pid then f (processes s ! j) else processes s ! j)"
  "length (processes (upd_process pid f s)) = length (processes s)"
  "servers (upd_process pid f s) = servers s" "table_current (upd_process pid f s) = table_current s"
  by (auto simp: upd_process_def nth_list_update)

lemma maps_upd_process [simp]:
  "(\<And>p. mapping (f p) = mapping p) \<Longrightarrow> maps q (upd_process pid f s) = maps q s"
  by (auto simp: maps_def split: if_splits)

lemma S_set_run [triple_intros]:
  assumes "pid \<in> M"
  shows "triple (S C M d F) (set_state pid (PS_Running x)) (\<lambda>_. S (insert pid C) M d F) R"
proof (unfold set_state_def, rule triple_mod)
  fix s assume s: "S C M d F s"
  let ?s = "upd_process pid (\<lambda>p. p\<lparr>state := PS_Running x\<rparr>) s"
  have "maps pid s" using s assms by (simp add: S_def)
  thus "S (insert pid C) M d F ?s" using s unfolding S_def sched_def by auto
qed

lemma S_set_other [triple_intros]:
  assumes "state_ok st" "\<not> is_running st"
  shows "triple (S C M d F) (set_state pid st) (\<lambda>_. S (C - {pid}) M d F) R"
proof (unfold set_state_def, rule triple_mod)
  fix s assume s: "S C M d F s"
  let ?s = "upd_process pid (\<lambda>p. p\<lparr>state := st\<rparr>) s"
  show "S (C - {pid}) M d F ?s" using s assms unfolding S_def sched_def by auto
qed

lemma S_upd_process:
  assumes "\<And>p. state (f p) = state p" "\<And>p. mapping (f p) = mapping p"
  shows "S C M d F (upd_process pid f s) = S C M d F s"
  using assms unfolding S_def sched_def by auto

lemma S_set_current_thread [triple_intros]:
  "triple (S C M d F) (set_current_thread pid tid) (\<lambda>_. S C M d F) R"
  unfolding set_current_thread_def by (rule triple_mod) (simp add: S_upd_process)

lemma S_activate [triple_intros]:
  assumes "mapping_get_pid (mapping p) = Some pid"
  shows "triple (S C M d F) (process_activate p) (\<lambda>_. S C M pid F) R"
proof (rule tripleI)
  fix s assume s: "S C M d F s"
  let ?s = "activate_mapping (mapping p) (s\<lparr>table_current := proc_pid p\<rparr>)"
  have "S C M (proc_pid p) F (s\<lparr>table_current := proc_pid p\<rparr>)" using s by (simp add: S_def sched_def maps_def)
  hence S: "S C M (proc_pid p) F ?s" by simp
  have "process_activate p s = (Panic, s) \<or> process_activate p s = (Panic, ?s) \<or>
      (process_activate p s = (Ok (), ?s) \<and> ucast (proc_pid p) = drop_bit 22 (mapping p) AND 0x1ff)"
    by (auto simp: process_activate_def set_current_pid_def process_current_def op_defs Let_def)
  moreover have "proc_pid p = pid" if "ucast (proc_pid p) = drop_bit 22 (mapping p) AND 0x1ff"
  proof -
    have "mapping_get_pid (mapping p) = nz_new (ucast (ucast (proc_pid p) :: usize) :: u8)"
      unfolding mapping_get_pid_def that ..
    moreover have "ucast (ucast (proc_pid p) :: usize) = proc_pid p" by simp
    ultimately show ?thesis using assms by (auto simp: nz_new_def split: if_splits)
  qed
  ultimately show "case process_activate p s of (Ok x, s') \<Rightarrow> S C M pid F s' | (Err e, s') \<Rightarrow> R e s' | (Panic, s') \<Rightarrow> True"
    using S by auto
qed

lemma S_set_same [triple_intros]:
  assumes "state_ok st" "is_running st \<Longrightarrow> pid \<in> C \<and> pid \<in> M"
  shows "triple (S C M d F) (set_state pid st) (\<lambda>_. S C M d F) R"
proof (cases st)
  case (PS_Running x)
  with assms have "pid \<in> C" "pid \<in> M" by simp_all
  thus ?thesis unfolding PS_Running
    by (intro triple_post [OF S_set_run]) (auto simp: insert_absorb)
qed (use assms in \<open>auto intro!: triple_post [OF S_set_other] elim: S_weaken\<close>)

lemma S_current [triple_intros]: "triple (S C M d F) (getM table_current) (\<lambda>x s. S C M d F s \<and> x = d) R"
  by (rule triple_get) (simp add: S_def)

text \<open>The usual steps, with the continuation.\<close>

lemma S_bind_current: "triple (S C M d F) (k d) Q R \<Longrightarrow> triple (S C M d F) (bindM (getM table_current) k) Q R"
  by (auto simp: triple_def op_defs S_def)

lemma S_bind_process:
  assumes "\<And>e s. S C M d F s \<Longrightarrow> R e s"
    and "\<And>p. \<lbrakk>mapping_get_pid (mapping p) = Some pid; state_ok (state p); is_running (state p) \<longrightarrow> pid \<in> C\<rbrakk>
       \<Longrightarrow> triple (S C (insert pid M) d F) (k p) Q R"
  shows "triple (S C M d F) (bindM (get_process pid) k) Q R"
  by (rule triple_bind [OF S_get_process]) (use assms in \<open>auto intro!: triple_pure\<close>)

lemma S_bind_unwrap_process:
  assumes "\<And>p. \<lbrakk>mapping_get_pid (mapping p) = Some pid; state_ok (state p); is_running (state p) \<longrightarrow> pid \<in> C\<rbrakk>
       \<Longrightarrow> triple (S C (insert pid M) d F) (k p) Q R"
  shows "triple (S C M d F) (bindM (unwrapM (get_process pid)) k) Q R"
  by (rule triple_bind [OF triple_unwrap [OF S_get_process]]) (use assms in \<open>auto intro!: triple_pure\<close>)

lemma S_bind_try_process:
  assumes "\<And>e. triple (S C M d F) (k (Inl e)) Q R"
    and "\<And>p. \<lbrakk>mapping_get_pid (mapping p) = Some pid; state_ok (state p); is_running (state p) \<longrightarrow> pid \<in> C\<rbrakk>
       \<Longrightarrow> triple (S C (insert pid M) d F) (k (Inr p)) Q R"
  shows "triple (S C M d F) (bindM (tryM (get_process pid)) k) Q R"
  by (rule triple_bind_try [OF S_get_process [where R = "\<lambda>_. S C M d F"]]) (use assms in \<open>auto intro!: triple_pure\<close>)

lemma S_then_unwrap_process:
  "triple (S C (insert pid M) d F) k Q R \<Longrightarrow> triple (S C M d F) (thenM (unwrapM (get_process pid)) k) Q R"
  unfolding thenM_def by (rule S_bind_unwrap_process)

section \<open>Scheduler operations\<close>

lemma ready_state_ok:
  "ready_state tid st = Ok st' \<Longrightarrow> state_ok st' \<and> (is_running st' \<longrightarrow> is_running st)" "ready_state tid st \<noteq> Err e"
  by (cases st; auto split: if_splits)+

lemma unschedule_state_ok:
  "unschedule_state tid st = Ok st' \<Longrightarrow> state_ok st' \<and> \<not> is_running st'" "unschedule_state tid st \<noteq> Err e"
  by (cases st; auto split: if_splits)+

lemma leave_state_ok:
  "leave_state tid b st = Ok st' \<Longrightarrow> state_ok st' \<and> \<not> is_running st'" "leave_state tid b st \<noteq> Err e"
  by (cases st; auto split: if_splits)+

lemma suspend_state_ok:
  "suspend_state st = Ok st' \<Longrightarrow> state_ok st' \<and> \<not> is_running st'" "suspend_state st \<noteq> Err e"
  by (cases st; auto split: if_splits)+

lemma interrupt_state_ok:
  "interrupt_state tid st = Ok st' \<Longrightarrow> state_ok st' \<and> \<not> is_running st'" "interrupt_state tid st \<noteq> Err e"
  by (cases st; auto split: if_splits)+

lemma resume_state_ok:
  "resume_state tid st = Ok st' \<Longrightarrow> \<exists>x. st' = PS_Running x" "resume_state tid st \<noteq> Err e"
  by (cases st; auto split: if_splits)+

lemma callback_threads_ok: "callback_threads st \<noteq> Err e"
  by (cases st) auto

lemma find_next_thread_ok: "find_next_thread m c \<noteq> Err e"
  by (simp add: find_next_thread_def Let_def)

lemma S_ready_thread [triple_intros]:
  assumes R: "\<And>e s. S C M d F s \<Longrightarrow> R e s"
  shows "triple (S C M d F) (ready_thread pid tid) (\<lambda>_. S C (insert pid M) d F) R"
  unfolding ready_thread_def
  by (intro S_bind_process triple_bind_liftO S_set_same R) (auto simp: ready_state_ok dest!: ready_state_ok(1))

lemma S_unschedule_thread [triple_intros]:
  assumes R: "\<And>e s. S C M d F s \<Longrightarrow> R e s"
  shows "triple (S C M d F) (unschedule_thread pid tid) (\<lambda>_. S (C - {pid}) (insert pid M) d F) R"
  unfolding unschedule_thread_def
  by (intro S_bind_process triple_bind_liftO S_set_other R) (auto simp: unschedule_state_ok dest!: unschedule_state_ok(1))

lemma S_runnable [triple_intros]:
  assumes R: "\<And>e s. S C M d F s \<Longrightarrow> R e s"
  shows "triple (S C M d F) (runnable pid tid) (\<lambda>_. S C (insert pid M) d F) R"
  unfolding runnable_def by (intro S_bind_process triple_ret R)

lemma S_thread_is_running [triple_intros]:
  "triple (S C M d F) (thread_is_running pid tid) (\<lambda>_. S C (insert pid M) d F) R"
  unfolding thread_is_running_def
  by (intro S_bind_unwrap_process) (auto intro!: triple_ret triple_panic split: ProcessState.split)

lemma S_set_last_thread [triple_intros]:
  assumes R: "\<And>e s. S C M d F s \<Longrightarrow> R e s"
  shows "triple (S C M d F) (set_last_thread pid tid) (\<lambda>_. S C M d F) R"
  unfolding set_last_thread_def
  by (intro S_bind_process R)
    (auto intro!: triple_fail triple_panic triple_post [OF S_set_current_thread] R elim: S_weaken split: ProcessState.split)

lemma S_then_frame:
  assumes "\<And>m c. keeps (kview m c) (op' :: (kernel, 'a) kop)" "\<And>e s. S C M d F s \<Longrightarrow> R e s"
    "triple (S C M d F) k Q R"
  shows "triple (S C M d F) (thenM op' k) Q R"
  by (rule triple_then [OF S_frame [OF assms(1)]]) (use assms in auto)

lemma S_bind_frame:
  assumes "\<And>m c. keeps (kview m c) (op' :: (kernel, 'a) kop)" "\<And>e s. S C M d F s \<Longrightarrow> R e s"
    "\<And>x. triple (S C M d F) (k x) Q R"
  shows "triple (S C M d F) (bindM op' k) Q R"
  by (rule triple_bind [OF S_frame [OF assms(1)]]) (use assms in auto)

lemma no_err_context [no_err_intros]:
  "no_err process_current" "no_err (thread_index tid)" "no_err current_thread_index" "no_err (set_tid tid)"
  "no_err (arch_set_thread_result tid res)" "no_err (current_set_tid tid)" "no_err (retry_instruction tid)"
proof -
  show a: "no_err process_current" "no_err (thread_index tid)" "no_err current_thread_index" "no_err (set_tid tid)"
    "no_err (retry_instruction tid)"
    by (auto simp: no_err_def process_current_def thread_index_def current_thread_index_def set_tid_def
        retry_instruction_def Let_def)
  show "no_err (arch_set_thread_result tid res)" "no_err (current_set_tid tid)"
    unfolding arch_set_thread_result_def current_set_tid_def by (intro no_err_intros a)+
qed

lemma S_then_safe:
  assumes "\<And>m c. keeps (kview m c) (op' :: (kernel, 'a) kop)" "no_err op'" "triple (S C M d F) k Q R"
  shows "triple (S C M d F) (thenM op' k) Q R"
proof -
  have "triple (S C M d F) op' (\<lambda>_. S C M d F) R'" for R'
    using S_frame [OF assms(1), of C M d F "\<lambda>_ _. True"] assms(2)
    by (fastforce simp: triple_def no_err_def split: prod.splits outcome.splits)
  thus ?thesis by (rule triple_then) (rule assms(3))
qed

lemma S_bind_safe:
  assumes "\<And>m c. keeps (kview m c) (op' :: (kernel, 'a) kop)" "no_err op'" "\<And>x. triple (S C M d F) (k x) Q R"
  shows "triple (S C M d F) (bindM op' k) Q R"
proof -
  have "triple (S C M d F) op' (\<lambda>_. S C M d F) R'" for R'
    using S_frame [OF assms(1), of C M d F "\<lambda>_ _. True"] assms(2)
    by (fastforce simp: triple_def no_err_def split: prod.splits outcome.splits)
  thus ?thesis by (rule triple_bind) (rule assms(3))
qed

lemma keeps_current_set_tid [keeps_intros]: "keeps (kview m c) (current_set_tid tid)"
  unfolding current_set_tid_def by (intro keeps_intros)

lemma S_set_thread_result [triple_intros]:
  assumes R: "\<And>e s. S C M d F s \<Longrightarrow> R e s"
  shows "triple (S C M d F) (set_thread_result pid tid res) (\<lambda>_. S C M d F) R"
proof -
  have comeback: "triple (S C (insert pid M) pid F) (thenM process_current (thenM (arch_set_thread_result tid res)
      (bindM (unwrapM (get_process d)) process_activate))) (\<lambda>_. S C M d F) R"
    by (intro S_then_safe S_bind_unwrap_process keeps_intros no_err_intros triple_post [OF S_activate])
      (auto elim: S_weaken)
  show ?thesis
    unfolding set_thread_result_def
    by (rule S_bind_current, rule triple_if)
      (auto intro!: S_then_safe S_frame S_bind_process keeps_intros no_err_intros R triple_then [OF S_activate comeback])
qed

lemma S_chosen_thread:
  "(\<And>t. triple (S C M d F) (k t) Q R) \<Longrightarrow> triple (S C M d F) (bindM (chosen_thread tid x cur) k) Q R"
  unfolding chosen_thread_def
  by (cases tid) (auto intro!: triple_bind_liftO simp: find_next_thread_ok)

lemma S_then_activate:
  "\<lbrakk>mapping_get_pid (mapping p) = Some pid; triple (S C M pid F) k Q R\<rbrakk> \<Longrightarrow> triple (S C M d F) (thenM (process_activate p) k) Q R"
  by (rule triple_then [OF S_activate])

lemma S_then_current_thread:
  "triple (S C M d F) k Q R \<Longrightarrow> triple (S C M d F) (thenM (set_current_thread pid tid) k) Q R"
  by (rule triple_then [OF S_set_current_thread])

lemmas S_steps = S_then_safe S_bind_safe keeps_intros no_err_intros S_then_activate S_then_current_thread

lemma S_switch_to_thread [triple_intros]:
  assumes R0: "\<And>e s q. \<lbrakk>S C M q F s; C \<subseteq> {q}\<rbrakk> \<Longrightarrow> R e s" and C: "C \<subseteq> {pid}" "pid \<in> C \<Longrightarrow> d = pid"
  shows "triple (S C M d F) (switch_to_thread pid tid) (\<lambda>_. S {pid} (insert pid M) pid F) R"
  unfolding switch_to_thread_def
proof (rule S_bind_process, goal_cases)
  case (2 p)
  let ?M = "insert pid M"
  have R': "S C ?M d F s \<Longrightarrow> R e s" for e s by (rule R0 [of d]) (use C in \<open>auto elim: S_weaken\<close>)
  have R2: "S C ?M pid F s \<Longrightarrow> R e s" for e s by (rule R0 [of pid]) (use C in \<open>auto elim: S_weaken\<close>)
  have run: "triple (S C ?M pid F) (set_state pid (PS_Running x)) (\<lambda>_. S {pid} ?M pid F) R" for x
    by (rule triple_post [OF S_set_run]) (use C in \<open>auto elim: S_weaken\<close>)
  have exc: "triple (S C ?M pid F) (set_state pid (PS_Exception x)) (\<lambda>_. S {pid} ?M pid F) R" for x
    by (rule triple_post [OF S_set_other]) (use C in \<open>auto elim: S_weaken\<close>)
  have start: "triple (S C ?M pid F) (thenM (arch_setup_thread t ti) k) (\<lambda>_. S {pid} ?M pid F) R"
    if "triple (S C ?M pid F) k (\<lambda>_. S {pid} ?M pid F) R" for t ti and k :: "(kernel, unit) kop"
    by (rule S_then_frame, intro keeps_intros, rule R2, assumption, rule that)
  show ?case
  proof (cases "state p")
    case (PS_Running x)
    hence "d = pid" using 2 C by simp
    thus ?thesis unfolding PS_Running Let_def ProcessState.case
      by (intro S_chosen_thread triple_if triple_fail S_steps R') (simp_all add: run)
  next
    case (PS_Setup ti)
    have inner: "triple (S C ?M pid F) (thenM (modM (upd_inner g)) k) Q R"
      if "triple (S C ?M pid F) k Q R" for g k Q
      by (rule triple_then_mod [where P' = "S C ?M pid F"]) (simp_all add: that)
    show ?thesis unfolding PS_Setup ProcessState.case
      by (rule S_then_activate, rule 2, rule triple_assert, rule S_then_safe, intro keeps_intros, intro no_err_intros,
          rule start, rule S_then_safe, intro keeps_intros, intro no_err_intros, rule inner, rule S_then_current_thread, rule run)
  qed (use 2 in \<open>auto intro!: triple_fail triple_panic triple_if S_chosen_thread S_steps run exc R'\<close>)
qed (rule R0 [of d], use C in auto)

subsection \<open>Servers\<close>

abbreviation anyF :: "server option list \<Rightarrow> bool" where
  "anyF \<equiv> (\<lambda>_. True)"

text \<open>Every server has a free slot, so that a blocked sender can be remembered.\<close>

definition room :: "server option list \<Rightarrow> bool" where
  "room v = (\<forall>sv. Some sv \<in> set v \<longrightarrow> QEmpty \<in> set (queue sv))"

lemma triple_inv: "(\<And>d. triple (S {d} {} d anyF) m Q R) \<Longrightarrow> triple schedule_inv m Q R"
  unfolding triple_def inv_S by simp

lemma S_server_from_sidx:
  "(\<And>x. triple (S C M d F) (k x) Q R) \<Longrightarrow> triple (S C M d F) (bindM (server_from_sidx sidx) k) Q R"
  by (auto simp: triple_def server_from_sidx_def bindM_def)

lemma S_servers: "\<lbrakk>S C M d F s; F' v\<rbrakk> \<Longrightarrow> S C M d F' (s\<lparr>servers := v\<rparr>)"
  by (simp add: S_def sched_def maps_def)

lemma S_with_server:
  assumes "\<And>v i sv r sv'. \<lbrakk>F v; i < length v; v ! i = Some sv; m sv = (r, sv')\<rbrakk> \<Longrightarrow> F' (v[i := Some sv']) \<and> (\<forall>e. r = Err e \<longrightarrow> err)"
    and "\<And>e s. \<lbrakk>err; S C M d F' s\<rbrakk> \<Longrightarrow> R e s"
  shows "triple (S C M d F) (with_server sidx m) (\<lambda>_. S C M d F') R"
proof (rule tripleI)
  fix s assume s: "S C M d F s"
  show "case with_server sidx m s of (Ok x, s') \<Rightarrow> S C M d F' s' | (Err e, s') \<Rightarrow> R e s' | (Panic, s') \<Rightarrow> True"
  proof (cases "unat sidx < length (servers s) \<and> servers s ! unat sidx \<noteq> None")
    case True
    then obtain sv where sv: "servers s ! unat sidx = Some sv" by blast
    obtain r sv' where m: "m sv = (r, sv')" by fastforce
    have run: "with_server sidx m s = (r, s\<lparr>servers := (servers s)[unat sidx := Some sv']\<rparr>)"
      using True sv m by (simp add: with_server_def server_from_sidx_def bindM_def)
    have F: "F' ((servers s)[unat sidx := Some sv'])" "\<forall>e. r = Err e \<longrightarrow> err"
      using assms(1) [OF _ _ sv m] True s by (auto simp: S_def)
    show ?thesis unfolding run using S_servers [OF s, of F', OF F(1)] F(2) assms(2) by (auto split: outcome.split)
  qed (auto simp: with_server_def server_from_sidx_def bindM_def panicM_def split: outcome.split option.split)
qed

lemma S_with_server_any [triple_intros]:
  "(\<And>e s. S C M d anyF s \<Longrightarrow> R e s) \<Longrightarrow> triple (S C M d F) (with_server sidx m) (\<lambda>_. S C M d anyF) R"
  by (rule S_with_server [where err = True]) auto

lemma queue_response_room: "QEmpty \<in> set (queue sv) \<Longrightarrow> queue_response p t msg ca sv \<noteq> (Err e, sv')"
  by (auto simp: queue_response_def circ_scan_None in_set_conv_nth split: option.splits)

lemma S_remember: "triple (S C M d room) (with_server sidx (queue_response p t msg ca)) (\<lambda>_. S C M d anyF) R"
  by (rule S_with_server [where err = False]) (auto simp: room_def queue_response_room dest: nth_mem)

subsection \<open>Switching\<close>

fun is_remember :: "PostActivateOp \<Rightarrow> bool" where
  "is_remember (PA_RememberServerMessage _ _ _ _ _) = True"
| "is_remember _ = False"

lemma S_post_activate:
  assumes "is_remember lazy \<Longrightarrow> F = room"
  shows "triple (S C M d F) (post_activate tid lazy) (\<lambda>_. S C M d anyF) R"
proof (cases lazy)
  case PA_None
  thus ?thesis by (auto simp: post_activate_def intro!: triple_ret elim: S_weaken)
next
  case (PA_SetThreadResult r)
  thus ?thesis by (auto simp: post_activate_def intro!: S_steps triple_ret elim: S_weaken)
next
  case (PA_RememberServerMessage sidx p t msg ca)
  hence "F = room" using assms by simp
  thus ?thesis unfolding PA_RememberServerMessage post_activate_def
    by (auto intro!: triple_bind [OF S_remember] triple_ret)
qed

lemma S_pick_thread:
  assumes R: "\<And>e s. S C M d F s \<Longrightarrow> R e s"
  shows "triple (S C M d F) (pick_thread pid tid p) (\<lambda>_. S C M d F) R"
  unfolding pick_thread_def
  by (auto intro!: triple_fail triple_panic triple_ret triple_assert triple_bind_liftO triple_if S_then_current_thread R
      simp: find_next_thread_ok split: ProcessState.split)

lemma S_enter_state:
  "triple (S C M d F) (enter_state pid tid st)
     (\<lambda>st' s. S C M d F s \<and> (\<exists>x. st' = PS_Running x \<or> st' = PS_Exception x)) R"
  unfolding enter_state_def
  by (auto intro!: triple_ret triple_panic S_steps split: ProcessState.split)

lemma S_switch_process:
  assumes R: "\<And>e s. S {d} M d F s \<Longrightarrow> R e s" and lazy: "is_remember lazy \<Longrightarrow> F = room" and d: "new_pid \<noteq> d"
  shows "triple (S {d} M d F) (switch_process ptid d new_pid tid can_resume lazy) (\<lambda>_. S {new_pid} {} new_pid anyF) R"
proof -
  let ?M = "insert new_pid M"
  have R': "S {d} ?M d F s \<Longrightarrow> R e s" for e s by (rule R) (auto elim: S_weaken)
  have leave: "triple (S {d, new_pid} N new_pid anyF)
      (thenM (set_state d st) (retM x)) (\<lambda>_. S {new_pid} {} new_pid anyF) R"
    if "state_ok st" "\<not> is_running st" for st N and x :: "usize option \<times> TID"
    by (rule triple_then [OF S_set_other [OF that]], rule triple_ret) (auto elim: S_weaken)
  have enter: "triple (\<lambda>s. S {d} ?M d F s \<and> (\<exists>x. st = PS_Running x \<or> st = PS_Exception x))
      (set_state new_pid st) (\<lambda>_. S {d, new_pid} ?M d F) R" for st
    by (rule triple_pure, elim exE disjE; simp only:)
      (auto intro!: triple_post [OF S_set_run] triple_post [OF S_set_other] elim: S_weaken)
  show ?thesis
    unfolding switch_process_def bindM_assoc
    apply (rule S_bind_process [OF R], assumption)
    apply (rule triple_bind [OF S_pick_thread [OF R']], assumption)
    apply (rule S_bind_process [OF R'], assumption)
    apply (rule triple_then_mod [where P' = "S {d} ?M d F"], simp add: insert_absorb2)
    apply (rule S_bind_process [OF R'], assumption)
    apply (simp only: insert_absorb2)
    apply (rule triple_bind [OF S_enter_state])
    apply (rule triple_then [OF enter])
    apply (rule S_then_activate, assumption)
    apply (rule triple_bind [OF S_post_activate [OF lazy]], assumption)
    apply (rule S_bind_unwrap_process)
    apply (rule S_then_current_thread)
    apply (rule triple_bind_liftO)
     apply (drule leave_state_ok(1), rule leave, simp_all add: leave_state_ok(2))
    done
qed

lemma S_switch_thread:
  assumes R: "\<And>e s. S {d} {} d anyF s \<Longrightarrow> R e s" and lazy: "is_remember lazy \<Longrightarrow> F = room"
  shows "triple (S {d} M d F) (switch_thread ptid d tid can_resume lazy) (\<lambda>_. S {d} {} d anyF) R"
proof -
  have R': "S {d} N d F' s \<Longrightarrow> R e s" for e s N F' by (rule R) (auto elim: S_weaken)
  have run: "triple (S {d} (insert d N) d anyF) (thenM (set_state d (PS_Running x)) (retM y))
      (\<lambda>_. S {d} {} d anyF) R" for x N and y :: "TID + usize option \<times> TID"
    by (rule triple_then [OF S_set_run], simp, rule triple_ret) (auto elim: S_weaken)
  show ?thesis
    unfolding switch_thread_def Let_def
  proof (rule triple_bind [OF S_post_activate [OF lazy]], assumption, rule S_bind_process, goal_cases)
    case (2 si p)
    have "triple (S {d} (insert d M) d anyF) (thenM (unwrapM (current_set_tid tid))
        (thenM (set_current_thread d tid) (retM (Inl tid)))) (\<lambda>_. S {d} {} d anyF) R"
      by (intro S_steps triple_ret) (auto elim: S_weaken)
    thus ?case
      by (cases "state p") (auto intro!: triple_panic triple_assert triple_if triple_bind_liftO triple_fail
          S_then_current_thread run R' simp: find_next_thread_ok)
  qed (rule R')
qed

lemma S_activate_process_thread:
  assumes R: "\<And>e s. schedule_inv s \<Longrightarrow> R e s" and lazy: "is_remember lazy \<Longrightarrow> F = room"
  shows "triple (S {d} M d F) (activate_process_thread ptid new_pid tid can_resume lazy) (\<lambda>_. schedule_inv) R"
proof -
  have R': "S {d} N d F' s \<Longrightarrow> R e s" for e s N F' by (rule R) (auto elim: S_inv)
  have last: "triple (S {p} {} p anyF) (case r of
         Inl tid \<Rightarrow> retM tid
       | Inr (sender_idx, tid) \<Rightarrow>
           thenM (current_set_tid tid) (retM (case sender_idx of Some si \<Rightarrow> si | None \<Rightarrow> tid)))
      (\<lambda>_. schedule_inv) R" for p and r :: "TID + usize option \<times> TID"
    by (cases r) (auto intro!: triple_ret S_steps elim: S_inv split: prod.split)
  show ?thesis
  proof (cases "new_pid = d")
    case True
    show ?thesis unfolding activate_process_thread_def True
      by (rule S_bind_current, simp, rule triple_bind [OF S_switch_thread last]) (auto intro: R' lazy)
  next
    case False
    show ?thesis unfolding activate_process_thread_def
      by (rule S_bind_current, simp only: False if_True if_False not_False_eq_True bindM_assoc bindM_ret_left,
          rule triple_bind [OF S_switch_process], rule R', simp, rule lazy, simp, rule False, rule last)
  qed
qed

subsection \<open>Call-backs and exceptions\<close>

lemma S_finish_callback:
  assumes R: "\<And>e s. schedule_inv s \<Longrightarrow> R e s"
  shows "triple (S {d} M d F) (finish_callback_and_resume pid tid) (\<lambda>_. schedule_inv) R"
proof -
  have R': "S {} N d F s \<Longrightarrow> R e s" for e s N by (rule R) (auto elim: S_inv)
  have fin: "triple (S {pid} N pid F) (set_current_thread pid tid) (\<lambda>_. schedule_inv) R" for N
    by (rule triple_post [OF S_set_current_thread]) (auto elim: S_inv)
  have resume: "triple (S {} N d F) (thenM (set_state pid st)
      (thenM (modM (activate_mapping (mapping p))) (thenM (process_activate p)
      (thenM (current_set_tid tid) (set_current_thread pid tid))))) (\<lambda>_. schedule_inv) R"
    if p: "pid \<in> N" "mapping_get_pid (mapping p) = Some pid" and st: "\<exists>x. st = PS_Running x" for st N and p :: process
  proof -
    obtain x where "st = PS_Running x" using st by blast
    thus ?thesis using p
      by (auto intro!: triple_then [OF S_set_run] triple_then_mod [where P' = "S {pid} N d F"] S_steps fin)
  qed
  show ?thesis
    unfolding finish_callback_and_resume_def
    apply (rule S_bind_current, rule S_bind_unwrap_process)
    apply (rule triple_bind_liftO, rule triple_then [OF S_set_other])
        apply (simp_all add: suspend_state_ok)
    apply (rule S_bind_process, rule R', assumption)
    apply (rule triple_bind_liftO, rule resume)
       apply (simp_all add: resume_state_ok)
    done
qed

lemma S_make_callback:
  assumes R: "\<And>e s. schedule_inv s \<Longrightarrow> R e s"
  shows "triple (S {d} M d F) (make_callback_to pid pc irq_no arg) (\<lambda>_. schedule_inv) R"
proof -
  have R': "S {} N d F s \<Longrightarrow> R e s" for e s N by (rule R) (auto elim: S_inv)
  have fin: "triple (S {q} N q F) (modM (upd_thread i f)) (\<lambda>_. schedule_inv) R" for N i f q
    by (rule triple_mod) (auto elim: S_inv)
  have run: "triple (S {} (insert pid N) d F)
      (thenM (set_state pid (PS_Running available))
      (thenM (modM (upd_process pid (\<lambda>p.
                p\<lparr>previous_thread := (if current_thread p \<noteq> IRQ_TID then current_thread p else previous_thread p),
                  current_thread := IRQ_TID\<rparr>)))
      (thenM (modM (activate_mapping (mapping p)))
      (thenM (process_activate p)
      (thenM process_current
      (bindM (if pid = 1 then retM EXCEPTION_STACK_TOP
              else bindM current_thread_index (\<lambda>i. getM (\<lambda>s. registers (get_thread i s) ! 1))) (\<lambda>sp.
       thenM (unwrapM (set_tid IRQ_TID))
      (bindM current_thread_index (\<lambda>i.
         modM (upd_thread i (invoke_frame pc sp RETURN_FROM_ISR [irq_no, arg])))))))))))
      (\<lambda>_. schedule_inv) R"
    if "mapping_get_pid (mapping p) = Some pid" for available N and p :: process
    using that
    by (auto intro!: triple_then [OF S_set_run] triple_then_mod [where P' = "S {pid} (insert pid N) d F"]
        S_steps fin simp: S_upd_process)
  show ?thesis
    unfolding make_callback_to_def
    apply (rule S_bind_current, rule S_then_unwrap_process)
    apply (rule triple_then_mod [where P' = "S {d} (insert d M) d F"], subst S_upd_process, simp, simp, assumption)
    apply (rule triple_bind_any, rule triple_bind_liftO)
     apply (rule triple_then [OF S_set_other])
       apply (drule interrupt_state_ok(1), simp)
      apply (drule interrupt_state_ok(1), simp)
     apply (simp only: Diff_cancel)
     apply (rule S_bind_process, rule R', assumption)
     apply (rule triple_bind_liftO, rule run, assumption)
     apply (simp_all add: callback_threads_ok interrupt_state_ok)
    done
qed

lemma S_begin_exception:
  "triple (S {d} M d F) (begin_exception_handler pid) (\<lambda>_. S {d} M d F) R"
proof -
  have exc: "exception_state tid st = Some st' \<Longrightarrow> state_ok st' \<and> \<not> is_running st'" for tid st st'
    by (cases st) auto
  have body: "triple (S {d} (insert q M) d F)
      (thenM (set_state q st)
      (thenM (modM (upd_process q (\<lambda>p. p\<lparr>previous_thread := current_thread p, current_thread := EXCEPTION_TID\<rparr>)))
      (bindM (tryM (current_set_tid EXCEPTION_TID)) (\<lambda>r.
         retM (case r of Inl _ \<Rightarrow> None | Inr _ \<Rightarrow> Some handler)))))
      (\<lambda>_. S {d} M d F) R"
    if "state_ok st" "\<not> is_running st" for st q and handler :: exception_handler
    by (rule triple_then [OF S_set_other [OF that]],
        rule triple_then_mod [where P' = "S ({d} - {q}) (insert q M) d F"], subst S_upd_process, simp, simp, assumption,
        rule triple_bind_try [OF S_frame], intro keeps_intros, assumption)
      (auto intro!: triple_ret elim: S_weaken)
  show ?thesis
    unfolding begin_exception_handler_def
    by (rule S_bind_try_process)
      (auto split: option.split dest!: exc intro!: triple_ret body elim: S_weaken)
qed

lemma S_finish_exception:
  assumes R: "\<And>e s. S {d} M d F s \<Longrightarrow> R e s"
  shows "triple (S {d} M d F) (finish_exception_handler_and_resume d) (\<lambda>_. S {d} M d F) R"
proof -
  have R': "S {d} (insert d M) d F s \<Longrightarrow> R e s" for e s by (rule R) (auto elim: S_weaken)
  have fin: "triple (S {d} (insert d M) d F) (current_set_tid tid) (\<lambda>_. S {d} M d F) R" for tid
    by (rule triple_post [OF S_frame]) (auto intro!: keeps_intros R' elim: S_weaken)
  show ?thesis
    unfolding finish_exception_handler_and_resume_def
    by (rule S_bind_process [OF R])
      (auto split: ProcessState.split intro!: triple_fail triple_assert triple_then [OF S_set_run] S_then_current_thread fin R')
qed
end
