(* ===== verification/Table_Inv.thy ===== *)
theory Table_Inv
  imports Lifecycle Schedule_Inv
begin

text \<open>
  The scheduling invariant through the operations the system calls are made
  of: memory messages, the server table, threads, and the creation and the end
  of processes.
\<close>

section \<open>Memory messages\<close>

lemma keeps_page_loop [keeps_intros]: "(\<And>x. keeps P (body x)) \<Longrightarrow> keeps P (page_loop body err xs)"
  by (induction xs arbitrary: err) (auto intro!: keeps_intros)

lemma keeps_note_error [keeps_intros]: "keeps P m \<Longrightarrow> keeps P (note_error m)"
  unfolding note_error_def by (intro keeps_intros)

lemma keeps_activate [keeps_intros]: "keeps (kview m c) (modM (activate_mapping sp))"
  by (intro keeps_intros) simp

lemma keeps_find_room [keeps_intros]: "keeps (kview m c) (find_room sm dm dv len)"
  unfolding find_room_def by (intro keeps_intros)

lemma keeps_ensure_range [keeps_intros]: "keeps (kview m c) (ensure_range a len)"
  unfolding ensure_range_def by (intro keeps_intros)

lemma keeps_unmap_loop [keeps_intros]: "keeps (kview m c) (unmap_loop err as)"
  by (induction as arbitrary: err) (auto intro!: keeps_intros)

lemma keeps_unmap_range [keeps_intros]: "keeps (kview m c) (unmap_range a sz)"
  unfolding unmap_range_def by (intro keeps_intros)

lemma S_memory [triple_intros]:
  assumes R: "\<And>e s. S C M d F s \<Longrightarrow> R e s"
  shows "triple (S C M d F) (send_memory a pid b len) (\<lambda>_. S C M d F) R"
    and "triple (S C M d F) (lend_memory a pid b len mu) (\<lambda>_. S C M d F) R"
    and "triple (S C M d F) (return_memory a pid tid b len) (\<lambda>_. S C M d F) R"
proof -
  have R': "S C N d F s \<Longrightarrow> M \<subseteq> N \<Longrightarrow> R e s" for e s N by (rule R) (auto elim: S_weaken)
  show "triple (S C M d F) (send_memory a pid b len) (\<lambda>_. S C M d F) R"
    unfolding send_memory_def
    by (intro triple_if triple_fail R S_bind_current S_then_frame S_bind_process S_bind_frame keeps_intros triple_ret)
      (auto intro!: triple_ret triple_panic R' elim: S_weaken split: option.split)
  show "triple (S C M d F) (lend_memory a pid b len mu) (\<lambda>_. S C M d F) R"
    unfolding lend_memory_def
    by (intro triple_if triple_fail R S_bind_current S_then_frame S_bind_process S_bind_frame keeps_intros triple_ret)
      (auto intro!: triple_ret triple_panic R' elim: S_weaken split: option.split)
  show "triple (S C M d F) (return_memory a pid tid b len) (\<lambda>_. S C M d F) R"
    unfolding return_memory_def
    by (intro triple_if triple_fail R S_bind_current S_then_frame S_bind_process S_bind_frame keeps_intros triple_ret)
      (auto intro!: triple_ret triple_fail R' elim: S_weaken split: option.split)
qed

section \<open>Servers and connections\<close>

lemma keeps_connections [keeps_intros]:
  "keeps (kview m c) (connect_to_server sid)" "keeps (kview m c) (disconnect_from_server cid)"
  "keeps (kview m c) (sidx_from_cid cid)"
  by (rule keepsI; auto simp: connect_to_server_def disconnect_from_server_def sidx_from_cid_def set_connection_def Let_def
      split: if_splits outcome.splits sum.splits option.splits)+

text \<open>A process that cannot be found is not running.\<close>

lemma S_get_process_gone:
  assumes "\<And>e s. S (C - {pid}) M d F s \<Longrightarrow> R e s"
  shows "triple (S C M d F) (get_process pid)
    (\<lambda>p s. S C (insert pid M) d F s \<and> (mapping_get_pid (mapping p) = Some pid \<and> state_ok (state p)
      \<and> (is_running (state p) \<longrightarrow> pid \<in> C))) R"
proof (rule tripleI)
  fix s assume s: "S C M d F s"
  obtain r s' where run: "get_process pid s = (r, s')" by fastforce
  have gone: "S (C - {pid}) M d F s" if "r = Err e" for e
  proof -
    have "\<not> maps pid s \<or> process_free (processes s ! pid_idx pid)"
      using run that by (auto simp: get_process_def maps_def Let_def split: if_splits)
    hence "pid \<noteq> c" if "c \<in> C" "maps c s" "is_running (state (processes s ! pid_idx c))" for c
      using that by (auto simp: process_free_def split: ProcessState.splits)
    thus ?thesis using s unfolding S_def sched_def by blast
  qed
  have same: "r \<noteq> Panic \<Longrightarrow> s' = s" using run by (auto simp: get_process_def Let_def split: if_splits)
  show "case get_process pid s of
      (Ok p, s) \<Rightarrow> S C (insert pid M) d F s \<and> (mapping_get_pid (mapping p) = Some pid \<and> state_ok (state p)
        \<and> (is_running (state p) \<longrightarrow> pid \<in> C))
    | (Err e, s) \<Rightarrow> R e s | (Panic, s) \<Rightarrow> True"
    using tripleD [OF S_get_process [where R = "\<lambda>_ _. True"] s] gone same assms run by (cases r) auto
qed

lemma S_bind_process_gone:
  assumes "\<And>e s. S (C - {pid}) M d F s \<Longrightarrow> R e s"
    and "\<And>p. \<lbrakk>mapping_get_pid (mapping p) = Some pid; state_ok (state p); is_running (state p) \<longrightarrow> pid \<in> C\<rbrakk>
       \<Longrightarrow> triple (S C (insert pid M) d F) (k p) Q R"
  shows "triple (S C M d F) (bindM (get_process pid) k) Q R"
  by (rule triple_bind [OF S_get_process_gone]) (use assms in \<open>auto intro!: triple_pure\<close>)

lemma S_connect_process [triple_intros]:
  assumes R: "\<And>e s. schedule_inv s \<Longrightarrow> R e s"
  shows "triple (S {d} M d F) (connect_process_to_server pid sid) (\<lambda>_. S {d} M d F) R"
proof -
  have R': "S {d} N d F s \<Longrightarrow> R e s" for e s N by (rule R) (auto elim: S_inv)
  have R2: "S {} N q F s \<Longrightarrow> R e s" for e s N q by (rule R) (auto elim: S_inv)
  have cont: "triple (S {d} (insert pid M) pid F) (bindM (get_process d) (\<lambda>p. thenM (unwrapM (process_activate p))
      (case result of Inl e \<Rightarrow> failM e | Inr cid \<Rightarrow> retM cid))) (\<lambda>_. S {d} M d F) R" for result :: "Error + CID"
    by (rule S_bind_process_gone, rule R2, simp)
      (auto intro!: triple_then [OF triple_unwrap [OF S_activate]] triple_fail triple_ret R' elim: S_weaken split: sum.split)
  show ?thesis
    unfolding connect_process_to_server_def
    by (rule S_bind_current, rule S_bind_process, rule R', assumption, rule S_then_activate, assumption,
        rule triple_bind_try [OF S_frame], intro keeps_intros, assumption, rule cont, rule cont)
qed

lemma S_create_server_id:
  "(\<And>x. triple (S C M d F) (k x) Q R) \<Longrightarrow> triple (S C M d F) (bindM create_server_id k) Q R"
proof -
  have u32: "triple (S C M d F) get_u32 (\<lambda>_. S C M d F) R'" for R'
    by (rule tripleI) (simp add: get_u32_def)
  have "triple (S C M d F) create_server_id (\<lambda>_. S C M d F) R'" for R'
    unfolding create_server_id_def by (intro triple_bind [OF u32] triple_ret)
  thus "(\<And>x. triple (S C M d F) (k x) Q R) \<Longrightarrow> ?thesis" by (rule triple_bind)
qed

lemma S_create_server_with_address [triple_intros]:
  assumes R: "\<And>e s. S C M d anyF s \<Longrightarrow> R e s"
  shows "triple (S C M d F) (create_server_with_address pid sid con) (\<lambda>_. S C M d anyF) R"
proof -
  have R': "S C N d F' s \<Longrightarrow> M \<subseteq> N \<Longrightarrow> R e s" for e s N F' by (rule R) (auto elim: S_weaken)
  have init: "triple (S C N d F) (unwrapM (\<lambda>s. case server_init pid sid backing (servers s ! i) of
         (r, e) \<Rightarrow> (r, s\<lparr>servers := (servers s)[i := e]\<rparr>))) (\<lambda>_. S C N d anyF) R" for N i backing
    by (rule triple_unwrap, rule tripleI) (auto split: prod.split outcome.split elim: S_servers)
  show ?thesis
    unfolding create_server_with_address_def
    by (rule S_bind_process)
      (auto intro!: R' triple_panic triple_fail triple_bind_any triple_bind_liftO triple_ret S_bind_frame keeps_intros
        triple_then [OF init] elim: S_weaken split: option.split)
qed

lemma S_create_server [triple_intros]:
  assumes R: "\<And>e s. S C M d anyF s \<Longrightarrow> R e s"
  shows "triple (S C M d F) (create_server pid con) (\<lambda>_. S C M d anyF) R"
  unfolding create_server_def by (intro S_create_server_id triple_intros R)

lemma S_then_mapping: "triple (S C M d F) k Q R \<Longrightarrow> triple (S C M d F) (thenM (modM (activate_mapping sp)) k) Q R"
  by (rule triple_then_mod [where P' = "S C M d F"]) simp_all

lemma S_bind_try_server:
  assumes "\<And>r. triple (S C M d anyF) (k r) Q R"
  shows "triple (S C M d F) (bindM (tryM (with_server sidx m)) k) Q R"
  by (rule triple_bind_try [OF S_with_server_any [where R = "\<lambda>_. S C M d anyF"]]) (use assms in auto)

lemma S_remote_message [triple_intros]:
  assumes R: "\<And>e s. S C M d anyF s \<Longrightarrow> R e s"
  shows "triple (S C M d F) (queue_server_message sidx pid tid msg a) (\<lambda>_. S C M d anyF) R"
    and "triple (S C M d F) (remember_server_message sidx pid tid msg a) (\<lambda>_. S C M d anyF) R"
proof -
  have R': "S C N d F' s \<Longrightarrow> M \<subseteq> N \<Longrightarrow> R e s" for e s N F' by (rule R) (auto elim: S_weaken)
  have fin: "triple (S C N d anyF) (bindM (unwrapM (get_process q)) (\<lambda>p. thenM (modM (activate_mapping (mapping p)))
      (case r of Inl e \<Rightarrow> failM e | Inr i \<Rightarrow> retM (of_nat i)))) (\<lambda>_. S C M d anyF) R"
    if "M \<subseteq> N" for N q and r :: "Error + nat"
    using that by (cases r) (auto intro!: S_bind_unwrap_process S_then_mapping triple_fail triple_ret R' elim: S_weaken)
  show "triple (S C M d F) (queue_server_message sidx pid tid msg a) (\<lambda>_. S C M d anyF) R"
    unfolding queue_server_message_def bindM_assoc
    by (rule S_bind_current, rule S_server_from_sidx, rule triple_bind_liftO, rule S_bind_process, rule R', assumption, simp,
        rule S_then_mapping, rule S_bind_try_server, rule fin) (auto intro: R')
  show "triple (S C M d F) (remember_server_message sidx pid tid msg a) (\<lambda>_. S C M d anyF) R"
    unfolding remember_server_message_def bindM_assoc
    by (rule S_server_from_sidx, rule triple_bind_liftO, rule S_bind_process, rule R', assumption, simp,
        rule S_then_mapping, rule S_bind_try_server, rule fin) (auto intro: R')
qed

text \<open>Inside \<open>Server::destroy\<close> every call is unwrapped.\<close>

lemma S_wake:
  "triple (S C M d F) (unwrapM (ready_thread pid tid)) (\<lambda>_. S C M d F) R"
  "triple (S C M d F) (unwrapM (set_thread_result pid tid res)) (\<lambda>_. S C M d F) R"
  "triple (S C M d F) (unwrapM (return_memory a pid tid b len)) (\<lambda>_. S C M d F) R"
  "triple (S C M d F) (unwrapM (unmap_range a len)) (\<lambda>_. S C M d F) R"
  by (rule triple_unwrap, rule triple_post [OF S_ready_thread], simp_all, auto elim: S_weaken)
    (rule triple_unwrap, auto intro!: triple_intros S_frame keeps_intros)+

lemma S_client_of:
  "(\<And>x. triple (S C M d F) (k x) Q R) \<Longrightarrow> triple (S C M d F) (bindM (client_of pid) k) Q R"
  unfolding client_of_def by (rule triple_bind_liftO) (auto simp: nz_new_def split: if_splits)

lemma S_discard_entry: "triple (S C M d F) (discard_entry e) (\<lambda>_. S C M d F) R"
  unfolding discard_entry_def return_to_client_def
  by (cases e) (auto intro!: triple_ret triple_panic S_client_of triple_then [OF S_wake(1)] triple_then [OF S_wake(2)]
      triple_then [OF S_wake(3)] S_wake)

lemma S_wake_threads: "triple (S C M d F) (wake_threads n pid sv) (\<lambda>_. S C M d F) R"
  by (induction n arbitrary: sv)
    (auto intro!: triple_ret triple_panic triple_then [OF S_wake(1)] triple_then [OF S_wake(2)]
      split: prod.split outcome.split option.split)

lemma S_server_destroy: "triple (S C M d F) (server_destroy sv) (\<lambda>_. S C M d F) R"
  unfolding server_destroy_def
  by (intro triple_if triple_ret triple_then [OF triple_for_each [OF S_discard_entry]] S_bind_current
      triple_then [OF S_wake_threads] S_then_safe keeps_intros no_err_intros)
    assumption

text \<open>Loops over the process table leave an arbitrary process current.\<close>

definition anywhere :: "PID set \<Rightarrow> PID set \<Rightarrow> (server option list \<Rightarrow> bool) \<Rightarrow> kernel \<Rightarrow> bool" where
  "anywhere C M F s = (\<exists>d. S C M d F s)"

lemma anywhereI: "S C M d F s \<Longrightarrow> anywhere C M F s"
  by (auto simp: anywhere_def)

lemma triple_anywhere:
  assumes "\<And>d. triple (S C M d F) m Q R"
  shows "triple (anywhere C M F) m Q R"
  unfolding triple_def anywhere_def
proof (intro allI impI, elim exE, goal_cases)
  case (1 s d)
  thus ?case using assms [of d] by (simp only: triple_def)
qed

lemma S_activate_any [triple_intros]: "triple (S C M d F) (process_activate p) (\<lambda>_. anywhere C M F) R"
proof (rule tripleI)
  fix s assume s: "S C M d F s"
  have "S C M (proc_pid p) F (s\<lparr>table_current := proc_pid p\<rparr>)" using s by (simp add: S_def sched_def maps_def)
  thus "case process_activate p s of (Ok x, s') \<Rightarrow> anywhere C M F s' | (Err e, s') \<Rightarrow> R e s' | (Panic, s') \<Rightarrow> True"
    by (auto simp: process_activate_def set_current_pid_def process_current_def op_defs Let_def intro: anywhereI)
qed

lemma anywhere_activate: "triple (anywhere C M F) (process_activate p) (\<lambda>_. anywhere C M F) R"
  by (rule triple_anywhere) (rule S_activate_any)

lemma anywhere_simps [simp]: "anywhere C M F (upd_inner g s) = anywhere C M F s"
  by (simp add: anywhere_def)

lemma anywhere_servers: "anywhere C M F s \<Longrightarrow> F' v \<Longrightarrow> anywhere C M F' (s\<lparr>servers := v\<rparr>)"
  by (auto simp: anywhere_def elim: S_servers)

lemma come_back:
  "triple (anywhere C M F) (bindM (unwrapM (get_process d)) (\<lambda>p. unwrapM (process_activate p))) (\<lambda>_. S C M d F) R"
  by (rule triple_anywhere, rule S_bind_unwrap_process, rule triple_unwrap, rule triple_post [OF S_activate])
    (auto elim: S_weaken)

lemma S_destroy_server [triple_intros]:
  assumes R: "\<And>e s. S C M d anyF s \<Longrightarrow> R e s"
  shows "triple (S C M d F) (destroy_server pid sid) (\<lambda>_. S C M d anyF) R"
proof -
  have R': "S C N d F' s \<Longrightarrow> M \<subseteq> N \<Longrightarrow> R e s" for e s N F' by (rule R) (auto elim: S_weaken)
  have body: "triple (anywhere C M anyF) (bindM (getM (\<lambda>s. processes s ! i)) (\<lambda>p.
       if process_free p then retM ()
       else thenM (unwrapM (process_activate p)) (modM (drop_connections j)))) (\<lambda>_. anywhere C M anyF) R" for i j
    by (intro triple_bind_any triple_if triple_then [OF triple_unwrap [OF anywhere_activate]] triple_mod triple_ret)
      (auto simp: drop_connections_def)
  have loop: "triple (S C M d anyF) (for_each xs (\<lambda>i. bindM (getM (\<lambda>s. processes s ! i)) (\<lambda>p.
       if process_free p then retM ()
       else thenM (unwrapM (process_activate p)) (modM (drop_connections j))))) (\<lambda>_. anywhere C M anyF) R" for xs j
    by (rule triple_pre [OF triple_for_each [OF body]]) (rule anywhereI)
  show ?thesis
    unfolding destroy_server_def Let_def
    by (auto intro!: triple_bind_any triple_fail R' triple_panic triple_then_mod [where P' = "S C M d anyF"]
        triple_bind [OF S_server_destroy] S_bind_current triple_then [OF loop] come_back S_servers split: option.split)
qed

section \<open>Threads\<close>

lemma S_create_thread [triple_intros]:
  assumes R: "\<And>e s. S {d} {} d F s \<Longrightarrow> R e s"
  shows "triple (S {d} M d F) (create_thread d ti) (\<lambda>_. S {d} {} d F) R"
proof -
  have R': "S {d} N d F s \<Longrightarrow> R e s" for e s N by (rule R) (auto elim: S_weaken)
  have set: "triple (S {d} (insert d N) d F) (thenM (set_state d st) (retM x)) (\<lambda>_. S {d} {} d F) R"
    if "state_ok st" for st N and x :: TID
    using that by (intro triple_then [OF S_set_same] triple_ret) (auto elim: S_weaken)
  have alloc: "triple (S {d} (insert d N) d F) (thenM (thenM (modM (upd_inner g)) (set_state d st)) (retM x))
      (\<lambda>_. S {d} {} d F) R" if "state_ok st" for st N g and x :: TID
    using that unfolding thenM_def bindM_assoc unfolding thenM_def [symmetric]
    by (intro triple_then_mod [where P' = "S {d} (insert d N) d F"] set) simp_all
  have fin: "triple (S {d} (insert d N) d F) (thenM (case st of
         PS_Running x \<Rightarrow> set_state d (PS_Running (x OR thread_bit t))
       | PS_Allocated \<Rightarrow>
           thenM (modM (upd_inner (\<lambda>i. i\<lparr>inner_pid := d\<rparr>))) (set_state d (PS_Ready (thread_bit t)))
       | _ \<Rightarrow> panicM) (retM t)) (\<lambda>_. S {d} {} d F) R" for N t st
    by (cases st) (auto intro!: set alloc triple_then [OF triple_panic [where Q = "\<lambda>_ _. False"]] simp: triple_ret)
  show ?thesis
    unfolding create_thread_def bindM_assoc
    apply (rule S_bind_process, rule R', assumption)
    apply (rule S_then_activate, assumption)
    apply (rule S_then_safe, intro keeps_intros, intro no_err_intros)
    apply (rule S_bind_frame, intro keeps_intros, rule R', assumption)
    apply (rule triple_bind_liftO)
     apply (rule S_then_frame, intro keeps_intros, rule R', assumption, rule fin)
    apply (rule R', assumption)
    done
qed

lemma S_destroy_thread [triple_intros]:
  assumes R: "\<And>e s. schedule_inv s \<Longrightarrow> R e s"
  shows "triple (S {d} M d F) (destroy_thread pid tid) (\<lambda>_. schedule_inv) R"
proof -
  have R': "S C N q F' s \<Longrightarrow> C \<subseteq> {q} \<Longrightarrow> R e s" for e s N C F' q by (rule R) (auto elim: S_inv)
  have switch: "triple (S ({d} - {d}) N d F) (thenM (switch_to_thread q None) (retM x)) (\<lambda>_. schedule_inv) R"
    for N q and x :: bool
    by (rule triple_then [OF S_switch_to_thread]) (auto intro!: triple_ret intro: R' elim: S_inv)
  have last: "triple (S {d} N d F) (bindM (get_process d) (\<lambda>p.
         thenM (set_state d (if w = 0 then PS_Sleeping else PS_Ready w))
        (let new_pid = (if w = 0 then ppid p else d)
         in thenM (switch_to_thread new_pid None) (retM (new_pid \<noteq> d))))) (\<lambda>_. schedule_inv) R" for N w
    unfolding Let_def by (rule S_bind_process) (auto intro!: triple_then [OF S_set_other switch] intro: R')
  have wake: "triple (S {d} N d F) (bindM (case w of None \<Rightarrow> retM x | Some t \<Rightarrow>
      thenM (set_thread_result d t (R_Scalar1 v)) (retM (x OR thread_bit t))) k) (\<lambda>_. schedule_inv) R"
    if "\<And>y. triple (S {d} N d F) (k y) (\<lambda>_. schedule_inv) R" for w x v k N
    using that by (cases w) (auto simp: thenM_def bindM_assoc intro!: triple_bind [OF S_set_thread_result] R')
  show ?thesis
    unfolding destroy_thread_def or_default_def bindM_assoc
    by (rule S_bind_current, rule triple_assert, simp, rule S_bind_process)
      (auto intro!: R' triple_panic S_then_safe S_bind_frame keeps_intros no_err_intros triple_bind_any wake last
        split: ProcessState.split)
qed

lemma S_join_thread [triple_intros]:
  assumes R: "\<And>e s. schedule_inv s \<Longrightarrow> R e s"
  shows "triple (S {d} M d F) (join_thread pid tid t) (\<lambda>_. schedule_inv) R"
proof -
  have R': "S {d} N d F' s \<Longrightarrow> R e s" for e s N F' by (rule R) (auto elim: S_inv)
  show ?thesis
    unfolding join_thread_def
    by (rule S_bind_current, rule triple_assert, simp)
      (auto intro!: triple_fail R' S_then_safe S_bind_frame keeps_intros no_err_intros triple_ret S_bind_unwrap_process
        triple_then [OF triple_map_err [OF S_activate_process_thread]] R elim: S_inv)
qed

section \<open>Processes\<close>

text \<open>Replacing an entry of the table that is not running.\<close>

lemma S_replace:
  assumes "S C {} d F s" "\<not> is_running (state (processes s ! i))" "state_ok (state p)" "\<not> is_running (state p)"
  shows "S C {} d F (s\<lparr>processes := (processes s)[i := p]\<rparr>)"
proof -
  let ?s = "s\<lparr>processes := (processes s)[i := p]\<rparr>"
  have "state_ok (state (processes ?s ! j)) \<and> (is_running (state (processes ?s ! j)) \<longrightarrow>
      (\<exists>c \<in> C. pid_idx c = j \<and> maps c ?s))" if j: "j < length (processes s)" for j
  proof (cases "j = i")
    case False
    hence "processes ?s ! j = processes s ! j" by simp
    moreover have "maps c ?s = maps c s" if "pid_idx c = j" for c using that False by (simp add: maps_def)
    ultimately show ?thesis using assms(1) j unfolding S_def sched_def by metis
  qed (use assms j in simp)
  thus ?thesis using assms(1) by (simp add: S_def sched_def)
qed

lemma S_retire:
  assumes "S C M d F s" "state_ok st" "\<not> is_running st"
  shows "S C M d F (s\<lparr>processes := (processes s)[i := (processes s ! i)\<lparr>state := st\<rparr>]\<rparr>)"
proof -
  have "maps c (s\<lparr>processes := (processes s)[i := (processes s ! i)\<lparr>state := st\<rparr>]\<rparr>) = maps c s" for c
    by (cases "pid_idx c = i") (auto simp: maps_def nth_list_update_at)
  thus ?thesis using assms unfolding S_def sched_def by (auto simp: nth_list_update_at split: if_splits)
qed

lemma process_free_iff: "process_free p = (state p = PS_Free)"
  by (cases "state p") (simp_all add: process_free_def)

lemma S_claim_slot:
  assumes "S C M d F s" "find (\<lambda>i. process_free (processes s ! i)) [0 ..< length (processes s)] = Some i"
    "state p = PS_Allocated"
  shows "S C {} d anyF (s\<lparr>processes := (processes s)[i := p]\<rparr>)"
    "state ((processes s)[i := p] ! i) = PS_Allocated"
proof -
  have i: "i < length (processes s)" "state (processes s ! i) = PS_Free"
    using find_index_Some [OF assms(2)] by (simp_all add: process_free_iff)
  show "S C {} d anyF (s\<lparr>processes := (processes s)[i := p]\<rparr>)"
    by (rule S_replace) (use assms(1,3) i in \<open>auto elim: S_weaken\<close>)
  show "state ((processes s)[i := p] ! i) = PS_Allocated" using i(1) assms(3) by simp
qed

lemma S_arch_process_create:
  "triple (S {d} {} d F) (unwrapM (arch_process_create pid init)) (\<lambda>_. S {d} {} d anyF) R"
proof -
  let ?T = "\<lambda>(_ :: Error) (_ :: kernel). True"
  have w: "S {d} N d F' s \<Longrightarrow> S {d} {} d anyF s" for s N F' by (auto elim: S_weaken)
  have send: "triple (S {d} N d F') (bindM (connect_process_to_server q sid) (\<lambda>cid.
      thenM (send_memory a q' b len) (retM (st cid)))) (\<lambda>_. S {d} {} d anyF) ?T" for N F' q q' a b len sid and st :: "CID \<Rightarrow> process_startup"
    by (auto intro!: triple_bind [OF S_connect_process] triple_then [OF S_memory(1)] triple_ret w)
  show ?thesis
    unfolding arch_process_create_def
    by (rule triple_unwrap, rule S_bind_current, rule S_bind_process)
      (auto intro!: S_then_mapping S_create_server_id triple_bind_liftO triple_then [OF triple_unwrap [OF S_frame]] keeps_intros
        triple_then [OF S_create_server_with_address] S_bind_process send split: SID.split)
qed

lemma S_create_process [triple_intros]:
  assumes R: "\<And>e s. schedule_inv s \<Longrightarrow> R e s"
  shows "triple (S {d} M d F) (create_process init) (\<lambda>_. S {d} {} d anyF) R"
proof -
  have R': "S {d} N d F' s \<Longrightarrow> R e s" for e s N F' by (rule R) (auto elim: S_inv)
  let ?A = "\<lambda>i s. S {d} {} d anyF s \<and> state (processes s ! i) = PS_Allocated"
  have alloc: "triple (?A i) (map_errM f (allocate_mapping old q)) (\<lambda>_. ?A i) R" for i f old q
  proof (rule tripleI)
    fix s assume s: "?A i s"
    have k: "keeps (kview (mstate.more s) (table_current s)) (map_errM f (allocate_mapping old q))" by (intro keeps_intros)
    obtain r s' where run: "map_errM f (allocate_mapping old q) s = (r, s')" by fastforce
    have "r \<noteq> Panic \<Longrightarrow> ?A i s'"
      using keepsD [OF k _ run] s S_more [of s' s] more_fields [of s' s] by (simp add: kview_def)
    thus "case map_errM f (allocate_mapping old q) s of (Ok x, s') \<Rightarrow> ?A i s' | (Err e, s') \<Rightarrow> R e s' | (Panic, s') \<Rightarrow> True"
      unfolding run by (auto intro: R' split: outcome.split)
  qed
  have fin: "triple (S {d} {} d anyF) (bindM (unwrapM (arch_process_create q init)) (\<lambda>startup.
          thenM (modM (\<lambda>s. s\<lparr>processes := (processes s)[i := (processes s ! i)\<lparr>state := PS_Ready (thread_bit t)\<rparr>]\<rparr>))
            (retM startup))) (\<lambda>_. S {d} {} d anyF) R" for q i t
    by (rule triple_bind [OF S_arch_process_create], rule triple_then_mod [where P' = "S {d} {} d anyF"])
      (auto intro!: S_retire triple_ret)
  show ?thesis
    unfolding create_process_def
    apply (rule triple_bind_get)
    apply (split option.split, intro conjI impI allI)
     apply (rule triple_fail, rule R', erule conjunct1)
    subgoal for x i
      apply (rule triple_bind_liftO)
       apply (rule triple_then_mod [where P' = "?A i"])
        apply (auto simp: S_claim_slot [of "{d}" M d F])[1]
       apply (rule triple_bind_any)
       apply (rule triple_bind [OF alloc])
       apply (rule triple_then_mod [where P' = "S {d} {} d anyF"])
        apply (auto intro!: S_replace)[1]
       apply (rule fin)
      apply (rule R', erule conjunct1)
      done
    done
qed

lemma keeps_view:
  assumes "\<And>m c. keeps (kview m c) (op' :: (kernel, 'a) kop)"
    "\<And>s s'. \<lbrakk>P s; mstate.more s' = mstate.more s; table_current s' = table_current s\<rbrakk> \<Longrightarrow> P s'"
  shows "keeps P op'"
  by (rule keepsI) (metis assms keepsD kview_def)

definition retire :: "nat \<Rightarrow> process list \<Rightarrow> process list" where
  "retire i ps = ps[i := (ps ! i)\<lparr>state := PS_Free\<rparr>]"

lemma S_process_terminate:
  assumes R: "\<And>e s. S C M d F s \<Longrightarrow> R e s"
  shows "triple (\<lambda>s. S C M d F s \<and> processes s = ps) (process_terminate i)
    (\<lambda>_ s. S C M d F s \<and> processes s = retire i ps) R"
proof -
  let ?P = "\<lambda>s. S C M d F s \<and> processes s = ps"
  have irq: "keeps ?P (release_interrupts_for_pid q)" for q
  proof -
    have "keeps ?P (for_each xs (\<lambda>i. bindM (getM (\<lambda>s. irq_handlers s ! i)) (\<lambda>h.
        if handler_owned q h then thenM (disable_irq (of_nat i)) (set_handler i None) else retM ())))" for xs
      unfolding disable_irq_def set_handler_def by (intro keeps_intros) simp_all
    thus ?thesis unfolding release_interrupts_for_pid_def keeps_def by blast
  qed
  have frame: "keeps ?P op'" if "\<And>m c. keeps (kview m c) op'" for op' :: "(kernel, unit) kop"
    by (rule keeps_view [OF that]) (use S_more more_fields in metis)
  have step: "triple ?P op' (\<lambda>_. ?P) R" if "keeps ?P op'" for op' :: "(kernel, unit) kop"
    by (rule triple_post [OF triple_keeps [OF that]]) (auto intro: R)
  show ?thesis
    unfolding process_terminate_def
    by (auto intro!: triple_bind_any triple_if triple_fail R triple_then [OF step [OF frame]] triple_then [OF step [OF irq]]
        keeps_intros triple_mod S_retire simp: retire_def)
qed

lemma retired_gone:
  assumes "S C M d F s" "processes s = retire (pid_idx pid) ps"
  shows "S (C - {pid}) M d F s"
proof -
  have "c \<noteq> pid" if "maps c s" "is_running (state (processes s ! pid_idx c))" for c
    using that assms(2) by (auto simp: maps_def retire_def)
  thus ?thesis using assms(1) unfolding S_def sched_def by blast
qed

lemma anywhere_detach: "triple (anywhere C {} anyF) (detach_server pid i) (\<lambda>_. anywhere C {} anyF) R"
proof -
  have loop: "triple (anywhere C {} anyF) (for_each ps (\<lambda>p. if process_free p then retM ()
       else thenM (process_activate p) (modM (tombstone i)))) (\<lambda>_. anywhere C {} anyF) R" for ps
    by (rule triple_for_each)
      (auto intro!: triple_ret triple_then [OF anywhere_activate] triple_mod simp: tombstone_def)
  show ?thesis
    unfolding detach_server_def
    by (rule triple_bind_any)
      (auto intro!: triple_ret triple_panic triple_then [OF loop] triple_then [OF triple_unwrap [OF anywhere_activate]]
        triple_mod anywhere_servers split: option.split prod.split)
qed

lemma S_terminate_process [triple_intros]:
  assumes R: "\<And>e s. schedule_inv s \<Longrightarrow> R e s" and C: "C \<subseteq> {pid}"
  shows "triple (S C M d F) (terminate_process pid) (\<lambda>_. schedule_inv) R"
proof -
  have R': "S C' N q F' s \<Longrightarrow> C' \<subseteq> {q} \<Longrightarrow> R e s" for e s N q F' C' by (rule R) (rule S_inv)
  have none: "C - {pid} = {}" using C by blast
  have loop: "triple (S C M d F) (for_each xs (detach_server pid)) (\<lambda>_. anywhere C {} anyF) R" for xs
    by (rule triple_pre [OF triple_for_each [OF anywhere_detach]]) (auto intro!: anywhereI elim: S_weaken)
  have switch: "triple (\<lambda>s. S C N pid anyF s \<and> processes s = retire (pid_idx pid) ps)
      (thenM (unwrapM (switch_to_thread q None)) (retM q)) (\<lambda>_. schedule_inv) R" for N q ps
  proof (rule triple_pre)
    show "triple (S {} N pid anyF) (thenM (unwrapM (switch_to_thread q None)) (retM q)) (\<lambda>_. schedule_inv) R"
      by (rule triple_then [OF triple_unwrap [OF S_switch_to_thread]]) (auto intro!: triple_ret elim: S_inv)
  qed (use none retired_gone in \<open>metis\<close>)
  have stop: "triple (S C N pid anyF) (thenM (process_terminate (pid_idx pid))
      (thenM (unwrapM (switch_to_thread q None)) (retM q))) (\<lambda>_. schedule_inv) R" for N q
    by (rule triple_freeze, rule triple_then [OF S_process_terminate], rule R', assumption, rule C, rule switch)
  show ?thesis
    unfolding terminate_process_def
    apply (rule triple_bind_any, rule triple_then [OF loop])
    apply (rule triple_then_mod [where P' = "anywhere C {} anyF"], rule anywhere_servers, assumption, rule TrueI)
    apply (rule triple_anywhere)
    apply (rule S_bind_process_gone, rule R', assumption, simp add: none)
    apply (rule S_then_activate, assumption)
    apply (rule stop)
    done
qed

text \<open>\<open>shutdown\<close> frees every process, so nothing is left running.\<close>

lemma S_shutdown_servers:
  "triple (S C M d F) (for_each xs (\<lambda>i. bindM (getM (\<lambda>s. servers s ! i)) (\<lambda>sv. case sv of
         None \<Rightarrow> retM ()
       | Some sv \<Rightarrow>
           thenM (modM (\<lambda>s. s\<lparr>servers := (servers s)[i := None]\<rparr>))
          (bindM (server_destroy sv) (\<lambda>r. assertM (r = None)))))) (\<lambda>_. S C M d anyF) R"
  by (rule triple_pre [OF triple_for_each [where P = "S C M d anyF"]])
    (auto intro!: triple_bind_any triple_ret triple_then_mod [where P' = "S C M d anyF"] triple_bind [OF S_server_destroy]
      triple_assert_end S_servers elim: S_weaken split: option.split)

definition freed :: "nat \<Rightarrow> nat \<Rightarrow> process list \<Rightarrow> bool" where
  "freed n k ps = (length ps = n \<and> (\<forall>j < k. process_free (ps ! j)))"

lemma freed_all: "\<lbrakk>S C M d F s; freed n n (processes s)\<rbrakk> \<Longrightarrow> S {} M d F s"
  unfolding S_def sched_def freed_def process_free_iff by fastforce

lemma freed_retire: "\<lbrakk>freed n i ps; i < n\<rbrakk> \<Longrightarrow> freed n (Suc i) (retire i ps)"
  by (auto simp: freed_def retire_def less_Suc_eq process_free_iff nth_list_update_at)

text \<open>The number of entries of the process table never changes.\<close>

abbreviation entries :: "nat \<Rightarrow> kernel \<Rightarrow> bool" where
  "entries n s \<equiv> length (processes s) = n"

lemma entries_frame: "(\<And>m c. keeps (kview m c) (op' :: (kernel, 'a) kop)) \<Longrightarrow> keeps (entries n) op'"
  by (erule keeps_view) (drule more_fields(1), simp)

lemmas entries_frames = kv.keeps_context(1) kv.keeps_threads(2) kv.keeps_manager(3) kv.keeps_unmap_page keeps_unmap_range

lemmas entries_framed [keeps_intros] = entries_frames [THEN entries_frame]

lemma entries_process [keeps_intros]:
  "keeps (entries n) (get_process pid)" "keeps (entries n) (set_state pid st)" "keeps (entries n) (process_activate p)"
  "keeps (entries n) (ready_thread pid tid)" "keeps (entries n) (set_thread_result pid tid res)"
proof -
  show a: "keeps (entries n) (get_process pid)" for pid
    by (rule keepsI) (auto simp: get_process_def Let_def split: if_splits)
  show b: "keeps (entries n) (set_state pid st)" for st
    unfolding set_state_def by (rule keeps_mod) simp
  show c: "keeps (entries n) (process_activate p)" for p
    unfolding process_activate_def
    by (rule keepsI) (auto simp: set_current_pid_def process_current_def op_defs Let_def activate_mapping_def split: if_splits)
  show "keeps (entries n) (ready_thread pid tid)"
    unfolding ready_thread_def by (intro keeps_intros a b)
  show "keeps (entries n) (set_thread_result pid tid res)"
    unfolding set_thread_result_def by (intro keeps_intros a c)
qed

lemma entries_return_memory [keeps_intros]: "keeps (entries n) (return_memory a pid tid b len)"
  unfolding return_memory_def by (intro keeps_intros)

lemma entries_server_destroy [keeps_intros]: "keeps (entries n) (server_destroy sv)"
proof -
  have entry: "keeps (entries n) (discard_entry e)" for e
    unfolding discard_entry_def return_to_client_def client_of_def
    by (cases e; simp; intro keeps_intros)
  have wake: "keeps (entries n) (wake_threads k pid v)" for k pid v
    by (induction k arbitrary: v) (auto intro!: keeps_intros split: prod.split outcome.split option.split)
  show ?thesis unfolding server_destroy_def by (intro keeps_intros entry wake)
qed

lemma entries_shutdown_servers:
  "keeps (entries n) (for_each xs (\<lambda>i. bindM (getM (\<lambda>s. servers s ! i)) (\<lambda>sv. case sv of
         None \<Rightarrow> retM ()
       | Some sv \<Rightarrow>
           thenM (modM (\<lambda>s. s\<lparr>servers := (servers s)[i := None]\<rparr>))
          (bindM (server_destroy sv) (\<lambda>r. assertM (r = None))))))"
  by (intro keeps_intros) simp

lemma activate_processes:
  "triple (\<lambda>s. anywhere C M F s \<and> processes s = ps) (process_activate p) (\<lambda>_ s. anywhere C M F s \<and> processes s = ps) R"
proof -
  have "keeps (\<lambda>s. processes s = ps) (process_activate p)"
    unfolding process_activate_def
    by (rule keepsI) (auto simp: set_current_pid_def process_current_def op_defs Let_def activate_mapping_def split: if_splits)
  thus ?thesis by (rule triple_and_keeps [OF anywhere_activate])
qed

lemma S_shutdown [triple_intros]: "triple (S C M d F) shutdown (\<lambda>_. schedule_inv) R"
proof -
  let ?P = "\<lambda>n k s. anywhere C {} anyF s \<and> freed n k (processes s)"
  have stop: "triple (\<lambda>s. anywhere C {} anyF s \<and> processes s = ps) (unwrapM (process_terminate i)) (\<lambda>_. ?P n (Suc i)) R"
    if "freed n i ps" "i < n" for ps n i
  proof (rule triple_unwrap, rule tripleI, goal_cases)
    case (1 s)
    then obtain q where "S C {} q anyF s \<and> processes s = ps" by (auto simp: anywhere_def)
    from tripleD [OF S_process_terminate [where R = "\<lambda>_ _. True"] this]
    show ?case using freed_retire [OF that] by (auto simp: anywhere_def split: prod.split outcome.split)
  qed
  have body: "triple (?P n i) (bindM (getM (\<lambda>s. processes s ! i)) (\<lambda>p.
          if process_free p then retM ()
          else thenM (unwrapM (process_activate p)) (unwrapM (process_terminate i)))) (\<lambda>_. ?P n (Suc i)) R"
    if i: "i < n" for n i
  proof (rule triple_freeze [where f = processes], goal_cases)
    case (1 ps)
    show ?case
    proof (cases "freed n i ps")
      case True
      have act: "triple (\<lambda>s. (?P n i s \<and> processes s = ps) \<and> processes s ! i = p) (unwrapM (process_activate p))
          (\<lambda>_ s. anywhere C {} anyF s \<and> processes s = ps) R" for p
        by (rule triple_unwrap, rule triple_pre [OF activate_processes]) simp
      show ?thesis
        by (rule triple_bind_get, rule triple_if, rule triple_ret, force simp: freed_def less_Suc_eq,
            rule triple_then [OF act stop [OF True i]])
    qed (auto simp: triple_def)
  qed
  have servers: "triple (\<lambda>s. S C M d F s \<and> entries n s) (for_each xs (\<lambda>i. bindM (getM (\<lambda>s. servers s ! i)) (\<lambda>sv. case sv of
         None \<Rightarrow> retM ()
       | Some sv \<Rightarrow>
           thenM (modM (\<lambda>s. s\<lparr>servers := (servers s)[i := None]\<rparr>))
          (bindM (server_destroy sv) (\<lambda>r. assertM (r = None)))))) (\<lambda>_. ?P n 0) R" for n xs
    by (rule triple_post [OF triple_and_keeps [OF S_shutdown_servers entries_shutdown_servers]])
      (auto simp: freed_def intro: anywhereI elim: S_weaken)
  show ?thesis
    unfolding shutdown_def
    apply (rule triple_bind_get, split prod.split, intro allI impI)
    subgoal for x n k
      apply (rule triple_then [OF triple_pre [OF servers [of k]]], force)
      apply (rule triple_post, rule triple_for_each_upt [where P = "?P k"], erule body)
       apply (auto simp: anywhere_def dest: freed_all elim: S_inv [of "{}"])
      done
    done
qed

end
