(* ===== verification/Kernel_Inv.thy ===== *)
theory Kernel_Inv
  imports Trap Table_Inv
begin

text \<open>
  The scheduling invariant through the system calls and the trap handler.
\<close>

section \<open>System calls\<close>

text \<open>The postcondition of every handler, on success and on error.\<close>

abbreviation restores :: "(kernel \<Rightarrow> bool) \<Rightarrow> (kernel, 'a) kop \<Rightarrow> bool" where
  "restores P m \<equiv> triple P m (\<lambda>_. schedule_inv) (\<lambda>_. schedule_inv)"

lemma restores_inv: "(\<And>d. restores (S {d} {} d anyF) m) \<Longrightarrow> restores schedule_inv m"
  by (rule triple_inv)

lemma restores_ret: "restores (S {d} M d F) (retM x)" "restores schedule_inv (retM x)"
  by (auto intro!: triple_ret elim: S_inv)

lemma restores_fail: "restores (S {d} M d F) (failM e)" "restores schedule_inv (failM e)"
  by (auto intro!: triple_fail elim: S_inv)

lemma restores_bind_try:
  "\<lbrakk>restores P m; \<And>r. restores schedule_inv (k r)\<rbrakk> \<Longrightarrow> restores P (bindM (tryM m) k)"
  by (rule triple_bind_try)

lemma restores_bind_option:
  "\<lbrakk>\<And>y. x = Some y \<Longrightarrow> restores (S {d} M d F) (k y)\<rbrakk> \<Longrightarrow> restores (S {d} M d F) (bindM (liftO (ok_or x e)) k)"
  "\<lbrakk>\<And>y. x = Some y \<Longrightarrow> restores (S {d} M d F) (k y)\<rbrakk> \<Longrightarrow> restores (S {d} M d F) (bindM (liftO (unwrap_opt x)) k)"
  by (cases x; auto intro!: triple_bind_liftO elim: S_inv)+

lemma restores_note_owner: "restores schedule_inv note_quantum_owner"
  unfolding note_quantum_owner_def
proof (rule triple_inv, goal_cases)
  case (1 d)
  show ?case
    by (auto intro!: triple_bind_any restores_bind_option triple_ignore
        triple_post [OF S_set_last_thread [where R = "\<lambda>_. S {d} {} d anyF"]] elim: S_inv
        split: prod.split)
qed

lemma restores_resume_other:
  "(is_remember lazy \<Longrightarrow> F = room) \<Longrightarrow> restores (S {d} M d F) (resume_other tid new_pid new_tid can_resume lazy)"
  unfolding resume_other_def
  by (auto intro!: triple_map_err triple_then [OF S_activate_process_thread] restores_ret)

lemma restores_leave_to:
  "(is_remember lazy \<Longrightarrow> F = room) \<Longrightarrow> restores (S {d} M d F) (leave_to tid new_pid new_tid can_resume lazy)"
  unfolding leave_to_def
  by (intro restores_bind_try [OF restores_resume_other] triple_then [OF restores_note_owner])
    (auto intro!: restores_ret restores_fail split: sum.split)

lemma S_take_caller: "triple (S C M d F) take_caller (\<lambda>_. S C M d F) R"
  by (rule tripleI) (simp add: take_caller_def split: option.split)

lemma restores_yield: "restores (S {d} M d F) (do_yield pid tid)"
  unfolding do_yield_def by (rule triple_bind [OF S_take_caller]) (auto intro!: restores_leave_to split: prod.split)

lemma restores_retry: "restores schedule_inv (retry_syscall pid tid)"
  unfolding retry_syscall_def
  by (rule restores_inv) (intro S_then_safe keeps_intros no_err_intros restores_yield)

lemma restores_retry_on: "restores P m \<Longrightarrow> restores P (retry_on e pid tid m)"
  unfolding retry_on_def
  by (erule restores_bind_try) (auto intro!: restores_ret restores_fail restores_retry split: sum.split)

subsection \<open>Sending\<close>

lemma S_translate_message:
  "(\<And>e s. S C M d F s \<Longrightarrow> R e s) \<Longrightarrow> triple (S C M d F) (translate_message q msg) (\<lambda>_. S C M d F) R"
  unfolding translate_message_def rebase_def bindM_assoc
  by (cases msg) (auto intro!: triple_ret triple_bind [OF S_memory(1)] triple_bind [OF S_memory(2)] triple_bind_liftO)

lemma S_take_available:
  "(\<And>e s. S C M d room s \<Longrightarrow> R e s) \<Longrightarrow> triple (S C M d room) (with_server sidx take_available_thread) (\<lambda>_. S C M d room) R"
proof (rule S_with_server [where err = True], goal_cases)
  case (1 v i sv r sv')
  from take_available_frame [OF 1(5)] have "queue sv' = queue sv" by auto
  moreover have "Some sv \<in> set v" using 1(3,4) by (metis nth_mem)
  ultimately show ?case using 1(2) set_update_subset_insert [of v i "Some sv'"] unfolding room_def by auto
qed

lemma S_or_return_thread:
  assumes "triple P m Q (\<lambda>_. S {d} M d F)"
  shows "triple P (or_return_thread sidx t m) Q (\<lambda>_. schedule_inv)"
  unfolding or_return_thread_def
  by (rule triple_bind_try [OF assms])
    (auto intro!: triple_ret triple_fail triple_then [OF S_with_server_any] elim: S_inv)

lemma restores_deliver_now: "restores (S {d} {} d room) (deliver_now pid tid sidx q t msg a)"
proof -
  let ?Q = "S {d} {q} d room"
  have remember: "triple ?Q (or_return_thread sidx t (remember_server_message sidx pid tid msg a))
      (\<lambda>_. S {d} {q} d anyF) (\<lambda>_. schedule_inv)"
    by (rule S_or_return_thread [OF S_remote_message(2)])
  have act: "restores ?Q (map_errM f (activate_process_thread tid q t False
      (PA_RememberServerMessage sidx pid tid msg a)))" for f
    by (rule triple_map_err, rule S_activate_process_thread) simp_all
  have ready: "triple (S {d} {} d room) (or_return_thread sidx t (ready_thread q t)) (\<lambda>_. ?Q) (\<lambda>_. schedule_inv)"
    by (rule S_or_return_thread [OF S_ready_thread])
  have run: "triple ?Q (unwrapM (runnable q x)) (\<lambda>_. ?Q) R'" for x R'
    by (rule triple_unwrap, rule triple_post [OF S_runnable]) auto
  show ?thesis
    unfolding deliver_now_def
    by (rule triple_then [OF ready], rule triple_bind [OF run], intro triple_if)
      (auto intro!: triple_bind [OF remember] triple_bind [OF S_take_caller] restores_leave_to triple_bind [OF act]
        triple_then [OF S_set_thread_result] restores_ret elim: S_inv split: prod.split)
qed

lemma restores_send_message: "restores (S {d} {} d room) (send_message pid tid cid msg)"
proof -
  have R': "S {d} N d F s \<Longrightarrow> schedule_inv s" for s N F by (auto elim: S_inv)
  have leave: "restores (S {d} N d F) (bindM (unwrapM (get_process pid)) (\<lambda>p.
      thenM reset_switchto_caller (leave_to tid (ppid p) 0 False PA_None)))" for N F
    unfolding reset_switchto_caller_def
    by (auto intro!: S_bind_unwrap_process triple_then_mod [where P' = "S {d} (insert pid N) d F"] restores_leave_to)
  show ?thesis
    unfolding send_message_def bindM_assoc Let_def
    apply (rule S_bind_frame, intro keeps_intros, rule R', assumption)
    apply (rule restores_bind_option, rule S_server_from_sidx, rule restores_bind_option)
    apply (rule triple_bind [OF S_translate_message], rule R', assumption)
    apply (rule triple_bind [OF S_take_available], rule R', assumption)
    apply (auto intro!: restores_deliver_now triple_then [OF S_remote_message(1)] leave restores_ret R' split: option.split)
    done
qed

subsection \<open>Replying and receiving\<close>

lemma restores_complete_reply: "restores (S {d} M d F) (complete_reply d t irq cp ct v r)"
proof -
  have R': "S C N q F' s \<Longrightarrow> C \<subseteq> {q} \<Longrightarrow> schedule_inv s" for C s N F' q by (auto elim: S_inv)
  have stay: "triple (S {d} M d F) (stays_in_server d cp ct irq) (\<lambda>_. S {d} M d F) (\<lambda>_. schedule_inv)"
    unfolding stays_in_server_def
    by (auto intro!: triple_ret triple_bind [OF S_runnable] triple_get R' elim: S_weaken)
  show ?thesis
    unfolding complete_reply_def
    apply (rule triple_bind [OF stay], rule triple_if)
     apply (rule triple_then [OF S_set_thread_result], rule R', assumption, simp, rule restores_ret)
    apply (rule triple_then [OF S_unschedule_thread], rule R', assumption, simp)
    apply (rule triple_then [OF S_ready_thread], rule R', assumption, simp)
    apply (rule triple_then [OF S_set_thread_result], rule R', assumption, simp)
    apply (rule triple_then [OF S_switch_to_thread], rule R', assumption, simp_all)
    apply (rule restores_ret)
    done
qed

lemma S_reply_server:
  "triple (S {d} M d F) (reply_server q sender) (\<lambda>_. S {d} M d F) (\<lambda>_. schedule_inv)"
  unfolding reply_server_def bindM_assoc
  by (auto intro!: S_server_from_sidx triple_bind_liftO triple_ret triple_fail elim: S_inv)

lemma restores_return_memory: "restores (S {d} M d F) (sys_return_memory d t irq sender buf off v)"
proof -
  have R': "S {d} N d F' s \<Longrightarrow> schedule_inv s" for s N F' by (auto elim: S_inv)
  show ?thesis
    unfolding sys_return_memory_def Let_def
    by (rule triple_then [OF S_reply_server], rule triple_bind [OF S_with_server_any])
      (auto intro!: R' restores_ret restores_fail triple_then [OF S_memory(3)] triple_then [OF S_ready_thread]
        restores_complete_reply S_then_frame keeps_intros split: WaitingMessage.split)
qed

lemma restores_return_result: "restores (S {d} M d F) (return_result d t irq sender v)"
proof -
  have R': "S {d} N d F' s \<Longrightarrow> schedule_inv s" for s N F' by (auto elim: S_inv)
  show ?thesis
    unfolding return_result_def Let_def
    by (rule triple_then [OF S_reply_server], rule triple_bind [OF S_with_server_any])
      (auto intro!: R' restores_fail triple_then [OF S_ready_thread] restores_complete_reply split: WaitingMessage.split)
qed

lemma restores_reply_and_receive:
  "restores (S {d} M d F) (reply_and_receive_next d t irq sender a0 a1 a2 a3 a4 ty)"
proof -
  have R': "S {d} N d F' s \<Longrightarrow> schedule_inv s" for s N F' by (auto elim: S_inv)
  have fin: "restores (S {d} N d anyF) (thenM (ready_thread cp ct) (case m of
       Some msg \<Rightarrow> complete_reply d t irq cp ct v (R_MessageEnvelope msg)
     | None \<Rightarrow> resume_other t cp ct False (PA_SetThreadResult v)))" for N cp ct v m
    by (rule triple_then [OF S_ready_thread])
      (auto intro!: restores_complete_reply restores_resume_other R' split: option.split)
  have given: "restores (S {d} N d anyF) (bindM (case w of
             WM_ScalarMessage pid tid \<Rightarrow> retM (pid, tid, scalar_reply ty a0 a1 a2 a3 a4)
           | WM_BorrowedMemory pid tid server_addr client_addr len \<Rightarrow>
               thenM (return_memory server_addr pid tid client_addr len)
                 (retM (pid, tid, R_MemoryReturned (nz_new a3) (nz_new a4)))
           | _ \<Rightarrow> failM DoubleFree) k)"
    if "\<And>cp ct v. restores (S {d} N d anyF) (k (cp, ct, v))" for w k N
    using that by (cases w) (auto simp: thenM_def bindM_assoc intro!: restores_fail triple_bind [OF S_memory(3)] R')
  show ?thesis
    unfolding reply_and_receive_next_def Let_def
    by (rule triple_then [OF S_reply_server], rule triple_bind [OF S_with_server_any], rule R', assumption,
        rule triple_bind [OF S_with_server_any], rule R', assumption, rule given, simp only: prod.case, rule fin)
qed

lemma restores_receive_message: "restores (S {d} M d F) (receive_message pid t sid b)"
proof -
  have R': "S {d} N d F' s \<Longrightarrow> schedule_inv s" for s N F' by (auto elim: S_inv)
  have leave: "restores (S {d} N d anyF) (thenM reset_switchto_caller
      (bindM (unwrapM (get_process q)) (\<lambda>p. leave_to t (ppid p) 0 False PA_None)))" for N q
    unfolding reset_switchto_caller_def
    by (auto intro!: S_bind_unwrap_process triple_then_mod [where P' = "S {d} N d anyF"] restores_leave_to)
  show ?thesis
    unfolding receive_message_def bindM_assoc
    apply (rule triple_bind [OF S_thread_is_running], rule triple_assert, rule triple_bind_any)
    apply (rule restores_bind_option, rule S_server_from_sidx, rule restores_bind_option, rule triple_if)
     apply (rule restores_fail)
    apply (rule triple_bind [OF S_with_server_any], rule R', assumption)
    apply (auto intro!: restores_ret triple_then [OF S_with_server_any] leave R' split: option.split)
    done
qed

subsection \<open>Memory, threads and interrupts\<close>

lemma keeps_sys_memory [keeps_intros]:
  "keeps (kview m c) (sys_map_memory pid phys virt sz fl)" "keeps (kview m c) (sys_increase_heap n fl)"
  "keeps (kview m c) (sys_decrease_heap n)" "keeps (kview m c) (sys_adjust_limit i cur new)"
  unfolding sys_map_memory_def sys_increase_heap_def sys_decrease_heap_def sys_adjust_limit_def Let_def
  by (intro keeps_intros; simp)+

lemma S_interrupts:
  assumes R: "\<And>e s. S C M d F s \<Longrightarrow> R e s"
  shows "triple (S C M d F) (interrupt_claim n pid f arg) (\<lambda>_. S C M d F) R"
    "triple (S C M d F) (interrupt_free n pid) (\<lambda>_. S C M d F) R"
  by (rule tripleI; auto simp: interrupt_claim_def interrupt_free_def set_handler_def enable_irq_def disable_irq_def op_defs R)+

lemma restores_switch_to: "restores (S {d} M d F) (sys_switch_to pid t q n)"
  unfolding sys_switch_to_def
  by (rule triple_bind_any, rule triple_assert, rule triple_then_mod [where P' = "S {d} M d F"], simp,
      rule triple_bind [OF S_activate_process_thread], assumption, simp)
    (auto intro!: triple_then_mod [where P' = schedule_inv] restores_ret)

lemma restores_create_thread: "restores (S {d} M d F) (sys_create_thread d t ti)"
  unfolding sys_create_thread_def
  apply (rule triple_bind [OF S_create_thread], erule S_inv, simp)
  apply (rule triple_then [OF triple_unwrap [OF S_switch_to_thread]], simp_all)
  apply (rule triple_then [OF triple_unwrap [OF S_set_thread_result]], simp)
  apply (rule restores_ret)
  done

lemma restores_join_thread: "restores (S {d} M d F) (sys_join_thread pid t o')"
  unfolding sys_join_thread_def reset_switchto_caller_def
  by (auto intro!: triple_bind [OF S_join_thread] triple_then_mod [where P' = schedule_inv] restores_ret)

subsection \<open>The dispatcher\<close>

lemma restores_frame: "(\<And>m c. keeps (kview m c) op') \<Longrightarrow> restores (S {d} M d F) op'"
  by (rule triple_post [OF S_frame [where R = "\<lambda>_. S {d} M d F"]]) (auto elim: S_inv)

lemma restores_post: "triple P m (\<lambda>_. S {d} M d F) (\<lambda>_. schedule_inv) \<Longrightarrow> restores P m"
  by (erule triple_post) (auto elim: S_inv)

lemma restores_then_ret: "restores P m \<Longrightarrow> restores P (thenM m (retM x))" "restores P m' \<Longrightarrow> restores P (bindM m' (\<lambda>y. retM (f y)))"
  by (auto intro!: triple_then [OF _ restores_ret(2)] triple_bind [OF _ restores_ret(2)])

lemma restores_handle_inner: "restores (S {d} {} d room) (handle_inner d tid irq call)"
proof -
  note R = S_inv [of "{d}" _ d, simplified]
  show ?thesis
  proof (cases call)
    case (SC_TerminateProcess x)
    show ?thesis unfolding handle_inner_def SC_TerminateProcess SysCall.case reset_switchto_caller_def
      by (rule triple_then [OF S_unschedule_thread], erule S_inv, simp, rule triple_then [OF S_terminate_process])
        (auto intro!: triple_then_mod [where P' = schedule_inv] restores_ret)
  next
    case (SC_ReturnToParent x y)
    show ?thesis unfolding handle_inner_def SC_ReturnToParent SysCall.case
      by (rule triple_then_mod [where P' = schedule_inv]) (auto intro!: restores_ret elim: S_inv split: option.split)
  next
    case (SC_CreateServerWithAddress x)
    show ?thesis unfolding handle_inner_def SC_CreateServerWithAddress SysCall.case
      by (rule triple_bind [OF S_create_server_with_address]) (auto intro!: restores_ret elim: R split: prod.split)
  next
    case SC_CreateServer
    show ?thesis unfolding handle_inner_def SC_CreateServer SysCall.case
      by (rule triple_bind [OF S_create_server]) (auto intro!: restores_ret elim: R split: prod.split)
  next
    case SC_WaitEvent
    show ?thesis unfolding handle_inner_def SC_WaitEvent SysCall.case reset_switchto_caller_def
      by (auto intro!: S_bind_unwrap_process triple_then_mod [where P' = "S {d} {d} d room"] restores_leave_to)
  qed (auto simp: handle_inner_def split: prod.split
      intro!: restores_frame restores_fail restores_ret triple_panic restores_then_ret restores_yield restores_retry_on
        restores_send_message restores_return_memory restores_return_result restores_reply_and_receive restores_receive_message
        restores_switch_to restores_create_thread restores_join_thread restores_post [OF S_interrupts(1)]
        restores_post [OF S_interrupts(2)] S_shutdown S_terminate_process keeps_intros
        restores_post [OF S_create_process] restores_post [OF S_create_server] restores_post [OF S_destroy_server]
        restores_post [OF S_create_server_with_address] restores_post [OF S_connect_process] S_create_server_id
        elim: R)
qed

lemma restores_handle: "restores (S {d} {} d room) (handle d tid irq call)"
  unfolding handle_def by (auto intro!: restores_fail restores_handle_inner)

lemma handle_keeps_schedule:
  assumes "schedule_inv s" "room (servers s)" "handle (table_current s) tid irq call s = (r, s')" "r \<noteq> Panic"
  shows "schedule_inv s'"
proof -
  have "S {table_current s} {} (table_current s) room s" using assms(1,2) by (simp add: S_def schedule_inv_def)
  from tripleD [OF restores_handle this] show ?thesis using assms(3,4) by (cases r) auto
qed

section \<open>Traps\<close>

text \<open>The process table and the \<open>satp\<close> register name the same process.\<close>

definition agree :: "kernel \<Rightarrow> bool" where
  "agree s = (ucast (table_current s) = drop_bit 22 (satp s) AND 0x1ff)"

definition trap_inv :: "kernel \<Rightarrow> bool" where
  "trap_inv s = (schedule_inv s \<and> agree s)"

lemma agree_upd_thread [simp]: "agree (upd_thread i f s) = agree s"
  by (simp add: agree_def upd_thread_def put_thread_def)

lemma trap_inv_upd_thread [simp]: "trap_inv (upd_thread i f s) = trap_inv s"
  by (simp add: trap_inv_def)

lemma agree_pid:
  assumes "agree s" "arch_current_pid s = Some p"
  shows "p = table_current s"
proof -
  have "arch_current_pid s = nz_new (ucast (ucast (table_current s) :: usize) :: u8)"
    using assms(1) unfolding agree_def arch_current_pid_def mapping_get_pid_def by metis
  moreover have "ucast (ucast (table_current s) :: usize) = table_current s" by simp
  ultimately show ?thesis using assms(2) by (auto simp: nz_new_def split: if_splits)
qed

text \<open>\<open>Process::current\<close> asserts the agreement.\<close>

lemma agree_current: "(\<And>s. P s \<and> agree s \<Longrightarrow> Q s) \<Longrightarrow> triple P process_current (\<lambda>_. Q) R"
  by (rule tripleI) (auto simp: process_current_def agree_def)

lemma current_index: "triple P current_thread_index (\<lambda>_. P) R" "triple P (thread_index tid) (\<lambda>_. P) R"
  by (rule tripleI, simp add: current_thread_index_def thread_index_def Let_def)+

lemma restores_resume: "triple schedule_inv resume_current (\<lambda>_. trap_inv) R" "triple schedule_inv (return_current x) (\<lambda>_. trap_inv) R"
  unfolding resume_current_def return_current_def
  by (rule triple_then [OF agree_current [where Q = trap_inv]], simp add: trap_inv_def,
      rule triple_bind [OF current_index(1)], rule triple_get, assumption)+

lemma finish_isr_inv: "triple schedule_inv finish_isr (\<lambda>_. schedule_inv) R"
proof -
  have fin: "triple (S {d} {} d anyF) (unwrapM (finish_callback_and_resume pid tid)) (\<lambda>_. schedule_inv) R'" for d pid tid R'
    by (rule triple_unwrap, rule S_finish_callback) simp
  have rest: "triple (S {d} {} d anyF) (thenM (modM (\<lambda>s. s\<lparr>previous_pair := None\<rparr>))
      (thenM (unwrapM (finish_callback_and_resume pid tid))
      (thenM (modM (\<lambda>s. s\<lparr>irq_enabled := True, sim := sim_backing s\<rparr>)) (retM True)))) (\<lambda>_. schedule_inv) R" for d pid tid
    by (rule triple_then_mod [where P' = "S {d} {} d anyF"], simp, rule triple_then [OF fin],
        rule triple_then_mod [where P' = schedule_inv])
      (auto intro!: triple_ret simp: schedule_inv_def sched_def maps_def)
  show ?thesis
    unfolding finish_isr_def bindM_assoc enable_all_irqs_def
  proof (rule triple_inv, rule triple_bind_any, goal_cases)
    case (1 d was)
    show ?case
      by (rule triple_then_mod [where P' = "S {d} {} d anyF"], simp, rule triple_if)
        (auto intro!: triple_ret triple_bind_any triple_bind_liftO rest elim: S_inv
          simp: unwrap_opt_not_Err split: prod.split)
  qed
qed

lemma restores_irq_handle: "triple (S {d} M d F) (unwrapM (irq_handle p n hs)) (\<lambda>_. schedule_inv) R"
proof -
  have "triple (S {d} M d F) (irq_handle p n hs) (\<lambda>_. schedule_inv) (\<lambda>_ _. True)"
  proof (induction hs arbitrary: n)
    case (Cons h hs)
    show ?case
      unfolding irq_handle.simps disable_all_irqs_def disable_irq_def
      by (intro triple_if; cases h)
        (auto intro!: triple_then_mod [where P' = "S {d} M d F"] Cons triple_then [OF S_make_callback] triple_ret split: prod.split)
  qed (auto intro!: triple_ret elim: S_inv)
  thus ?thesis by (rule triple_unwrap)
qed

abbreviation no_isr :: "kernel \<Rightarrow> bool" where
  "no_isr s \<equiv> \<not> handling_irq s"

lemma more_handling_irq:
  fixes s s' :: kernel
  shows "mstate.more s' = mstate.more s \<Longrightarrow> handling_irq s' = handling_irq s"
  by (cases s; cases s'; simp)

lemma no_isr_frame: "(\<And>m c. keeps (kview m c) (op' :: (kernel, 'a) kop)) \<Longrightarrow> keeps no_isr op'"
  by (erule keeps_view) (drule more_handling_irq, simp)

lemma no_isr_begin_exception: "keeps no_isr (begin_exception_handler pid)"
proof -
  have "keeps no_isr (get_process pid)"
    by (rule keepsI) (auto simp: get_process_def Let_def split: if_splits)
  moreover have "keeps no_isr (set_state pid st)" for st
    unfolding set_state_def upd_process_def by (rule keeps_mod) simp
  moreover have "keeps no_isr (current_set_tid t)" for t by (rule no_isr_frame) (intro keeps_intros)
  ultimately show ?thesis
    unfolding begin_exception_handler_def upd_process_def by (intro keeps_intros) simp_all
qed

abbreviation ends_well :: "(kernel \<Rightarrow> bool) \<Rightarrow> (kernel, trap_exit) kop \<Rightarrow> bool" where
  "ends_well P m \<equiv> triple P m (\<lambda>_. trap_inv) (\<lambda>_. trap_inv)"

lemma ends_resume:
  "ends_well schedule_inv resume_current" "ends_well schedule_inv (return_current x)"
  "ends_well (S {d} M d F) resume_current" "ends_well (S {d} M d F) (return_current x)"
  by (rule restores_resume, rule restores_resume, (rule triple_pre [OF restores_resume(1)] triple_pre [OF restores_resume(2)], erule S_inv, simp)+)

lemma ends_frame_edit:
  "ends_well (S {d} M d F) (thenM process_current (bindM (thread_index t) (\<lambda>i. thenM (modM (upd_thread i g)) (getM (\<lambda>s. Resume (get_thread i s))))))"
  "ends_well (S {d} M d F) (thenM process_current (bindM current_thread_index (\<lambda>i. thenM (modM (upd_thread i g)) (getM (\<lambda>s. Resume (get_thread i s))))))"
proof -
  have e: "triple (S {d} M d F) process_current (\<lambda>_. trap_inv) R" for R
    by (rule agree_current) (auto simp: trap_inv_def elim: S_inv)
  show "ends_well (S {d} M d F) (thenM process_current (bindM (thread_index t) (\<lambda>i. thenM (modM (upd_thread i g)) (getM (\<lambda>s. Resume (get_thread i s))))))"
    "ends_well (S {d} M d F) (thenM process_current (bindM current_thread_index (\<lambda>i. thenM (modM (upd_thread i g)) (getM (\<lambda>s. Resume (get_thread i s))))))"
    by (auto intro!: triple_then [OF e] triple_bind [OF current_index(1)] triple_bind [OF current_index(2)]
      triple_then_mod [where P' = trap_inv] triple_get)
qed

lemma ends_syscall: "ends_well (\<lambda>s. S {d} {} d room s) (trap_syscall d t)"
proof -
  have out: "ends_well schedule_inv (let response = x in if response = R_ResumeProcess then resume_current else return_current response)" for x
    by (simp add: Let_def ends_resume)
  have call: "ends_well (S {d} {} d room) (bindM (tryM (handle d tid irq call)) (\<lambda>r.
      let response = (case r of Inl e \<Rightarrow> R_Error e | Inr x \<Rightarrow> x)
      in if response = R_ResumeProcess then resume_current else return_current response))" for tid irq call
    by (rule triple_bind_try [OF restores_handle]; rule out)
  show ?thesis
    unfolding trap_syscall_def
    apply (rule S_then_safe, intro keeps_intros, intro no_err_intros)
    apply (rule S_bind_safe, intro keeps_intros, intro no_err_intros)
    apply (rule triple_then_mod [where P' = "S {d} {} d room"], simp)
    apply (rule triple_bind_any)
    apply (cases "from_args_list (trap_args t)")
      apply (simp_all add: ends_resume triple_bind_any call triple_panic)
    done
qed

lemma ends_interrupt: "ends_well (S {d} M d F) (trap_interrupt d t)"
  unfolding trap_interrupt_def
  by (rule triple_bind_any, rule triple_then_mod [where P' = "S {d} M d F"], simp,
      rule triple_then_mod [where P' = "S {d} M d F"], simp,
      rule triple_then [OF triple_bind_any [OF restores_irq_handle] ends_resume(1)])

lemma ends_exit_thread: "ends_well (S {d} M d F) (trap_exit_thread pid)"
  unfolding trap_exit_thread_def reset_switchto_caller_def
  apply (rule S_then_safe, intro keeps_intros, intro no_err_intros)
  apply (rule triple_bind_any)
  apply (rule triple_bind [OF triple_unwrap [OF S_destroy_thread]], simp)
  apply (rule triple_then [where Q = schedule_inv])
   apply (auto intro!: triple_mod triple_ret)[1]
  apply (rule triple_then [OF finish_isr_inv ends_resume(1)])
  done

lemma ends_exception_return: "ends_well (S {d} M d F) (trap_exception_return d a0)"
  unfolding trap_exception_return_def
  by (rule triple_then [OF triple_unwrap [OF S_finish_exception]], simp, rule ends_frame_edit)

lemma ends_unhandled: "ends_well (\<lambda>s. S {d} M d F s \<and> no_isr s) (trap_unhandled d t ex)"
proof -
  let ?P = "\<lambda>s. S {d} M d F s \<and> no_isr s"
  have begin': "triple ?P (bindM (case a of
         None \<Rightarrow> retM None
       | Some args \<Rightarrow> bindM (begin_exception_handler d) (\<lambda>h. retM (map_option (\<lambda>h. (h, args)) h))) k) Q R"
    if "\<And>h. triple ?P (k h) Q R" for a k Q R
    using that
    by (cases a) (auto simp: bindM_assoc intro!: triple_bind [OF triple_and_keeps [OF S_begin_exception no_isr_begin_exception]])
  have isr: "triple ?P finish_isr (\<lambda>_. S {d} M d F) R" for R
    by (auto simp: triple_def finish_isr_def op_defs)
  have kill: "ends_well ?P (thenM finish_isr (thenM (unwrapM (terminate_process d)) (thenM reset_switchto_caller resume_current)))"
    unfolding reset_switchto_caller_def
    by (rule triple_then [OF isr], rule triple_then [OF triple_unwrap [OF S_terminate_process]])
      (auto intro!: triple_then_mod [where P' = schedule_inv] ends_resume)
  have last: "ends_well (\<lambda>s. ?P s \<and> agree s) (thenM current_thread_index (if spp_supervisor t then retM Halt
      else thenM finish_isr (thenM (unwrapM (terminate_process d)) (thenM reset_switchto_caller resume_current))))"
    by (rule triple_then [OF current_index(1)], rule triple_if)
      (auto intro!: triple_ret triple_pre [OF kill] simp: trap_inv_def elim: S_inv)
  show ?thesis
    unfolding trap_unhandled_def
  proof (rule begin', goal_cases)
    case (1 h)
    show ?case
    proof (cases h)
      case None
      show ?thesis unfolding None option.case by (rule triple_then [OF agree_current last])
    qed (auto intro!: triple_pre [OF ends_frame_edit(1)])
  qed
qed

lemma ends_fault: "ends_well (\<lambda>s. S {d} M d F s \<and> no_isr s) (trap_fault d t ex addr)"
proof -
  have "keeps (\<lambda>s. S {d} M d F s \<and> no_isr s) (ensure_page_exists_inner addr)"
    by (rule keeps_view, intro keeps_intros) (use S_more more_handling_irq in blast)
  thus ?thesis
    unfolding trap_fault_def
    by (intro triple_bind_try [OF triple_keeps]) (auto intro!: ends_unhandled triple_pre [OF ends_resume(3)])
qed

text \<open>A trap that an interrupt handler may raise: a system call, an interrupt, or a return.\<close>

definition benign :: "trap \<Rightarrow> bool" where
  "benign t = (case from_regs (scause t) (trap_epc t) (stval t) of
     RE_CallFromSMode _ _ \<Rightarrow> True
   | RE_CallFromUMode _ _ \<Rightarrow> True
   | RE_UserExternalInterrupt _ \<Rightarrow> True
   | RE_SupervisorExternalInterrupt _ \<Rightarrow> True
   | RE_InstructionPageFault pc _ \<Rightarrow> pc = RETURN_FROM_EXCEPTION_HANDLER \<or> pc = EXIT_THREAD \<or> pc = RETURN_FROM_ISR
   | _ \<Rightarrow> False)"

lemma ends_dispatch:
  "ends_well (\<lambda>s. S {d} {} d room s \<and> (handling_irq s \<longrightarrow> benign t)) (trap_dispatch h d t)"
proof -
  have isr: "ends_well (S {d} {} d room) (thenM finish_isr resume_current)"
    by (rule triple_then [OF triple_pre [OF finish_isr_inv] ends_resume(1)]) (erule S_inv, simp)
  show ?thesis
    unfolding trap_dispatch_def Let_def
    by (cases "from_regs (scause t) (trap_epc t) (stval t)") (auto simp: benign_def intro!: triple_panic
        triple_pre [OF ends_syscall] triple_pre [OF ends_interrupt [where M = "{}" and F = room]]
        triple_pre [OF ends_fault [where M = "{}" and F = room]] triple_pre [OF ends_unhandled [where M = "{}" and F = room]]
        triple_pre [OF ends_exit_thread [where d = d and M = "{}" and F = room]]
        triple_pre [OF ends_exception_return [where M = "{}" and F = room]] triple_pre [OF isr])
qed

lemma trap_handler_inv:
  assumes "trap_inv s" "room (servers s)" "handling_irq s \<longrightarrow> benign t" "trap_handler h t s = (r, s')" "r \<noteq> Panic"
  shows "trap_inv s'"
proof -
  let ?d = "table_current s"
  have s: "S {?d} {} ?d room s" using assms(1,2) by (simp add: S_def trap_inv_def schedule_inv_def)
  have run: "trap_dispatch h ?d t s = (r, s')"
    using assms(4,5) agree_pid [of s] assms(1)
    by (cases "arch_current_pid s") (auto simp: trap_handler_def trap_pid_def trap_inv_def op_defs split: if_splits)
  show ?thesis using tripleD [OF ends_dispatch, of ?d s t h] s assms(3) run assms(5) by (cases r) auto
qed
end
