(* ===== verification/Boot.thy ===== *)
theory Boot
  imports Kernel_State
begin

text \<open>
  Boot and the idle loop: the kernel arguments of \<open>kernel/src/args.rs\<close>, the two
  \<open>init_from_memory\<close> functions of \<open>kernel/src/mem.rs\<close> and
  \<open>kernel/src/services.rs\<close>, \<open>init\<close>, and \<open>next_pid_to_run\<close> with the loop of
  \<open>kmain\<close> from \<open>kernel/src/main.rs\<close>.

  What the loader left in memory is an argument: the words from the argument
  pointer on, the array of initial processes, and the two ownership tables.
  The iterator over the arguments adds the size of each to a 32-bit offset.
  It is given fuel, and the lemma \<open>args_from_ends\<close> says how much is enough.
\<close>

section \<open>Kernel arguments\<close>

definition from_le_bytes :: "string \<Rightarrow> u32" where
  "from_le_bytes s = foldr (\<lambda>c w. of_char c + 256 * w) s 0"

record kernel_argument =
  ka_name :: u32
  ka_size :: usize
  ka_data :: "u32 list"

definition args_size :: "(nat \<Rightarrow> u32) \<Rightarrow> usize" where
  "args_size base = base 2 * 4"

text \<open>The size is the upper half of the second word.\<close>

definition argument_new :: "(nat \<Rightarrow> u32) \<Rightarrow> usize \<Rightarrow> kernel_argument" where
  "argument_new base offset =
     (let i = unat offset div 4; sz = drop_bit 16 (base (i + 1))
      in \<lparr>ka_name = base i, ka_size = sz * 4, ka_data = map (\<lambda>j. base (i + 2 + j)) [0 ..< unat sz]\<rparr>)"

definition args_next :: "(nat \<Rightarrow> u32) \<Rightarrow> usize \<Rightarrow> usize \<Rightarrow> (kernel_argument \<times> usize) option" where
  "args_next base sz offset =
     (if offset \<ge> sz then None
      else let new_arg = argument_new base offset in Some (new_arg, offset + (ka_size new_arg + 8)))"

primrec args_from :: "nat \<Rightarrow> (nat \<Rightarrow> u32) \<Rightarrow> usize \<Rightarrow> usize \<Rightarrow> kernel_argument list option" where
  "args_from 0 base sz offset = None"
| "args_from (Suc n) base sz offset = (case args_next base sz offset of
     None \<Rightarrow> Some []
   | Some (a, offset') \<Rightarrow> map_option ((#) a) (args_from n base sz offset'))"

definition args_iter :: "(nat \<Rightarrow> u32) \<Rightarrow> kernel_argument list option" where
  "args_iter base = args_from (unat (args_size base) div 8 + 2) base (args_size base) 0"

section \<open>The memory manager\<close>

text \<open>\<open>slice::from_raw_parts_mut(ptr, len * 4 / size_of::<MemoryRangeExtra>())\<close>, four words each.\<close>

fun extra_ranges :: "u32 list \<Rightarrow> region list" where
  "extra_ranges (a # b # c # d # ws) = \<lparr>mem_start = a, mem_size = b, mem_tag = c\<rparr> # extra_ranges ws"
| "extra_ranges _ = []"

definition read_extra_tag :: "kernel_argument \<Rightarrow> ('z mstate_scheme, unit) kop" where
  "read_extra_tag tag =
     (if ka_name tag = from_le_bytes ''MREx''
      then bindM (getM extra_regions) (\<lambda>r.
           thenM (assertM (r = []))
             (modM (\<lambda>s. s\<lparr>extra_regions := extra_ranges (ka_data tag)\<rparr>)))
      else retM ())"

text \<open>An index into the data of the first argument panics when it is too short.\<close>

definition arg_word :: "kernel_argument \<Rightarrow> nat \<Rightarrow> ('s, u32) kop" where
  "arg_word a i = (if i < length (ka_data a) then retM (ka_data a ! i) else panicM)"

definition mm_init_from_memory ::
  "(nat \<Rightarrow> u8) \<Rightarrow> (nat \<Rightarrow> u8) \<Rightarrow> kernel_argument list \<Rightarrow> ('z mstate_scheme, unit) kop" where
  "mm_init_from_memory rpt xpt args = (case args of
     [] \<Rightarrow> panicM
   | xarg_def # rest \<Rightarrow>
       bindM (getM extra_regions) (\<lambda>r.
       thenM (assertM (r = []))
      (thenM (assertM (ka_name xarg_def = from_le_bytes ''XArg''))
      (bindM (arg_word xarg_def 1) (\<lambda>version.
       thenM (assertM (version = 1))
      (bindM (arg_word xarg_def 2) (\<lambda>start.
       bindM (arg_word xarg_def 3) (\<lambda>sz.
       bindM (arg_word xarg_def 4) (\<lambda>name.
       thenM (modM (\<lambda>s. s\<lparr>ram_start := start, ram_size := sz\<rparr>))
      (thenM (for_each rest read_extra_tag)
         (modM (\<lambda>s. s\<lparr>mem_allocs := map (\<lambda>i. nz_new (rpt i)) [0 ..< unat (ram_size s) div 4096],
            extra_allocs := map (\<lambda>i. nz_new (xpt i))
              [0 ..< sum_list (map (\<lambda>r. unat (mem_size r) div 4096) (extra_regions s))]\<rparr>))))))))))))"

section \<open>The process table\<close>

record initial_process =
  ip_satp :: usize
  ip_entrypoint :: usize
  ip_sp :: usize
  ip_env :: usize

definition initial_pid :: "initial_process \<Rightarrow> PID" where
  "initial_pid i = ucast (drop_bit 22 (ip_satp i) AND 0x1ff)"

definition MINIELF_FLG_EHF :: u8 where "MINIELF_FLG_EHF = 8"
definition DEFAULT_STACK_SIZE :: usize where "DEFAULT_STACK_SIZE = 128 * 1024"

definition is_program :: "kernel_argument \<Rightarrow> bool" where
  "is_program a = (ka_name a = from_le_bytes ''IniE'' \<or> ka_name a = from_le_bytes ''IniF''
     \<or> ka_name a = from_le_bytes ''IniS'')"

text \<open>The address of the last section that has the exception frame flag.\<close>

fun find_eh_frame :: "u32 \<Rightarrow> u32 list \<Rightarrow> u32" where
  "find_eh_frame found (a # b # ws) =
     find_eh_frame (if (ucast (drop_bit 24 b) :: u8) AND MINIELF_FLG_EHF \<noteq> 0 then a else found) ws"
| "find_eh_frame found _ = found"

definition initial_thread :: "initial_process \<Rightarrow> kernel_argument option \<Rightarrow> thread_init kresult" where
  "initial_thread i arg =
     (case unwrap (memory_range_new (ip_sp i - DEFAULT_STACK_SIZE) DEFAULT_STACK_SIZE) of
        Ok stack \<Rightarrow> Ok \<lparr>ti_call = ip_entrypoint i, ti_stack = stack,
          ti_arg1 = (case arg of None \<Rightarrow> 0 | Some a \<Rightarrow> find_eh_frame 0 (ka_data a)),
          ti_arg2 = ip_env i, ti_arg3 = 0, ti_arg4 = 0\<rparr>
      | Err e \<Rightarrow> Err e | Panic \<Rightarrow> Panic)"

definition enter_initial :: "initial_process \<Rightarrow> ProcessState \<Rightarrow> kernel \<Rightarrow> kernel" where
  "enter_initial i st s = s\<lparr>processes := (processes s)[unat (initial_pid i - 1) :=
     (processes s ! unat (initial_pid i - 1))
       \<lparr>mapping := ip_satp i, ppid := 1, proc_pid := initial_pid i, state := st\<rparr>]\<rparr>"

fun load_processes :: "initial_process list \<Rightarrow> kernel_argument list \<Rightarrow> (kernel, unit) kop" where
  "load_processes [] args = retM ()"
| "load_processes (i # is) args =
     bindM (getM (\<lambda>s. length (processes s))) (\<lambda>n.
     thenM (assertM (unat (initial_pid i - 1) < n \<and> initial_pid i \<noteq> 0))
       (if initial_pid i = 1
        then thenM (modM (enter_initial i (PS_Running 0))) (load_processes is args)
        else bindM (liftO (initial_thread i (if args = [] then None else Some (hd args)))) (\<lambda>ti.
             thenM (modM (enter_initial i (PS_Setup ti))) (load_processes is (tl args)))))"

definition ss_init_from_memory :: "(nat \<Rightarrow> initial_process) \<Rightarrow> kernel_argument list \<Rightarrow> (kernel, unit) kop" where
  "ss_init_from_memory base args =
     (let init_offsets = map base [0 ..< 1 + length (filter is_program args)];
          arg_iter = dropWhile (\<lambda>a. \<not> is_program a) args
      in if arg_iter = [] then panicM
         else thenM (load_processes init_offsets arg_iter)
             (thenM (unwrapM (setup_process 1 thread_init_default)) (retM ())))"

text \<open>
  The static initialisers: an empty memory manager, 64 free processes, 128
  empty server slots and no interrupt handler.  The machine part (the active
  space and its page tables) is what the loader set up.
\<close>

definition process_free_slot :: process where
  "process_free_slot = \<lparr>mapping = 0, state = PS_Free, proc_pid = 1, ppid = 1,
     current_thread = INITIAL_TID, previous_thread = INITIAL_TID, exn_handler = None\<rparr>"

definition static_kernel :: "(usize \<Rightarrow> space) \<Rightarrow> usize \<Rightarrow> usize \<Rightarrow> (nat \<Rightarrow> u32) \<Rightarrow> kernel" where
  "static_kernel sps satp0 sim0 rand =
     \<lparr>ram_start = 0, ram_size = 0, last_ram_page = 0, mem_allocs = [], extra_regions = [], extra_allocs = [],
      spaces = sps, satp = satp0, table_current = 1, proc_table = replicate MAX_PROCESS_COUNT False,
      processes = replicate MAX_PROCESS_COUNT process_free_slot, servers = replicate MAX_SERVER_COUNT None,
      irq_handlers = replicate 32 None, sim = sim0, sim_backing = 0, irq_enabled = True, handling_irq = False,
      previous_pair = None, switchto_caller = None, original_pid = 2, original_tid = 2, rand_words = rand, rand_pos = 0\<rparr>"

text \<open>
  \<open>arch::init\<close> and \<open>platform::init\<close> on the precursor: two peripherals are mapped
  into the superpage that every process shares, and the random number
  generator gives up its first words.  Their addresses are those of the
  generated register map of the board.
\<close>

definition map_peripheral :: "usize \<Rightarrow> usize \<Rightarrow> (kernel, unit) kop" where
  "map_peripheral phys virt =
     thenM (unwrapM (map_range phys virt 4096 1 (MF_R OR MF_W) MT_Default)) (retM ())"

definition arch_init :: "usize \<Rightarrow> (kernel, unit) kop" where
  "arch_init wfi_base = map_peripheral wfi_base 0xffcd0000"

definition TRNG_KERNEL_ADDR :: usize where "TRNG_KERNEL_ADDR = 0xffce0000"

definition rand_init :: "usize \<Rightarrow> (kernel, unit) kop" where
  "rand_init trng_base =
     thenM (map_peripheral trng_base (TRNG_KERNEL_ADDR AND NOT 4095))
       (for_each [0 ..< 4 :: nat] (\<lambda>_. thenM get_u32 (retM ())))"

text \<open>\<open>init\<close> of \<open>main.rs\<close>.\<close>

definition kernel_init ::
  "usize \<Rightarrow> usize \<Rightarrow> (nat \<Rightarrow> u8) \<Rightarrow> (nat \<Rightarrow> u8) \<Rightarrow> (nat \<Rightarrow> initial_process) \<Rightarrow> kernel_argument list \<Rightarrow> (kernel, unit) kop" where
  "kernel_init wfi_base trng_base rpt xpt inits args =
     thenM (unwrapM (mm_init_from_memory rpt xpt args))
    (thenM (ss_init_from_memory inits args)
    (thenM (arch_init wfi_base)
    (thenM (rand_init trng_base)
    (thenM get_u32 (thenM get_u32 (retM ()))))))"

section \<open>The idle loop\<close>

text \<open>Slicing panics when the start is past the end of the table.\<close>

definition next_pid_to_run :: "PID option \<Rightarrow> process list \<Rightarrow> PID option kresult" where
  "next_pid_to_run last_pid ps =
     (let next_pid = (case last_pid of None \<Rightarrow> 1 | Some v \<Rightarrow> unat v)
      in if next_pid > length ps then Panic
         else Ok (map_option proc_pid (find process_runnable (drop next_pid ps @ take next_pid ps))))"

section \<open>Reading the arguments ends\<close>

lemma argument_size_bound: "unat (ka_size (argument_new base offset)) \<le> 262140"
proof -
  let ?sz = "drop_bit 16 (base (unat offset div 4 + 1)) :: u32"
  have "unat ?sz = unat (base (unat offset div 4 + 1)) div 65536"
    by (simp add: drop_bit_eq_div unat_div)
  hence "unat ?sz < 65536" using unsigned_less [of "base (unat offset div 4 + 1)", where 'a = nat] by simp
  thus ?thesis by (simp add: argument_new_def Let_def unat_word_ariths)
qed

lemma args_from_ends:
  assumes "unat sz \<le> 2 ^ 32 - 262148" "n > (unat sz - unat offset) div 8 + (if offset < sz then 1 else 0)"
  shows "\<exists>args. args_from n base sz offset = Some args"
  using assms(2)
proof (induction n arbitrary: offset)
  case (Suc n)
  show ?case
  proof (cases "offset < sz")
    case True
    let ?a = "argument_new base offset"
    let ?o = "offset + (ka_size ?a + 8)"
    have lt: "unat offset < unat sz" using True by (simp add: word_less_nat_alt)
    have o: "unat ?o = unat offset + (unat (ka_size ?a) + 8)"
      using argument_size_bound [of base offset] lt assms(1) by (simp add: unat_word_ariths)
    have "n > (unat sz - unat ?o) div 8 + (if ?o < sz then 1 else 0)"
      using Suc.prems True o lt by (auto simp: word_less_nat_alt)
    from Suc.IH [OF this] show ?thesis using True by (auto simp: args_next_def Let_def)
  qed (simp add: args_next_def not_less)
qed simp

section \<open>The idle loop is fair\<close>

text \<open>How many entries the scan visits before entry \<open>i\<close>, starting at \<open>k\<close>.\<close>

definition scan_distance :: "nat \<Rightarrow> nat \<Rightarrow> nat \<Rightarrow> nat" where
  "scan_distance n k i = (if k \<le> i then i - k else n - k + i)"

lemma scan_nth:
  assumes "k \<le> length ps" "j < length ps"
  shows "(drop k ps @ take k ps) ! j = ps ! (if j < length ps - k then k + j else j - (length ps - k))"
  using assms by (auto simp: nth_append)

lemma scan_position:
  assumes "k \<le> n" "i < n"
  shows "scan_distance n k i < n"
    "(if scan_distance n k i < n - k then k + scan_distance n k i else scan_distance n k i - (n - k)) = i"
  using assms by (auto simp: scan_distance_def)

lemma scan_finds:
  assumes ps: "k \<le> length ps" and i: "i < length ps" "P (ps ! i)"
  obtains j where "j < length ps" "find P (drop k ps @ take k ps) = Some (ps ! j)" "P (ps ! j)"
    "j = i \<or> scan_distance (length ps) (j + 1) i < scan_distance (length ps) k i"
proof -
  let ?xs = "drop k ps @ take k ps" and ?d = "scan_distance (length ps) k i" and ?n = "length ps"
  have d: "?d < ?n" "?xs ! ?d = ps ! i"
    using scan_position [OF ps i(1)] scan_nth [OF ps] by simp_all
  have len: "length ?xs = ?n" using ps by simp
  have "ps ! i \<in> set ?xs" using d len nth_mem [of ?d ?xs] by simp
  then obtain x where "find P ?xs = Some x" using i(2) by (cases "find P ?xs") (auto simp: find_None_iff)
  then obtain m where m: "m < ?n" "x = ?xs ! m" "P x" "\<And>l. l < m \<Longrightarrow> \<not> P (?xs ! l)" and f: "find P ?xs = Some x"
    using len by (auto simp: find_Some_iff)
  have "m \<le> ?d" using m(4) [of ?d] d i(2) by (cases "?d < m") auto
  define j where "j = (if m < ?n - k then k + m else m - (?n - k))"
  have j: "j < ?n" "x = ps ! j" using m(1,2) scan_nth [OF ps m(1)] ps by (auto simp: j_def)
  have "j = i \<or> scan_distance ?n (j + 1) i < ?d"
    using \<open>m \<le> ?d\<close> m(1) ps i(1) unfolding j_def scan_distance_def by (auto split: if_splits)
  thus ?thesis using that j f m(3) by blast
qed

text \<open>A run of the loop of \<open>kmain\<close>: the tables it sees, and the process it picks each time.\<close>

definition kmain_run :: "(nat \<Rightarrow> process list) \<Rightarrow> (nat \<Rightarrow> PID option) \<Rightarrow> bool" where
  "kmain_run tables pids = (\<forall>m. next_pid_to_run (pids m) (tables m) = Ok (pids (Suc m)))"

text \<open>A process that can run has its place in the table as its id.\<close>

definition pids_in_order :: "process list \<Rightarrow> bool" where
  "pids_in_order ps = (length ps \<le> 255 \<and>
     list_all (\<lambda>i. process_runnable (ps ! i) \<longrightarrow> proc_pid (ps ! i) = of_nat (i + 1)) [0 ..< length ps])"

lemma kmain_step:
  assumes run: "kmain_run tables pids" and ord: "pids_in_order (tables m)"
    and i: "i < length (tables m)" "process_runnable (tables m ! i)"
    and k: "(case pids m of None \<Rightarrow> 1 | Some v \<Rightarrow> unat v) = k"
  obtains "pids (Suc m) = Some (of_nat (i + 1))"
  | j where "pids (Suc m) = Some (of_nat (j + 1))" "unat (of_nat (j + 1) :: PID) = j + 1" "j < length (tables m)"
      "scan_distance (length (tables m)) (j + 1) i < scan_distance (length (tables m)) k i"
proof -
  have n: "next_pid_to_run (pids m) (tables m) = Ok (pids (Suc m))" using run by (simp add: kmain_run_def)
  hence le: "k \<le> length (tables m)" using k by (auto simp: next_pid_to_run_def Let_def split: if_splits)
  from scan_finds [of k "tables m" i process_runnable, OF le i] obtain j where j: "j < length (tables m)"
    "find process_runnable (drop k (tables m) @ take k (tables m)) = Some (tables m ! j)" "process_runnable (tables m ! j)"
    "j = i \<or> scan_distance (length (tables m)) (j + 1) i < scan_distance (length (tables m)) k i" by blast
  have p: "proc_pid (tables m ! j) = of_nat (j + 1)" using ord j(1,3) by (simp add: pids_in_order_def list_all_iff)
  have "pids (Suc m) = Some (of_nat (j + 1))"
    using n k le j(2) p by (auto simp: next_pid_to_run_def Let_def split: if_splits)
  moreover have "unat (of_nat (j + 1) :: PID) = j + 1"
    using j(1) ord by (subst unat_of_nat) (simp add: pids_in_order_def)
  ultimately show ?thesis using that j(1,4) by blast
qed

lemma kmain_reaches:
  assumes run: "kmain_run tables pids" and i: "i < n"
    and tabs: "\<And>l. l \<le> d \<Longrightarrow> pids_in_order (tables (m + l)) \<and> length (tables (m + l)) = n \<and> process_runnable (tables (m + l) ! i)"
    and d: "scan_distance n (case pids m of None \<Rightarrow> 1 | Some v \<Rightarrow> unat v) i \<le> d"
  shows "\<exists>l \<le> d. pids (Suc (m + l)) = Some (of_nat (i + 1))"
  using tabs d
proof (induction d arbitrary: m)
  case 0
  show ?case by (rule kmain_step [OF run, of m i]) (use 0 i in auto)
next
  case (Suc d)
  show ?case
  proof (rule kmain_step [OF run, of m i, OF _ _ _ refl], goal_cases)
    case (5 j)
    have "scan_distance n (case pids (Suc m) of None \<Rightarrow> 1 | Some v \<Rightarrow> unat v) i \<le> d"
      using 5 Suc.prems(1) [of 0] Suc.prems(2) by simp
    then obtain l where "l \<le> d" "pids (Suc (Suc m + l)) = Some (of_nat (i + 1))"
      using Suc.IH [of "Suc m"] Suc.prems(1) [of "Suc l" for l] by auto
    thus ?case by (intro exI [of _ "Suc l"]) simp
  qed (use Suc.prems(1) [of 0] i in auto)
qed

text \<open>
  C2: the idle loop is fair.  A process that stays able to run is handed the
  processor after at most as many rounds as there are entries in the process
  table, whatever the other processes do in the meantime.
\<close>

theorem next_pid_to_run_fair:
  assumes "kmain_run tables pids" "i < n"
    and "\<And>l. l < n \<Longrightarrow> pids_in_order (tables (m + l)) \<and> length (tables (m + l)) = n \<and> process_runnable (tables (m + l) ! i)"
  shows "\<exists>l < n. pids (Suc (m + l)) = Some (of_nat (i + 1))"
proof -
  let ?k = "case pids m of None \<Rightarrow> 1 | Some v \<Rightarrow> unat v"
  have "next_pid_to_run (pids m) (tables m) = Ok (pids (Suc m))" using assms(1) by (simp add: kmain_run_def)
  hence "?k \<le> n" using assms(3) [of 0] assms(2) by (auto simp: next_pid_to_run_def Let_def split: if_splits)
  hence "scan_distance n ?k i \<le> n - 1" using scan_position(1) [of ?k n i] assms(2) by linarith
  from kmain_reaches [OF assms(1,2) _ this] assms(3) obtain l where "l \<le> n - 1" "pids (Suc (m + l)) = Some (of_nat (i + 1))"
    by (metis Suc_pred' assms(2) gr_implies_not0 less_Suc_eq_le neq0_conv)
  thus ?thesis using assms(2) by (intro exI [of _ l]) simp
qed

definition demo_ready :: "PID \<Rightarrow> process" where
  "demo_ready p = process_free_slot\<lparr>proc_pid := p, state := PS_Ready 4\<rparr>"

definition demo_table :: "process list" where
  "demo_table = [process_free_slot\<lparr>state := PS_Running 0\<rparr>, demo_ready 2, process_free_slot, demo_ready 4]"

text \<open>Two processes can run; the loop alternates between them.\<close>

theorem next_pid_to_run_fair_witness:
  "\<exists>l < 4. (\<lambda>m. if m = 0 then None else if odd m then Some 2 else Some 4) (Suc (0 + l)) = Some (4 :: PID)"
proof -
  let ?pids = "\<lambda>m. if m = 0 then None else if odd m then Some 2 else Some (4 :: PID)"
  have "kmain_run (\<lambda>_. demo_table) ?pids"
    by (auto simp: kmain_run_def next_pid_to_run_def demo_table_def demo_ready_def process_runnable_def process_free_slot_def)
  moreover have "pids_in_order demo_table \<and> length demo_table = 4 \<and> process_runnable (demo_table ! 3)"
    by (simp add: pids_in_order_def demo_table_def demo_ready_def process_runnable_def process_free_slot_def upt_rec)
  ultimately show ?thesis
    using next_pid_to_run_fair [of "\<lambda>_. demo_table" ?pids 3 4 0] by (simp del: One_nat_def)
qed
end
