(* ===== verification/Reachable.thy ===== *)
theory Reachable
  imports Boot Kernel_Inv
begin

text \<open>
  The kernel from boot on: \<open>kernel_init\<close> establishes the scheduling invariant,
  every trap keeps it, and so it holds in every reachable state.
\<close>

section \<open>Boot\<close>

lemma keeps_arg_word [keeps_intros]: "keeps P (arg_word a i)"
  by (simp add: arg_word_def)

lemma keeps_mm_init [keeps_intros]:
  "keeps (kview m c) (mm_init_from_memory rpt xpt args)" "keeps (in_space sp) (mm_init_from_memory rpt xpt args)"
proof -
  have "keeps (kview m c) (read_extra_tag tag)" "keeps (in_space sp) (read_extra_tag tag)" for tag
    unfolding read_extra_tag_def by (intro keeps_intros; simp add: kview_def in_space_def)+
  thus "keeps (kview m c) (mm_init_from_memory rpt xpt args)" "keeps (in_space sp) (mm_init_from_memory rpt xpt args)"
    unfolding mm_init_from_memory_def
    by (cases args; simp; intro keeps_intros; simp add: kview_def in_space_def)+
qed

lemma initial_mapping: "initial_pid i \<noteq> 0 \<Longrightarrow> mapping_get_pid (ip_satp i) = Some (initial_pid i)"
  by (simp add: mapping_get_pid_def initial_pid_def)

lemma S_install_kernel:
  assumes "S {1} {} 1 F s" "0 < length (processes s)" "mapping_get_pid (mapping p) = Some 1"
  shows "S {1} {} 1 F (s\<lparr>processes := (processes s)[0 := p\<lparr>state := PS_Running 0\<rparr>]\<rparr>)"
  using assms unfolding S_def sched_def
  by (auto simp: nth_list_update_at maps_def pid_idx_def split: if_splits)

lemma S_load_processes: "triple (S {1} {} 1 F) (load_processes is args) (\<lambda>_. S {1} {} 1 F) R"
proof (induction "is" args rule: load_processes.induct)
  case (2 i "is" args)
  have kernel: "S {1} {} 1 F (enter_initial i (PS_Running 0) s)"
    if "S {1} {} 1 F s" "initial_pid i = 1" "0 < length (processes s)" for s
    using S_install_kernel [OF that(1,3), of "(processes s ! 0)\<lparr>mapping := ip_satp i, ppid := 1, proc_pid := 1\<rparr>"]
      initial_mapping [of i] that(2) by (simp add: enter_initial_def)
  have other: "S {1} {} 1 F (enter_initial i (PS_Setup ti) s)"
    if s: "S {1} {} 1 F s" and i: "initial_pid i \<noteq> 1" "initial_pid i \<noteq> 0"
      and idx: "unat (initial_pid i - 1) < length (processes s)" for s ti
  proof -
    have "unat (initial_pid i - 1) \<noteq> 0" using i(1) by (simp add: unat_eq_0)
    hence "\<not> is_running (state (processes s ! unat (initial_pid i - 1)))"
      using s idx unfolding S_def sched_def by (auto simp: pid_idx_def)
    thus ?thesis unfolding enter_initial_def by (intro S_replace [OF s]) simp_all
  qed
  let ?idx = "unat (initial_pid i - 1)"
  show ?case
  proof (unfold load_processes.simps, rule triple_bind_get, rule triple_assert, rule triple_if, goal_cases)
    case (1 n)
    show ?case by (rule triple_then_mod [where P' = "S {1} {} 1 F"]) (use 1 kernel 2 in auto)
  next
    case (2 n)
    show ?case
      by (rule triple_bind_liftO, rule triple_then_mod [where P' = "S {1} {} 1 F"])
        (use 2 other "2.IH"(2) in \<open>auto simp: initial_thread_def unwrap_no_Err split: outcome.splits\<close>)
  qed
qed (auto intro!: triple_ret)

lemma keeps_space_load: "keeps (in_space sp) (load_processes is args)"
  by (induction "is" args rule: load_processes.induct)
    (auto intro!: keeps_intros simp: enter_initial_def in_space_def)

lemma keeps_space_rand [keeps_intros]: "keeps (in_space sp) get_u32"
  by (rule keepsI) (auto simp: get_u32_def in_space_def)

lemma keeps_space_init: "keeps (in_space sp) (kernel_init wfi trng rpt xpt inits args)"
  unfolding kernel_init_def ss_init_from_memory_def arch_init_def rand_init_def map_peripheral_def Let_def
  by (intro keeps_intros keeps_space_load)

lemma S_get_u32: "triple (S C M d F) (thenM get_u32 k) Q R" if "triple (S C M d F) k Q R"
proof -
  have "triple (S C M d F) get_u32 (\<lambda>_. S C M d F) R" by (rule tripleI) (simp add: get_u32_def)
  thus ?thesis by (rule triple_then) (rule that)
qed

lemma S_kernel_init: "triple (S {1} {} 1 F) (kernel_init wfi trng rpt xpt inits args) (\<lambda>_. S {1} {} 1 F) (\<lambda>_ _. False)"
proof -
  have map_p: "triple (S {1} {} 1 F) (thenM (map_peripheral a b) k) Q (\<lambda>_ _. False)"
    if "triple (S {1} {} 1 F) k Q (\<lambda>_ _. False)" for a b k Q
    unfolding map_peripheral_def by (intro S_then_safe keeps_intros no_err_intros that)
  have loop: "triple (S {1} {} 1 F) (for_each xs (\<lambda>_ :: nat. thenM get_u32 (retM ()))) (\<lambda>_. S {1} {} 1 F) (\<lambda>_ _. False)" for xs
    by (intro triple_for_each S_get_u32 triple_ret)
  have rest: "triple (S {1} {} 1 F) (thenM (arch_init wfi) (thenM (rand_init trng)
      (thenM get_u32 (thenM get_u32 (retM ()))))) (\<lambda>_. S {1} {} 1 F) (\<lambda>_ _. False)"
    unfolding arch_init_def rand_init_def
    by (intro map_p triple_then [where Q = "S {1} {} 1 F"] S_get_u32 triple_ret loop)
  show ?thesis
    unfolding kernel_init_def ss_init_from_memory_def Let_def
    apply (rule triple_then [OF triple_unwrap [OF S_frame]], intro keeps_intros, rule TrueI)
    apply (rule triple_then [OF _ rest], rule triple_if, rule triple_panic)
    apply (rule triple_then [OF S_load_processes])
    apply (intro S_then_safe keeps_intros no_err_intros triple_ret, assumption)
    done
qed

lemma static_kernel_S: "S {1} {} 1 (\<lambda>_. True) (static_kernel sps sp m r)"
  by (simp add: S_def sched_def static_kernel_def process_free_slot_def)

lemma boot_trap_inv:
  assumes "drop_bit 22 sp AND 0x1ff = (1 :: usize)"
    "kernel_init wfi trng rpt xpt inits args (static_kernel sps sp m r) = (x, s)" "x \<noteq> Panic"
  shows "trap_inv s \<and> x = Ok ()"
proof -
  have "in_space sp (static_kernel sps sp m r)" by (simp add: in_space_def static_kernel_def)
  hence sp: "satp s = sp" using keepsD [OF keeps_space_init _ assms(2,3)] by (simp add: in_space_def)
  have "S {1} {} 1 (\<lambda>_. True) s" "x = Ok ()"
    using tripleD [OF S_kernel_init static_kernel_S] assms(2,3) by (cases x; auto)+
  thus ?thesis using sp assms(1) by (auto simp: trap_inv_def agree_def S_def schedule_inv_def)
qed

section \<open>Reachable states\<close>

text \<open>
  The kernel runs when a trap comes in.  Between traps the running thread
  changes its own registers, which the next trap saves in its frame.
\<close>

inductive reaches :: "bool \<Rightarrow> kernel \<Rightarrow> kernel \<Rightarrow> bool" for halt s0 where
  start: "reaches halt s0 s0"
| user: "reaches halt s0 s \<Longrightarrow> reaches halt s0 (upd_thread i (\<lambda>t. t\<lparr>registers := regs, sepc := pc\<rparr>) s)"
| trap: "\<lbrakk>reaches halt s0 s; room (servers s); handling_irq s \<longrightarrow> benign t; trap_handler halt t s = (Ok x, s')\<rbrakk>
    \<Longrightarrow> reaches halt s0 s'"

lemma reaches_trap_inv: "\<lbrakk>reaches halt s0 s; trap_inv s0\<rbrakk> \<Longrightarrow> trap_inv s"
proof (induction rule: reaches.induct)
  case (trap s t x s')
  thus ?case using trap_handler_inv [of s t halt "Ok x" s'] by simp
qed simp_all

lemma trap_inv_running:
  assumes "trap_inv s" "i < length (processes s)"
  shows "is_running (state (processes s ! i)) \<Longrightarrow> i = pid_idx (table_current s) \<and>
      mapping_get_pid (mapping (processes s ! i)) = arch_current_pid s"
    "state (processes s ! i) \<noteq> PS_Ready 0"
proof -
  have inv: "sched {table_current s} s" and ag: "agree s" using assms(1) by (auto simp: trap_inv_def schedule_inv_def)
  show "state (processes s ! i) \<noteq> PS_Ready 0" using inv assms(2) by (force simp: sched_def)
  assume "is_running (state (processes s ! i))"
  hence i: "i = pid_idx (table_current s)" "mapping_get_pid (mapping (processes s ! i)) = Some (table_current s)"
    using inv assms(2) by (auto simp: sched_def maps_def)
  hence "table_current s \<noteq> 0" by (auto simp: mapping_get_pid_def nz_new_def split: if_splits)
  have "arch_current_pid s = nz_new (ucast (ucast (table_current s) :: usize) :: u8)"
    using ag unfolding agree_def arch_current_pid_def mapping_get_pid_def by metis
  moreover have "ucast (ucast (table_current s) :: usize) = table_current s" by simp
  ultimately show "i = pid_idx (table_current s) \<and> mapping_get_pid (mapping (processes s ! i)) = arch_current_pid s"
    using i \<open>table_current s \<noteq> 0\<close> by simp
qed

section \<open>A booted kernel\<close>

lemma map_peripheral_ok:
  fixes s :: kernel
  assumes "extra_slot (extra_regions s) 0 phys = Some k" "\<not> is_main_memory phys s"
    "k < length (extra_allocs s)" "extra_allocs s ! k = None"
    "phys AND 0xfff = 0" "phys \<noteq> 0" "virt \<noteq> 0" "unat phys + 4096 < 2 ^ 32" "virt AND 0xfff = 0"
    "l1_valid (vpn1 virt) s" "\<not> has_flag (pte (vpn1 virt) (vpn0 virt) s) 1"
  shows "\<exists>e. map_peripheral phys virt s = (Ok (), set_pte (vpn1 virt) (vpn0 virt) e (s\<lparr>extra_allocs := (extra_allocs s)[k := Some 1]\<rparr>))"
proof -
  let ?s = "s\<lparr>extra_allocs := (extra_allocs s)[k := Some 1]\<rparr>"
  have steps: "step_by_page phys (phys + 0x1000) = [phys]" "step_by_page 0 0x1000 = [0]"
    using assms(8) by (simp_all add: step_by_page_def unat_word_ariths PAGE_SIZE_def)
  have claim: "claim_page phys 1 s = (Ok (), ?s)"
    using assms(1-5) by (simp add: claim_page_def claim_release_move_def page_slot_def action_inner_def)
  have "pte (vpn1 virt) (vpn0 virt) ?s = pte (vpn1 virt) (vpn0 virt) s" "l1_valid (vpn1 virt) ?s"
    using assms(10) by (simp_all add: pte_def l1_valid_def)
  hence "\<exists>e. map_page_inner 1 phys virt (MF_R OR MF_W) False ?s = (Ok (), set_pte (vpn1 virt) (vpn0 virt) e ?s)"
    using assms(9,11) by (auto simp: map_page_inner_def numeral_3_eq_3 Let_def simp del: has_flag_bit)
  then obtain e where e: "map_page_inner 1 phys virt (MF_R OR MF_W) False ?s = (Ok (), set_pte (vpn1 virt) (vpn0 virt) e ?s)" ..
  show ?thesis
    using assms(6,7) claim e
    by (intro exI [of _ e]) (simp add: map_peripheral_def map_range_def find_virtual_address_def steps op_defs MF_R_def MF_W_def MF_DEV_def MF_VIRT_def memory_range_new_def)
qed

lemma tag_values:
  "from_le_bytes ''XArg'' = 0x67724158" "from_le_bytes ''MREx'' = 0x7845524d" "from_le_bytes ''IniE'' = 0x45696e49"
  "from_le_bytes ''IniF'' = 0x46696e49" "from_le_bytes ''IniS'' = 0x53696e49"
  by (simp_all add: from_le_bytes_def)

definition demo_space :: space where
  "demo_space = \<lparr>l1 = (\<lambda>i. if i = 1023 then 0x10000001 else 0), l0 = (\<lambda>_ _. 0), hardware_thread = 0, inner = process_inner_default,
     last_tid_allocated = 0, threads = replicate 31 thread_default\<rparr>"

definition demo_args :: "kernel_argument list" where
  "demo_args = [\<lparr>ka_name = from_le_bytes ''XArg'', ka_size = 20, ka_data = [0, 1, 0x40000000, 0x4000, 0]\<rparr>,
     \<lparr>ka_name = from_le_bytes ''MREx'', ka_size = 16, ka_data = [0xf0000000, 0x40000, 0, 0]\<rparr>,
     \<lparr>ka_name = from_le_bytes ''IniE'', ka_size = 16, ka_data = [0x1000, 0x10000, 0x20000, 0x08001000]\<rparr>]"

definition demo_inits :: "nat \<Rightarrow> initial_process" where
  "demo_inits i = (if i = 0 then \<lparr>ip_satp = 0x80440000, ip_entrypoint = 0, ip_sp = 0, ip_env = 0\<rparr>
     else \<lparr>ip_satp = 0x80840001, ip_entrypoint = 0x10000, ip_sp = 0x80000000, ip_env = 0x7ff00000\<rparr>)"

definition demo_static :: kernel where
  "demo_static = static_kernel (\<lambda>_. demo_space) 0x80440000 0 (\<lambda>_. 7)"


definition demo_region :: region where
  "demo_region = \<lparr>mem_start = 0xf0000000, mem_size = 0x40000, mem_tag = 0\<rparr>"

definition demo_memory :: kernel where
  "demo_memory = demo_static\<lparr>ram_start := 0x40000000, ram_size := 0x4000, mem_allocs := replicate 4 None,
     extra_regions := [demo_region], extra_allocs := replicate 64 None\<rparr>"

lemma demo_mm_init: "mm_init_from_memory (\<lambda>_. 0) (\<lambda>_. 0) demo_args demo_static = (Ok (), demo_memory)"
  by (simp add: mm_init_from_memory_def demo_args_def op_defs tag_values arg_word_def read_extra_tag_def map_replicate_const
      demo_static_def static_kernel_def demo_memory_def demo_region_def)

definition demo_kernel_process :: process where
  "demo_kernel_process = process_free_slot\<lparr>mapping := 0x80440000, state := PS_Running 0\<rparr>"

definition demo_setup_process :: process where
  "demo_setup_process = process_free_slot\<lparr>mapping := 0x80840001, proc_pid := 2,
     state := PS_Setup \<lparr>ti_call = 0x10000, ti_stack = \<lparr>mr_addr = 0x7ffe0000, mr_size = 0x20000\<rparr>,
       ti_arg1 = 0x20000, ti_arg2 = 0x7ff00000, ti_arg3 = 0, ti_arg4 = 0\<rparr>\<rparr>"

definition demo_loaded :: kernel where
  "demo_loaded = demo_memory\<lparr>processes := (replicate 64 process_free_slot)[0 := demo_kernel_process, 1 := demo_setup_process]\<rparr>"

lemma demo_load:
  "load_processes (map demo_inits [0 ..< 2]) (drop 2 demo_args) demo_memory = (Ok (), demo_loaded)"
  by (simp add: upt_rec demo_inits_def demo_args_def op_defs initial_pid_def initial_thread_def memory_range_new_def
      DEFAULT_STACK_SIZE_def enter_initial_def MINIELF_FLG_EHF_def demo_memory_def demo_static_def static_kernel_def
      MAX_PROCESS_COUNT_def demo_loaded_def demo_kernel_process_def demo_setup_process_def process_free_slot_def)

definition demo_first_space :: space where
  "demo_first_space = demo_space\<lparr>hardware_thread := 3, threads := (replicate 31 thread_default)[2 :=
     \<lparr>registers = (replicate 31 0)[1 := 8], sepc = 1\<rparr>], inner := process_inner_default\<rparr>"

definition demo_ready_kernel :: kernel where
  "demo_ready_kernel = demo_loaded\<lparr>proc_table := (replicate 64 False)[0 := True],
     spaces := (\<lambda>_. demo_space)(0x80440000 := demo_first_space)\<rparr>"

lemma demo_setup: "setup_process 1 thread_init_default demo_loaded = (Ok (), demo_ready_kernel)"
proof -
  have regs: "write_regs 9 [0, 0, 0, 0] ((replicate 31 0)[1 := 8]) = (replicate 31 (0 :: usize))[1 := 8]"
    by (simp add: write_regs_def eval_nat_numeral)
  have "process_inner_default\<lparr>inner_pid := 1\<rparr> = process_inner_default" by (simp add: process_inner_default_def)
  thus ?thesis using regs
    by (simp add: setup_process_def thread_init_default_def op_defs arch_current_pid_def mapping_get_pid_def tid_defs
        demo_loaded_def demo_memory_def demo_static_def static_kernel_def MAX_PROCESS_COUNT_def demo_ready_kernel_def
        upd_space_def demo_space_def demo_first_space_def thread_default_def Let_def)
qed

definition demo_boot :: "(kernel, unit) kop" where
  "demo_boot = kernel_init 0xf0025000 0xf001c000 (\<lambda>_. 0) (\<lambda>_. 0) demo_inits demo_args"

definition booted :: "kernel \<Rightarrow> bool" where
  "booted s = (satp s = 0x80440000 \<and> hardware_thread (spaces s 0x80440000) = 3 \<and>
     length (threads (spaces s 0x80440000)) = 31 \<and> servers s = replicate 128 None \<and> \<not> handling_irq s \<and> table_current s = 1 \<and>
     processes s = (replicate 64 process_free_slot)[0 := demo_kernel_process, 1 := demo_setup_process])"

lemma demo_boots: "\<exists>s. demo_boot demo_static = (Ok (), s) \<and> booted s"
proof -
  have f: "satp demo_ready_kernel = 0x80440000" "extra_allocs demo_ready_kernel = replicate 64 None"
    "extra_regions demo_ready_kernel = [demo_region]" "ram_start demo_ready_kernel = 0x40000000"
    "ram_size demo_ready_kernel = 0x4000" "spaces demo_ready_kernel 0x80440000 = demo_first_space" "rand_pos demo_ready_kernel = 0"
    by (simp_all add: demo_ready_kernel_def demo_loaded_def demo_memory_def demo_static_def static_kernel_def)
  obtain e1 where 1: "map_peripheral 0xf0025000 0xffcd0000 demo_ready_kernel = (Ok (),
      set_pte 1023 208 e1 (demo_ready_kernel\<lparr>extra_allocs := (replicate 64 None)[0x25 := Some 1]\<rparr>))" (is "_ = (_, ?s1)")
    using map_peripheral_ok [of demo_ready_kernel "0xf0025000" 37 "0xffcd0000"]
    by (auto simp: f demo_region_def is_main_memory_def vpn1_def vpn0_def pte_def l1_valid_def demo_first_space_def demo_space_def FLG_VALID_def)
  have "\<exists>e2. map_peripheral 0xf001c000 0xffce0000 ?s1 = (Ok (), set_pte 1023 224 e2 (?s1\<lparr>extra_allocs := (replicate 64 None)[0x25 := Some 1, 0x1c := Some 1]\<rparr>))"
    using map_peripheral_ok [of ?s1 "0xf001c000" 28 "0xffce0000"]
    by (auto simp: f demo_region_def is_main_memory_def vpn1_def vpn0_def pte_def l1_valid_def set_pte_def upd_space_def demo_first_space_def demo_space_def FLG_VALID_def)
  then obtain e2 where 2: "map_peripheral 0xf001c000 0xffce0000 ?s1 = (Ok (), set_pte 1023 224 e2 (?s1\<lparr>extra_allocs := (replicate 64 None)[0x25 := Some 1, 0x1c := Some 1]\<rparr>))" ..
  have progs: "filter is_program demo_args = drop 2 demo_args" "dropWhile (\<lambda>a. \<not> is_program a) demo_args = drop 2 demo_args" "drop 2 demo_args \<noteq> []"
    "1 + length (drop 2 demo_args) = 2"
    by (simp_all add: demo_args_def is_program_def tag_values)
  have ss: "ss_init_from_memory demo_inits demo_args demo_memory = (Ok (), demo_ready_kernel)"
    unfolding ss_init_from_memory_def progs(1,2,4) Let_def using progs(3) demo_load demo_setup
    by (simp add: op_defs del: upt_Suc)
  have "booted ((set_pte 1023 224 e2 (?s1\<lparr>extra_allocs := (replicate 64 None)[0x25 := Some 1, 0x1c := Some 1]\<rparr>))\<lparr>rand_pos := n\<rparr>)" for n
    by (simp add: booted_def f set_pte_def upd_space_def demo_ready_kernel_def demo_loaded_def demo_memory_def demo_static_def
        static_kernel_def MAX_SERVER_COUNT_def demo_first_space_def)
  thus ?thesis
    by (simp add: demo_boot_def kernel_init_def op_defs demo_mm_init ss arch_init_def 1 rand_init_def TRNG_KERNEL_ADDR_def 2
        upt_rec get_u32_def)
qed

text \<open>
  C1: from boot on, at most one process is in the state \<open>Running\<close>: the one the
  kernel has as the current process, and \<open>satp\<close> has its address space.  A
  process that is \<open>Ready\<close> always has a thread to run.  This holds in every state
  the kernel reaches by traps of any kind (system calls with any arguments,
  interrupts, page faults and other exceptions) as long as no server queue is
  full when a trap comes in and an interrupt handler does not itself fault.
\<close>

theorem one_process_running:
  assumes "drop_bit 22 sp AND 0x1ff = (1 :: usize)"
    and "kernel_init wfi trng rpt xpt inits args (static_kernel sps sp m r) = (Ok (), s0)"
    and "reaches halt s0 s" and "i < length (processes s)"
  shows "(is_running (state (processes s ! i)) \<longrightarrow> i = pid_idx (table_current s) \<and>
      mapping_get_pid (mapping (processes s ! i)) = arch_current_pid s)
    \<and> state (processes s ! i) \<noteq> PS_Ready 0"
proof -
  have "trap_inv s" using boot_trap_inv [OF assms(1,2)] reaches_trap_inv [OF assms(3)] by simp
  thus ?thesis using trap_inv_running [OF _ assms(4)] by blast
qed

text \<open>The kernel boots and handles a trap that returns to the same thread.\<close>

definition demo_trap :: trap where
  "demo_trap = \<lparr>scause = 0xc, trap_epc = RETURN_FROM_ISR, stval = 0, spp_supervisor = False, sip = 0, trap_args = replicate 8 0\<rparr>"

lemma demo_trap_runs:
  assumes "booted s"
  shows "\<exists>x. trap_handler True demo_trap s = (Ok x, s\<lparr>handling_irq := False\<rparr>)"
  using assms unfolding booted_def
  by (elim conjE) (simp add: Let_def trap_handler_def demo_trap_def trap_pid_def arch_current_pid_def mapping_get_pid_def op_defs
      trap_dispatch_def from_regs_def RETURN_FROM_ISR_def EXIT_THREAD_def RETURN_FROM_EXCEPTION_HANDLER_def finish_isr_def
      resume_current_def process_current_def current_thread_index_def)

theorem one_process_running_witness:
  "\<exists>s0 s. demo_boot demo_static = (Ok (), s0) \<and> reaches True s0 s \<and> is_running (state (processes s ! 0)) \<and>
     mapping_get_pid (mapping (processes s ! 0)) = arch_current_pid s"
proof -
  obtain s0 where s0: "demo_boot demo_static = (Ok (), s0)" "booted s0" using demo_boots by blast
  let ?s = "s0\<lparr>handling_irq := False\<rparr>"
  obtain x where "trap_handler True demo_trap s0 = (Ok x, ?s)" using demo_trap_runs [OF s0(2)] by blast
  hence r: "reaches True s0 ?s"
    using s0(2) by (intro reaches.trap [OF reaches.start]) (auto simp: room_def booted_def)
  have p: "is_running (state (processes ?s ! 0))" "0 < length (processes ?s)"
    using s0(2) by (simp_all add: booted_def demo_kernel_process_def)
  have "mapping_get_pid (mapping (processes ?s ! 0)) = arch_current_pid ?s"
    using one_process_running [of "0x80440000" _ _ _ _ _ _ _ 0 _ s0 True ?s 0] s0(1) r p
    unfolding demo_boot_def demo_static_def by simp
  thus ?thesis using s0(1) r p by blast
qed
end
