(* ===== verification/Connections.thy ===== *)
theory Connections
  imports Server_Table Boot
begin

text \<open>
  The connection table of a process as a partial map from connection ids to
  servers.  The locale \<open>connections\<close> states what \<open>connect\<close>, \<open>disconnect\<close> and the
  lookup promise; the operations of \<open>Server_Table\<close> are its interpretation.
\<close>

section \<open>The scan\<close>

lemma find_upt_Suc: "find P [0 ..< Suc n] = (if P 0 then Some 0 else map_option Suc (find (\<lambda>i. P (Suc i)) [0 ..< n]))"
proof -
  have "find P (map Suc xs) = map_option Suc (find (\<lambda>i. P (Suc i)) xs)" for xs by (induction xs) auto
  thus ?thesis by (simp add: upt_conv_Cons map_Suc_upt [symmetric] del: upt_Suc)
qed

definition entry_ok :: "server option list \<Rightarrow> u8 option \<Rightarrow> bool" where
  "entry_ok srvs v = (case v of None \<Rightarrow> True | Some v \<Rightarrow> v < 2 \<or> unat (v - 2) < length srvs)"

fun entry_server :: "u8 option \<Rightarrow> nat option" where
  "entry_server None = None"
| "entry_server (Some v) = (if v < 2 then None else Some (unat (v - 2)))"

definition serves_sid :: "SID \<Rightarrow> server option list \<Rightarrow> nat \<Rightarrow> bool" where
  "serves_sid sid srvs i = (case srvs ! i of None \<Rightarrow> False | Some sv \<Rightarrow> srv_sid sv = sid)"

definition entry_match :: "SID \<Rightarrow> server option list \<Rightarrow> u8 option \<Rightarrow> bool" where
  "entry_match sid srvs v = (case entry_server v of None \<Rightarrow> False | Some i \<Rightarrow> serves_sid sid srvs i)"

lemma scan_connections_eq:
  assumes "list_all (entry_ok srvs) cs"
  shows "scan_connections sid srvs i slot cs =
    (case find (\<lambda>k. entry_match sid srvs (cs ! k)) [0 ..< length cs] of
       Some k \<Rightarrow> Ok (Inl (of_nat (i + k) + 2))
     | None \<Rightarrow> Ok (Inr (case slot of Some x \<Rightarrow> Some x
         | None \<Rightarrow> map_option (\<lambda>k. i + k) (find (\<lambda>k. cs ! k = None) [0 ..< length cs]))))"
  using assms
proof (induction cs arbitrary: i slot)
  case (Cons c cs)
  have add_Suc: "(+) (Suc i) = (\<lambda>k. Suc (i + k))" by auto
  have IH: "scan_connections sid srvs (i + 1) slot' cs =
    (case find (\<lambda>k. entry_match sid srvs (cs ! k)) [0 ..< length cs] of
       Some k \<Rightarrow> Ok (Inl (of_nat (Suc i + k) + 2))
     | None \<Rightarrow> Ok (Inr (case slot' of Some x \<Rightarrow> Some x
         | None \<Rightarrow> map_option (\<lambda>k. Suc i + k) (find (\<lambda>k. cs ! k = None) [0 ..< length cs]))))" for slot'
    using Cons.IH [of "Suc i" slot'] Cons.prems by simp
  show ?case
  proof (cases "entry_match sid srvs c")
    case True
    then obtain v sv where "c = Some v" "\<not> v < 2" "srvs ! unat (v - 2) = Some sv" "srv_sid sv = sid"
      by (cases c) (auto simp: entry_match_def serves_sid_def split: if_splits option.splits)
    thus ?thesis using True Cons.prems by (simp add: find_upt_Suc entry_ok_def del: upt_Suc)
  next
    case False
    hence "scan_connections sid srvs i slot (c # cs) =
        scan_connections sid srvs (i + 1) (if c = None \<and> slot = None then Some i else slot) cs"
      using Cons.prems by (cases c) (auto simp: entry_match_def serves_sid_def entry_ok_def split: option.splits)
    thus ?thesis using False IH
      by (simp add: find_upt_Suc option.map_comp comp_def add_Suc del: upt_Suc scan_connections.simps split: option.split)
  qed
qed (simp split: option.split)

section \<open>The interface\<close>

locale connections =
  fixes good :: "'s \<Rightarrow> bool" and conns :: "'s \<Rightarrow> CID \<Rightarrow> nat option" and serves :: "'s \<Rightarrow> nat \<Rightarrow> SID option"
    and connect :: "SID \<Rightarrow> ('s, CID) kop" and disconnect :: "CID \<Rightarrow> ('s, unit) kop"
  assumes connect_ok: "\<lbrakk>good s; connect sid s = (Ok cid, s')\<rbrakk> \<Longrightarrow>
      good s' \<and> serves s' = serves s \<and> (\<exists>i. serves s i = Some sid \<and> conns s' = (conns s)(cid \<mapsto> i)) \<and> (conns s cid = None \<or> s' = s)"
    and connect_again: "\<lbrakk>good s; connect sid s = (Ok cid, s')\<rbrakk> \<Longrightarrow> connect sid s' = (Ok cid, s')"
    and connect_err: "\<lbrakk>good s; connect sid s = (Err e, s')\<rbrakk> \<Longrightarrow> s' = s"
    and disconnect_ok: "\<lbrakk>good s; disconnect cid s = (Ok (), s')\<rbrakk> \<Longrightarrow>
      good s' \<and> serves s' = serves s \<and> conns s' = (conns s)(cid := None)"
    and disconnect_err: "\<lbrakk>good s; disconnect cid s = (Err e, s')\<rbrakk> \<Longrightarrow> s' = s \<and> conns s cid = None"
begin

text \<open>A connection leads to the server that was asked for and disturbs no other one.\<close>

lemma connect_finds:
  assumes "good s" "connect sid s = (Ok cid, s')"
  shows "\<exists>i. conns s' cid = Some i \<and> serves s' i = Some sid"
    "c \<noteq> cid \<Longrightarrow> conns s' c = conns s c"
  using connect_ok [OF assms] by (metis fun_upd_same, metis fun_upd_other)

text \<open>Connections to different servers are different.\<close>

lemma connect_distinct:
  assumes "good s" "connect sid s = (Ok cid, s1)" "connect sid' s1 = (Ok cid', s2)" "sid \<noteq> sid'"
  shows "cid \<noteq> cid'" "\<exists>i. conns s2 cid = Some i \<and> serves s2 i = Some sid"
proof -
  note 1 = connect_ok [OF assms(1,2)]
  note 2 = connect_ok [OF conjunct1 [OF 1] assms(3)]
  obtain i where i: "conns s1 cid = Some i" "serves s1 i = Some sid" using connect_finds(1) [OF assms(1,2)] by blast
  obtain j where j: "serves s1 j = Some sid'" "conns s2 = (conns s1)(cid' \<mapsto> j)" using 2 by blast
  show "cid \<noteq> cid'"
  proof
    assume c: "cid = cid'"
    hence "s2 = s1" using 2 i by auto
    thus False using j i c assms(4) by (metis fun_upd_same option.inject)
  qed
  thus "\<exists>i. conns s2 cid = Some i \<and> serves s2 i = Some sid" using i j 2 by auto
qed

text \<open>Disconnecting undoes a new connection.\<close>

lemma connect_disconnect:
  assumes "good s" "connect sid s = (Ok cid, s1)" "conns s cid = None" "disconnect cid s1 = (r, s2)" "r \<noteq> Panic"
  shows "r = Ok () \<and> conns s2 = conns s"
proof (cases r)
  case (Ok u)
  note 1 = connect_ok [OF assms(1,2)]
  have "conns s2 = (conns s1)(cid := None)" using disconnect_ok [of s1] 1 assms(4) Ok by simp
  thus ?thesis using 1 assms(3) Ok by (auto simp: fun_upd_idem)
next
  case (Err e)
  have "conns s1 cid = None" "s1 = s2" using disconnect_err [of s1 cid e s2] connect_ok [OF assms(1,2)] assms(4) Err by auto
  thus ?thesis using connect_finds(1) [OF assms(1,2)] by simp
qed (use assms in simp)

end

section \<open>The kernel's connections\<close>

abbreviation conn_table :: "kernel \<Rightarrow> u8 option list" where
  "conn_table s \<equiv> connection_map (cur_inner s)"

definition conn_good :: "kernel \<Rightarrow> bool" where
  "conn_good s = (table_current s = inner_pid (cur_inner s) \<and> length (conn_table s) = 32 \<and>
     length (servers s) \<le> 128 \<and> list_all (entry_ok (servers s)) (conn_table s))"

definition conn_of :: "kernel \<Rightarrow> CID \<Rightarrow> nat option" where
  "conn_of s cid = (if cid < 2 \<or> unat (cid - 2) \<ge> length (conn_table s) then None
     else entry_server (conn_table s ! unat (cid - 2)))"

definition server_sid :: "kernel \<Rightarrow> nat \<Rightarrow> SID option" where
  "server_sid s i = (if i < length (servers s) then map_option srv_sid (servers s ! i) else None)"

lemma set_connection_fields [simp]:
  "servers (set_connection k v s) = servers s" "table_current (set_connection k v s) = table_current s"
  "conn_table (set_connection k v s) = (conn_table s)[k := v]"
  "inner_pid (cur_inner (set_connection k v s)) = inner_pid (cur_inner s)"
  by (simp_all add: set_connection_def upd_inner_def upd_space_def cur_inner_def)

lemma entry_match_server:
  assumes "entry_ok srvs v" "entry_match sid srvs v"
  shows "\<exists>i. entry_server v = Some i \<and> i < length srvs \<and> map_option srv_sid (srvs ! i) = Some sid"
  using assms by (cases v) (auto simp: entry_match_def serves_sid_def entry_ok_def split: if_splits option.splits)

lemma new_entry:
  assumes "i < 128"
  shows "entry_server (Some (of_nat i + 2 :: u8)) = Some i" "(of_nat i + 2 :: u8) \<noteq> 0"
proof -
  have u: "unat (of_nat i + 2 :: u8) = i + 2" using assms by (simp add: unat_word_ariths unat_of_nat)
  show "(of_nat i + 2 :: u8) \<noteq> 0" using u by force
  have "\<not> (of_nat i + 2 :: u8) < 2" using u by (simp add: word_less_nat_alt)
  thus "entry_server (Some (of_nat i + 2 :: u8)) = Some i" using assms by (simp add: unat_of_nat)
qed

lemma slot_cid:
  assumes "k < 32"
  shows "\<not> (of_nat k + 2 :: CID) < 2" "unat (of_nat k + 2 - 2 :: CID) = k"
proof -
  have u: "unat (of_nat k + 2 :: CID) = k + 2" using assms by (simp add: unat_word_ariths unat_of_nat)
  show "\<not> (of_nat k + 2 :: CID) < 2" using u by (simp add: word_less_nat_alt)
  show "unat (of_nat k + 2 - 2 :: CID) = k" using assms by (simp add: unat_of_nat)
qed

lemma cid_slot: "unat (cid - 2 :: CID) = k \<Longrightarrow> cid = of_nat k + 2"
  by auto

lemma conn_of_slot:
  assumes "length (conn_table s) = 32" "k < 32"
  shows "conn_of s (of_nat k + 2) = entry_server (conn_table s ! k)"
  using assms slot_cid [OF assms(2)] by (simp add: conn_of_def)

lemma conn_of_update:
  assumes "length (conn_table s) = 32" "k < 32"
  shows "conn_of (set_connection k v s) = (conn_of s)(of_nat k + 2 := entry_server v)"
proof (rule ext)
  fix c
  show "conn_of (set_connection k v s) c = ((conn_of s)(of_nat k + 2 := entry_server v)) c"
  proof (cases "c = of_nat k + 2")
    case True
    thus ?thesis using assms conn_of_slot [of "set_connection k v s" k] by simp
  next
    case False
    hence "k \<noteq> unat (c - 2)" using cid_slot by blast
    thus ?thesis using False by (simp add: conn_of_def)
  qed
qed

lemma connect_cases:
  assumes "conn_good s" "connect_to_server sid s = (Ok cid, s')"
  obtains (old) k where "k < 32" "cid = of_nat k + 2" "s' = s" "entry_match sid (servers s) (conn_table s ! k)"
  | (new) k i where "k < 32" "cid = of_nat k + 2" "conn_table s ! k = None" "i < length (servers s)"
      "map_option srv_sid (servers s ! i) = Some sid" "s' = set_connection k (Some (of_nat i + 2)) s"
      "\<And>j. j < 32 \<Longrightarrow> \<not> entry_match sid (servers s) (conn_table s ! j)"
proof -
  note scan = scan_connections_eq [of "servers s" "conn_table s" sid 0 None]
  have g: "length (conn_table s) = 32" "list_all (entry_ok (servers s)) (conn_table s)" using assms(1) by (auto simp: conn_good_def)
  show ?thesis
  proof (cases "find (\<lambda>k. entry_match sid (servers s) (conn_table s ! k)) [0 ..< 32]")
    case (Some k)
    thus ?thesis using assms scan g find_index_Some [OF Some] that(1) [of k]
      by (auto simp: connect_to_server_def split: if_splits)
  next
    case None
    then obtain k i where ki: "find (\<lambda>k. conn_table s ! k = None) [0 ..< 32] = Some k" "find_server sid s = Some i"
      "cid = of_nat k + 2" "s' = set_connection k (Some (of_nat i + 2)) s"
      using assms(2) scan g by (auto simp: connect_to_server_def split: if_splits option.splits)
    have k: "k < 32" "conn_table s ! k = None" using ki(1) by (auto simp: find_Some_iff)
    have i: "i < length (servers s)" "map_option srv_sid (servers s ! i) = Some sid"
      using ki(2) by (auto simp: find_server_def find_Some_iff split: option.splits)
    show ?thesis using that(2) [OF k(1) ki(3) k(2) i ki(4)] None by (simp add: find_index_None)
  qed
qed

lemma conn_good_set:
  assumes "conn_good s" "entry_ok (servers s) v"
  shows "conn_good (set_connection k v s)"
  using assms set_update_subset_insert [of "conn_table s" k v] by (auto simp: conn_good_def list_all_iff)

lemma server_sid_set [simp]: "server_sid (set_connection k v s) = server_sid s"
  by (simp add: server_sid_def fun_eq_iff)

lemma conn_connect_ok:
  assumes good: "conn_good s" and run: "connect_to_server sid s = (Ok cid, s')"
  shows "conn_good s' \<and> server_sid s' = server_sid s \<and>
    (\<exists>i. server_sid s i = Some sid \<and> conn_of s' = (conn_of s)(cid \<mapsto> i)) \<and> (conn_of s cid = None \<or> s' = s)"
  using good run
proof (cases rule: connect_cases)
  case (old k)
  have g: "length (conn_table s) = 32" "entry_ok (servers s) (conn_table s ! k)"
    using good old(1) by (auto simp: conn_good_def list_all_length)
  obtain i where "entry_server (conn_table s ! k) = Some i" "i < length (servers s)" "map_option srv_sid (servers s ! i) = Some sid"
    using entry_match_server [OF g(2) old(4)] by blast
  thus ?thesis using old good conn_of_slot [OF g(1) old(1)] by (auto simp: server_sid_def fun_upd_idem intro!: exI [of _ i])
next
  case (new k i)
  have g: "length (conn_table s) = 32" "i < 128" using good new(4) by (auto simp: conn_good_def)
  note e = new_entry [OF g(2)]
  have "entry_ok (servers s) (Some (of_nat i + 2))" using e new(4) by (simp add: entry_ok_def split: if_splits)
  thus ?thesis
    using new conn_good_set [OF good] conn_of_update [OF g(1) new(1)] conn_of_slot [OF g(1) new(1)] e
    by (auto simp: server_sid_def simp del: entry_server.simps(2))
qed

lemma conn_connect_again:
  assumes good: "conn_good s" and run: "connect_to_server sid s = (Ok cid, s')"
  shows "connect_to_server sid s' = (Ok cid, s')"
  using good run
proof (cases rule: connect_cases)
  case (new k i)
  have g: "length (conn_table s) = 32" "i < 128" "list_all (entry_ok (servers s')) (conn_table s')"
    "table_current s' = inner_pid (cur_inner s')"
    using good new(4) conn_connect_ok [OF assms] by (auto simp: conn_good_def)
  have "entry_match sid (servers s') (conn_table s' ! k)"
    using new(1,4-6) new_entry(1) [OF g(2)] g(1) by (auto simp: entry_match_def serves_sid_def simp del: entry_server.simps)
  moreover have "\<not> entry_match sid (servers s') (conn_table s' ! j)" if "j < k" for j
    using new(1,6,7) that by simp
  ultimately have "find (\<lambda>k. entry_match sid (servers s') (conn_table s' ! k)) [0 ..< 32] = Some k"
    using new(1) by (auto simp: find_Some_iff intro!: exI [of _ k])
  thus ?thesis using g new(2,6) scan_connections_eq [OF g(3), of sid 0 None] by (simp add: connect_to_server_def)
qed (use run in simp)

interpretation cn: connections conn_good conn_of server_sid connect_to_server disconnect_from_server
proof unfold_locales
  show "\<lbrakk>conn_good s; connect_to_server sid s = (Ok cid, s')\<rbrakk> \<Longrightarrow> conn_good s' \<and> server_sid s' = server_sid s \<and>
    (\<exists>i. server_sid s i = Some sid \<and> conn_of s' = (conn_of s)(cid \<mapsto> i)) \<and> (conn_of s cid = None \<or> s' = s)" for s sid cid s'
    by (rule conn_connect_ok)
  show "\<lbrakk>conn_good s; connect_to_server sid s = (Ok cid, s')\<rbrakk> \<Longrightarrow> connect_to_server sid s' = (Ok cid, s')" for s sid cid s'
    by (rule conn_connect_again)
  show "\<lbrakk>conn_good s; connect_to_server sid s = (Err e, s')\<rbrakk> \<Longrightarrow> s' = s" for s sid e s'
    by (auto simp: connect_to_server_def split: if_splits outcome.splits sum.splits option.splits)
  show "\<lbrakk>conn_good s; disconnect_from_server cid s = (Ok (), s')\<rbrakk> \<Longrightarrow>
      conn_good s' \<and> server_sid s' = server_sid s \<and> conn_of s' = (conn_of s)(cid := None)" for s cid s'
    using cid_slot [of cid] conn_of_update [of s "unat (cid - 2)" None] conn_good_set [of s None "unat (cid - 2)"]
    by (auto simp: disconnect_from_server_def Let_def entry_ok_def conn_good_def split: if_splits)
  show "\<lbrakk>conn_good s; disconnect_from_server cid s = (Err e, s')\<rbrakk> \<Longrightarrow> s' = s \<and> conn_of s cid = None" for s cid e s'
    by (auto simp: disconnect_from_server_def Let_def conn_of_def split: if_splits)
qed

section \<open>The table and the lookup of a message\<close>

lemma sidx_from_cid_eq:
  assumes "conn_good s"
  shows "sidx_from_cid cid s = (Ok (map_option of_nat (conn_of s cid)), s)"
proof -
  have "unat (v - 2) < length (servers s)" if "unat (cid - 2) < 32" "conn_table s ! unat (cid - 2) = Some v" "\<not> v < 2" for v
    using assms that by (auto simp: conn_good_def list_all_length entry_ok_def split: option.splits)
  thus ?thesis using assms
    by (auto simp: sidx_from_cid_def conn_of_def conn_good_def Let_def not_le split: option.splits)
qed

lemma disconnect_defined: "conn_good s \<Longrightarrow> fst (disconnect_from_server cid s) \<noteq> Panic"
  by (simp add: disconnect_from_server_def conn_good_def Let_def)

text \<open>
  C19: The connection table of a process is a partial map from connection ids to
  servers.  When \<open>connect_to_server\<close> succeeds, the id it returns leads to a
  server with the SID that was asked for, and a message sent on that id reaches
  that server; every other id keeps its meaning.  Asking again returns the same
  id and changes nothing, an id for another SID is different and leaves the
  first one alone, and disconnecting a new id restores the map.
\<close>

theorem connection_table_map:
  assumes good: "conn_good s" and run: "connect_to_server sid s = (Ok cid, s1)"
  shows "(\<exists>i. server_sid s1 i = Some sid \<and> conn_of s1 = (conn_of s)(cid \<mapsto> i) \<and> sidx_from_cid cid s1 = (Ok (Some (of_nat i)), s1)) \<and>
    connect_to_server sid s1 = (Ok cid, s1) \<and>
    (\<forall>sid' cid' s2. connect_to_server sid' s1 = (Ok cid', s2) \<and> sid' \<noteq> sid \<longrightarrow> cid' \<noteq> cid \<and> conn_of s2 cid = conn_of s1 cid) \<and>
    (conn_of s cid = None \<longrightarrow> (\<exists>s2. disconnect_from_server cid s1 = (Ok (), s2) \<and> conn_of s2 = conn_of s))"
proof (intro conjI allI impI)
  note ok = cn.connect_ok [OF good run]
  then obtain i where "server_sid s1 i = Some sid" and i: "conn_of s1 = (conn_of s)(cid \<mapsto> i)" "conn_good s1" by auto
  moreover have "conn_of s1 cid = Some i" by (simp add: i)
  ultimately show "\<exists>i. server_sid s1 i = Some sid \<and> conn_of s1 = (conn_of s)(cid \<mapsto> i) \<and> sidx_from_cid cid s1 = (Ok (Some (of_nat i)), s1)"
    using sidx_from_cid_eq [of s1 cid] by auto
  show "connect_to_server sid s1 = (Ok cid, s1)" by (rule cn.connect_again [OF good run])
  show "cid' \<noteq> cid" "conn_of s2 cid = conn_of s1 cid" if "connect_to_server sid' s1 = (Ok cid', s2) \<and> sid' \<noteq> sid" for sid' cid' s2
    using cn.connect_distinct(1) [OF good run] cn.connect_finds(2) [of s1 sid' cid' s2 cid] ok that by auto
  show "\<exists>s2. disconnect_from_server cid s1 = (Ok (), s2) \<and> conn_of s2 = conn_of s" if "conn_of s cid = None"
    using cn.connect_disconnect [OF good run that] disconnect_defined [of s1 cid] ok by (metis prod.collapse)
qed

definition one_server_kernel :: kernel where
  "one_server_kernel = (static_kernel (\<lambda>_. \<lparr>l1 = \<lambda>_. 0, l0 = \<lambda>_ _. 0, hardware_thread = 0, inner = process_inner_default,
     last_tid_allocated = 0, threads = []\<rparr>) 0x80440000 0 (\<lambda>_. 7))\<lparr>servers := [None, Some fresh_server, None]\<rparr>"

theorem connection_table_map_witness:
  "\<exists>s1. connect_to_server (SID 1 2 3 4) one_server_kernel = (Ok 2, s1) \<and> connect_to_server (SID 1 2 3 4) s1 = (Ok 2, s1) \<and>
     (\<exists>s2. disconnect_from_server 2 s1 = (Ok (), s2) \<and> conn_of s2 = conn_of one_server_kernel)"
proof -
  have inner: "cur_inner one_server_kernel = process_inner_default" "table_current one_server_kernel = 1"
    "servers one_server_kernel = [None, Some fresh_server, None]"
    by (simp_all add: one_server_kernel_def static_kernel_def cur_inner_def)
  have good: "conn_good one_server_kernel" and none: "conn_of one_server_kernel 2 = None"
    by (simp_all add: conn_good_def inner process_inner_default_def list_all_iff entry_ok_def conn_of_def)
  have sid: "srv_sid fresh_server = SID 1 2 3 4" by (simp add: fresh_server_def server_init_def)
  have "scan_connections (SID 1 2 3 4) [None, Some fresh_server, None] 0 None (replicate 32 None) = Ok (Inr (Some 0))"
    by (subst scan_connections_eq) (simp_all add: list_all_iff entry_ok_def entry_match_def find_None_iff find_upt_Suc
      upt_rec [of 0 32] del: upt_Suc split: option.split)
  moreover have "find_server (SID 1 2 3 4) one_server_kernel = Some 1"
    by (simp add: find_server_def inner sid upt_rec)
  ultimately have run: "connect_to_server (SID 1 2 3 4) one_server_kernel = (Ok 2, set_connection 0 (Some 3) one_server_kernel)"
    by (simp add: connect_to_server_def inner process_inner_default_def)
  show ?thesis using connection_table_map [OF good run] run none by blast
qed

end
