(* ===== verification/Abi_Contract.thy ===== *)
theory Abi_Contract
  imports Trap Boot
begin

text \<open>
  The contract of the register interface: what the decoder of the kernel
  accepts, that both directions of the interface lose nothing, and that a
  result written into a thread's context is the one the thread decodes when
  it runs again.
\<close>

section \<open>Decoded values keep the invariants of their types\<close>

lemma nz_new_not_0 [simp]: "nz_new x \<noteq> Some 0" "nz_new x = Some y \<longleftrightarrow> x = y \<and> y \<noteq> 0"
  by (auto simp: nz_new_def)

lemma mk_memory_wf: "mk_memory a b c d e = Ok m \<Longrightarrow> memory_message_wf m"
  by (auto simp: mk_memory_def memory_message_wf_def opt_nz_def dest: memory_range_new_Ok split: outcome.splits)

lemma mk_memory_not_Panic: "mk_memory a b c d e \<noteq> Panic"
  by (auto simp: mk_memory_def split: outcome.splits)

lemma mk_borrow_Some: "mk_borrow c r = Some m \<longleftrightarrow> (\<exists>x. r = Ok x \<and> m = c x)"
  by (cases r) auto

lemma message_try_from_wf: "message_try_from a b c d e f = Some m \<Longrightarrow> message_wf m"
  by (auto simp: message_try_from_def mk_borrow_Some dest: mk_memory_wf split: if_splits)

lemma decode_try_send_wf:
  "decode_try_send a1 a2 a3 a4 a5 a6 a7 \<noteq> Panic"
  "decode_try_send a1 a2 a3 a4 a5 a6 a7 = Ok sc \<Longrightarrow> syscall_wf sc"
  by (simp_all add: decode_try_send_def mk_memory_not_Panic andThen_not_Panic)
    (auto simp: andThen_Ok_iff syscall_wf_def dest: mk_memory_wf split: if_splits)

lemma pid_from_usize_Ok: "pid_from_usize x = Ok p \<Longrightarrow> p \<noteq> 0"
  by (auto simp: pid_from_usize_def split: if_splits option.splits)

lemma pid_from_usize_not_Panic: "pid_from_usize x \<noteq> Panic"
  by (auto simp: pid_from_usize_def split: option.splits)

lemma flags_from_bits_le: "flags_from_bits x = Some f \<Longrightarrow> f \<le> FLAGS_ALL"
  by (auto simp: flags_from_bits_def split: if_splits)

lemma args_to_thread_Ok:
  "args_to_thread a b c d e f g \<noteq> Panic" "args_to_thread a b c d e f g = Ok t \<Longrightarrow> range_wf (ti_stack t)"
  by (auto simp: args_to_thread_def dest: memory_range_new_Ok split: outcome.splits)

lemma process_init_try_from_Ok:
  "process_init_try_from w \<noteq> Panic" "process_init_try_from w = Ok p \<Longrightarrow> process_init_wf p"
  by (auto simp: process_init_try_from_def process_init_wf_def dest: memory_range_new_Ok split: outcome.splits if_splits)

lemmas decoded_wf = memory_range_new_Ok mk_memory_wf pid_from_usize_Ok flags_from_bits_le args_to_thread_Ok(2) process_init_try_from_Ok(2)

lemma from_args_not_Panic: "from_args a0 a1 a2 a3 a4 a5 a6 a7 \<noteq> Panic"
  by (cases "number_from a0")
    (simp_all add: from_args_def decode_map_memory_def decode_try_send_wf pid_from_usize_not_Panic args_to_thread_Ok
      process_init_try_from_Ok andThen_not_Panic split: option.split)

lemma from_args_wf: "from_args a0 a1 a2 a3 a4 a5 a6 a7 = Ok sc \<Longrightarrow> syscall_wf sc"
proof (cases "number_from a0 = SN_TrySendMessage")
  case False
  assume "from_args a0 a1 a2 a3 a4 a5 a6 a7 = Ok sc"
  thus ?thesis using False
    by (cases "number_from a0")
      (auto simp: from_args_def decode_map_memory_def andThen_Ok_iff syscall_wf_def opt_nz_def
        dest: decoded_wf message_try_from_wf split: option.splits)
qed (auto simp: from_args_def intro: decode_try_send_wf(2))

section \<open>A result in a context\<close>

lemma write_regs_read:
  assumes "n + length vals \<le> length regs"
  shows "take (length vals) (drop n (write_regs n vals regs)) = vals" "length (write_regs n vals regs) = length regs"
  using assms by (simp_all add: write_regs_def)

text \<open>The eight argument registers of a context, \<open>a0\<close> to \<open>a7\<close>.\<close>

definition arg_registers :: "thread \<Rightarrow> usize list" where
  "arg_registers t = take 8 (drop 9 (registers t))"

lemma length_sid_to_u32 [simp]: "length (sid_to_u32 sid) = 4"
  by (cases sid) simp

lemma length_result_to_args [simp]: "length (result_to_args r) = 8"
  by (cases r) (simp_all add: envelope_to_usize_def process_startup_to_args_def)


definition home_of :: "PID \<Rightarrow> kernel \<Rightarrow> usize" where
  "home_of pid s = (if table_current s = pid then satp s else mapping (processes s ! pid_idx pid))"

lemma arch_set_thread_result_Ok:
  "arch_set_thread_result tid r s = (Ok (), s') \<longleftrightarrow>
     unat (fixup_irq tid) < length (threads (cur_space s)) \<and>
     s' = upd_thread (unat (fixup_irq tid)) (\<lambda>t. t\<lparr>registers := write_regs 9 (result_to_args r) (registers t)\<rparr>) s"
  by (auto simp: arch_set_thread_result_def thread_index_def op_defs Let_def)

lemma set_thread_result_Ok:
  assumes "set_thread_result pid tid r s = (Ok (), s')"
  shows "unat (fixup_irq tid) < length (threads (spaces s (home_of pid s)))"
    "spaces s' = (spaces s)(home_of pid s := (spaces s (home_of pid s))\<lparr>threads :=
       (threads (spaces s (home_of pid s)))[unat (fixup_irq tid) := (threads (spaces s (home_of pid s)) ! unat (fixup_irq tid))
         \<lparr>registers := write_regs 9 (result_to_args r) (registers (threads (spaces s (home_of pid s)) ! unat (fixup_irq tid)))\<rparr>]\<rparr>)"
  using assms
  by (auto simp: set_thread_result_def op_defs get_process_def process_activate_def set_current_pid_def process_current_def
      arch_set_thread_result_Ok home_of_def upd_thread_def put_thread_def get_thread_def upd_space_def Let_def
      split: if_splits outcome.splits prod.splits)

section \<open>The contract\<close>

text \<open>
  C20: Whatever a process leaves in the eight argument registers, decoding it
  does not panic the kernel, and a call that is accepted satisfies the
  invariants of its types: process ids and addresses declared \<open>NonZero\<close> are not
  zero, memory ranges have an address and a size, and memory flags contain no
  reserved bit.
\<close>

theorem syscall_decode_type:
  "from_args a0 a1 a2 a3 a4 a5 a6 a7 \<noteq> Panic \<and>
   (\<forall>sc. from_args a0 a1 a2 a3 a4 a5 a6 a7 = Ok sc \<longrightarrow> syscall_wf sc)"
  using from_args_not_Panic from_args_wf by blast

theorem syscall_decode_type_witness:
  "from_args 2 0 0x1000 0x2000 6 0 0 0 = Ok (SC_MapMemory None (Some 0x1000) 0x2000 6) \<and>
   syscall_wf (SC_MapMemory None (Some 0x1000) 0x2000 6)"
proof -
  have "from_args 2 0 0x1000 0x2000 6 0 0 0 = Ok (SC_MapMemory None (Some 0x1000) 0x2000 6)"
    by (simp add: from_args_def number_from_def decode_map_memory_def nz_new_def flags_from_bits_def FLAGS_ALL_def)
  with syscall_decode_type [of 2 0 "0x1000" "0x2000" 6 0 0 0] show ?thesis by blast
qed

text \<open>
  C21: The register encoding of system calls loses nothing.  A call that user
  code encodes with \<open>as_args\<close> is the call the kernel decodes, two different
  calls never have the same registers, and a call the kernel decoded from any
  registers survives being encoded and decoded again.
\<close>

theorem syscall_abi_roundtrip:
  assumes "syscall_wf sc"
  shows "from_args_list (as_args sc) = Ok sc \<and>
    (\<forall>sc'. syscall_wf sc' \<and> as_args sc' = as_args sc \<longrightarrow> sc' = sc) \<and>
    (\<forall>w sc'. from_args_list w = Ok sc' \<longrightarrow> from_args_list (as_args sc') = Ok sc')"
proof (intro conjI allI impI)
  show "from_args_list (as_args sc) = Ok sc" using assms by (rule syscall_roundtrip)
  show "sc' = sc" if "syscall_wf sc' \<and> as_args sc' = as_args sc" for sc'
    using that assms syscall_codec.enc_eq_iff by blast
  show "from_args_list (as_args sc') = Ok sc'" if "from_args_list w = Ok sc'" for w sc'
    using from_args_wf that by (intro syscall_roundtrip) (auto simp: from_args_list_def)
qed

theorem syscall_abi_roundtrip_witness:
  "syscall_wf (SC_SendMessage 3 (Borrow \<lparr>mm_id = 7, mm_buf = \<lparr>mr_addr = 0x4000, mr_size = 0x1000\<rparr>, mm_offset = None, mm_valid = Some 16\<rparr>)) \<and>
   from_args_list [16, 3, 2, 7, 0x4000, 0x1000, 0, 16] =
     Ok (SC_SendMessage 3 (Borrow \<lparr>mm_id = 7, mm_buf = \<lparr>mr_addr = 0x4000, mr_size = 0x1000\<rparr>, mm_offset = None, mm_valid = Some 16\<rparr>))"
  (is "syscall_wf ?sc \<and> _")
proof -
  have "syscall_wf ?sc" by (simp add: syscall_wf_def memory_message_wf_def range_wf_def opt_nz_def)
  moreover have "as_args ?sc = [16, 3, 2, 7, 0x4000, 0x1000, 0, 16]" by (simp add: memory_message_to_usize_def)
  ultimately show ?thesis using syscall_abi_roundtrip [of ?sc] by simp
qed

text \<open>
  C22: A result given to a thread reaches that thread and nobody else.  When
  \<open>set_thread_result\<close> succeeds on a result of the Rust type (\<open>NonZero\<close> fields
  are not zero), the argument registers of the thread hold an encoding that
  user code decodes to exactly that result, except that \<open>Unimplemented\<close>, which
  is sent with the number of \<open>Message\<close> (21, not the documented 12), decodes to
  an internal error, and \<open>UnknownResult\<close> comes back with its words shifted by
  one.  The thread's program counter is untouched, and so is every other thread
  of every process.
\<close>

theorem result_reaches_thread:
  assumes "set_thread_result pid tid r s = (Ok (), s')" "result_wf r" "i = unat (fixup_irq tid)"
    "length (registers (threads (spaces s (home_of pid s)) ! i)) = 31"
  shows "result_from_args (arg_registers (threads (spaces s' (home_of pid s)) ! i)) = Ok (case r of
      R_Unimplemented \<Rightarrow> R_Error InternalError
    | R_UnknownResult a1 a2 a3 a4 a5 a6 a7 \<Rightarrow> R_UnknownResult (-1) a1 a2 a3 a4 a5 a6
    | _ \<Rightarrow> r) \<and>
    sepc (threads (spaces s' (home_of pid s)) ! i) = sepc (threads (spaces s (home_of pid s)) ! i) \<and>
    (\<forall>sp j. (sp, j) \<noteq> (home_of pid s, i) \<longrightarrow> threads (spaces s' sp) ! j = threads (spaces s sp) ! j)"
  using set_thread_result_Ok [OF assms(1)] assms(2-4)
    write_regs_read(1) [of 9 "result_to_args r" "registers (threads (spaces s (home_of pid s)) ! i)"]
  by (auto simp: arg_registers_def result_roundtrip result_decoded_def)

definition demo_client :: kernel where
  "demo_client = static_kernel (\<lambda>_. \<lparr>l1 = \<lambda>_. 0, l0 = \<lambda>_ _. 0, hardware_thread = 3, inner = process_inner_default,
     last_tid_allocated = 0, threads = replicate 31 thread_default\<rparr>) 0x80440000 0 (\<lambda>_. 7)"

theorem result_reaches_thread_witness:
  "\<exists>s'. set_thread_result 1 2 (R_Scalar2 5 6) demo_client = (Ok (), s') \<and>
     result_from_args (arg_registers (threads (spaces s' 0x80440000) ! 2)) = Ok (R_Scalar2 5 6)"
proof -
  have f: "table_current demo_client = 1" "satp demo_client = 0x80440000" "home_of 1 demo_client = 0x80440000" "unat (fixup_irq 2) = 2"
    "threads (spaces demo_client sp) = replicate 31 thread_default" for sp
    by (simp_all add: demo_client_def static_kernel_def home_of_def fixup_irq_def IRQ_TID_SENTINAL_def)
  obtain s' where "set_thread_result 1 2 (R_Scalar2 5 6) demo_client = (Ok (), s')"
    by (auto simp: set_thread_result_def op_defs f process_current_def arch_set_thread_result_def thread_index_def)
  thus ?thesis using result_reaches_thread [of 1 2 "R_Scalar2 5 6" demo_client s' 2] f
    by (auto simp: result_wf_def thread_default_def)
qed

end
