(* ===== verification/Interrupts.thy ===== *)
theory Interrupts
  imports Boot
begin

text \<open>
  The interrupt table and the interrupt mask of \<open>kernel/src/irq.rs\<close> and
  \<open>kernel/src/arch/riscv/irq.rs\<close>.  A line belongs to at most one process;
  claiming, freeing and the clean-up after a process refine updates of a
  partial map from lines to handlers, and the mask in effect is always its
  domain.  While an interrupt handler runs the hardware mask is zero and
  changes go to the saved mask; leaving that section gives the same state as
  making the changes directly.
\<close>

section \<open>The table as a map\<close>

type_synonym handler = "PID \<times> usize \<times> usize option"

definition handler_map :: "kernel \<Rightarrow> nat \<Rightarrow> handler option" where
  "handler_map s i = (if i < length (irq_handlers s) then irq_handlers s ! i else None)"

text \<open>The mask in effect: what the hardware has, or will have when interrupts are enabled again.\<close>

definition irq_mask :: "kernel \<Rightarrow> usize" where
  "irq_mask s = (if irq_enabled s then sim s else sim_backing s)"

definition irq_inv :: "kernel \<Rightarrow> bool" where
  "irq_inv s = (length (irq_handlers s) = 32 \<and> (\<forall>i < 32. bit (irq_mask s) i = (irq_handlers s ! i \<noteq> None)))"

datatype irq_op = IClaim usize PID usize "usize option" | IFree usize PID | IRelease PID

definition apply_irq_op :: "irq_op \<Rightarrow> kernel \<Rightarrow> kernel" where
  "apply_irq_op x s = (case x of
     IClaim irq pid f arg \<Rightarrow> snd (interrupt_claim irq pid f arg s)
   | IFree irq pid \<Rightarrow> snd (interrupt_free irq pid s)
   | IRelease pid \<Rightarrow> snd (release_interrupts_for_pid pid s))"

primrec irq_spec :: "irq_op \<Rightarrow> (nat \<Rightarrow> handler option) \<Rightarrow> nat \<Rightarrow> handler option" where
  "irq_spec (IClaim irq pid f arg) m = (if irq < 32 \<and> m (unat irq) = None then m(unat irq \<mapsto> (pid, f, arg)) else m)"
| "irq_spec (IFree irq pid) m = (if handler_owned pid (m (unat irq)) then m(unat irq := None) else m)"
| "irq_spec (IRelease pid) m = (\<lambda>i. if handler_owned pid (m i) then None else m i)"

lemma thread_bit_at: "bit (thread_bit n) i = (i = unat n mod 32)"
  by (auto simp: thread_bit_def bit_simps)

lemma handler_owned_None [simp]: "\<not> handler_owned pid None"
  by (simp add: handler_owned_def)

lemma enable_irq_fields:
  "irq_handlers (snd (enable_irq n s)) = irq_handlers s" "irq_enabled (snd (enable_irq n s)) = irq_enabled s"
  "irq_mask (snd (enable_irq n s)) = irq_mask s OR thread_bit n"
  by (simp_all add: enable_irq_def op_defs irq_mask_def)

lemma disable_irq_fields:
  "irq_handlers (snd (disable_irq n s)) = irq_handlers s" "irq_enabled (snd (disable_irq n s)) = irq_enabled s"
  "irq_mask (snd (disable_irq n s)) = irq_mask s AND NOT (thread_bit n)"
  by (simp_all add: disable_irq_def op_defs irq_mask_def)

lemma irq_mask_handlers [simp]: "irq_mask (s\<lparr>irq_handlers := h\<rparr>) = irq_mask s"
  by (simp add: irq_mask_def)

lemma drop_line_inv:
  assumes "irq_inv s" "i < 32"
  shows "irq_inv (snd (thenM (disable_irq (of_nat i)) (set_handler i None) s))"
    "irq_handlers (snd (thenM (disable_irq (of_nat i)) (set_handler i None) s)) = (irq_handlers s)[i := None]"
  using assms
  by (auto simp: irq_inv_def disable_irq_def set_handler_def op_defs irq_mask_def bit_simps thread_bit_at unat_of_nat nth_list_update)

lemma claim_line:
  assumes "irq_inv s"
  shows "irq_inv (snd (interrupt_claim irq pid f arg s))"
    "handler_map (snd (interrupt_claim irq pid f arg s)) = irq_spec (IClaim irq pid f arg) (handler_map s)"
  using assms
  by (auto simp: interrupt_claim_def irq_inv_def enable_irq_def set_handler_def op_defs irq_mask_def bit_simps thread_bit_at
      nth_list_update handler_map_def word_less_nat_alt fun_eq_iff)

lemma free_line:
  assumes "irq_inv s"
  shows "irq_inv (snd (interrupt_free irq pid s))"
    "handler_map (snd (interrupt_free irq pid s)) = irq_spec (IFree irq pid) (handler_map s)"
  using assms
  by (auto simp: interrupt_free_def irq_inv_def disable_irq_def set_handler_def op_defs irq_mask_def bit_simps thread_bit_at
      nth_list_update handler_map_def word_less_nat_alt fun_eq_iff)

text \<open>The body of the loop of \<open>release_interrupts_for_pid\<close>.\<close>

abbreviation release_line :: "PID \<Rightarrow> nat \<Rightarrow> (kernel, unit) kop" where
  "release_line pid i \<equiv> bindM (getM (\<lambda>s. irq_handlers s ! i)) (\<lambda>h.
     if handler_owned pid h then thenM (disable_irq (of_nat i)) (set_handler i None) else retM ())"

lemma release_line_step:
  assumes "irq_inv s" "i < 32"
  shows "\<exists>s'. release_line pid i s = (Ok (), s') \<and> irq_inv s' \<and>
    irq_handlers s' = (if handler_owned pid (irq_handlers s ! i) then (irq_handlers s)[i := None] else irq_handlers s)"
  using drop_line_inv [OF assms] assms(1) by (auto simp: op_defs disable_irq_def set_handler_def)

lemma release_lines:
  assumes "irq_inv s" "n \<le> 32"
  shows "\<exists>s'. for_each [0 ..< n] (release_line pid) s = (Ok (), s') \<and> irq_inv s' \<and>
    (\<forall>i < 32. irq_handlers s' ! i = (if i < n \<and> handler_owned pid (irq_handlers s ! i) then None else irq_handlers s ! i))"
  using assms(2)
proof (induction n)
  case 0
  show ?case using assms(1) by (simp add: op_defs)
next
  case (Suc n)
  then obtain s1 where s1: "for_each [0 ..< n] (release_line pid) s = (Ok (), s1)" "irq_inv s1"
    "\<forall>i < 32. irq_handlers s1 ! i = (if i < n \<and> handler_owned pid (irq_handlers s ! i) then None else irq_handlers s ! i)" by auto
  obtain s2 where s2: "release_line pid n s1 = (Ok (), s2)" "irq_inv s2"
    "irq_handlers s2 = (if handler_owned pid (irq_handlers s1 ! n) then (irq_handlers s1)[n := None] else irq_handlers s1)"
    using release_line_step [OF s1(2), of n pid] Suc.prems by auto
  have "for_each [0 ..< Suc n] (release_line pid) s = (Ok (), s2)"
    using s1(1) s2(1) by (simp add: for_each_append thenM_def bindM_def retM_def)
  thus ?case using s1(2,3) s2(2,3) Suc.prems by (auto simp: irq_inv_def nth_list_update less_Suc_eq)
qed

lemma release_all_lines:
  assumes "irq_inv s"
  shows "irq_inv (snd (release_interrupts_for_pid pid s))"
    "handler_map (snd (release_interrupts_for_pid pid s)) = irq_spec (IRelease pid) (handler_map s)"
  using release_lines [OF assms, of 32 pid] assms
  by (auto simp: release_interrupts_for_pid_def irq_inv_def handler_map_def fun_eq_iff)

interpretation irq: simulation handler_map irq_inv apply_irq_op irq_spec
  by unfold_locales (simp_all add: apply_irq_op_def claim_line free_line release_all_lines split: irq_op.split)

section \<open>Masked sections\<close>

abbreviation masked :: "kernel \<Rightarrow> kernel" where
  "masked s \<equiv> snd (disable_all_irqs s)"

lemma release_line_masked:
  assumes "irq_enabled s" "release_line pid i s = (r, s')"
  shows "release_line pid i (masked s) = (r, masked s') \<and> irq_enabled s' \<and> r = Ok ()"
  using assms by (auto simp: op_defs disable_irq_def set_handler_def disable_all_irqs_def)

lemma release_masked:
  assumes "irq_enabled s" "for_each xs (release_line pid) s = (r, s')"
  shows "for_each xs (release_line pid) (masked s) = (r, masked s') \<and> irq_enabled s'"
  using assms
proof (induction xs arbitrary: s)
  case (Cons x xs)
  obtain r1 s1 where 1: "release_line pid x s = (r1, s1)" by (cases "release_line pid x s")
  note m = release_line_masked [OF Cons.prems(1) 1]
  hence "for_each xs (release_line pid) s1 = (r, s')" using Cons.prems(2) 1 by (simp add: thenM_def bindM_def [of "release_line pid x"])
  with Cons.IH [of s1] m show ?case by (simp add: thenM_def bindM_def [of "release_line pid x"])
qed (auto simp: op_defs disable_all_irqs_def)

lemma release_all_masked:
  assumes "irq_enabled s"
  shows "release_interrupts_for_pid pid (masked s) = map_prod id (\<lambda>s. masked s) (release_interrupts_for_pid pid s) \<and>
    irq_enabled (snd (release_interrupts_for_pid pid s))"
proof -
  have h: "irq_handlers (masked s) = irq_handlers s" by (simp add: disable_all_irqs_def op_defs)
  obtain r s' where run: "for_each [0 ..< length (irq_handlers s)] (release_line pid) s = (r, s')" by fastforce
  have "release_interrupts_for_pid pid s = (r, s')" using run by (simp only: release_interrupts_for_pid_def)
  moreover have "release_interrupts_for_pid pid (masked s) = (r, masked s')" "irq_enabled s'"
    using release_masked [OF assms run] by (simp_all only: release_interrupts_for_pid_def h simp_thms)
  ultimately show ?thesis by simp
qed

lemma masked_eq: "masked s = s\<lparr>sim_backing := sim s, irq_enabled := False, sim := 0\<rparr>"
  by (simp add: disable_all_irqs_def modM_def)

lemma claim_masked:
  assumes "irq_enabled s"
  shows "snd (interrupt_claim irq pid f arg (masked s)) = masked (snd (interrupt_claim irq pid f arg s)) \<and>
    irq_enabled (snd (interrupt_claim irq pid f arg s))"
proof -
  have "interrupt_claim irq pid f arg s = (if unat irq > length (irq_handlers s) then (Err InterruptNotFound, s)
      else if unat irq = length (irq_handlers s) then (Panic, s)
      else if irq_handlers s ! unat irq \<noteq> None then (Err InterruptInUse, s)
      else (Ok (), if irq_enabled s then s\<lparr>irq_handlers := (irq_handlers s)[unat irq := Some (pid, f, arg)], sim := sim s OR thread_bit irq\<rparr>
        else s\<lparr>irq_handlers := (irq_handlers s)[unat irq := Some (pid, f, arg)], sim_backing := sim_backing s OR thread_bit irq\<rparr>))" for s
    by (simp add: interrupt_claim_def thenM_def bindM_def set_handler_def modM_def enable_irq_def)
  thus ?thesis using assms by (simp add: masked_eq)
qed

lemma free_masked:
  assumes "irq_enabled s"
  shows "snd (interrupt_free irq pid (masked s)) = masked (snd (interrupt_free irq pid s)) \<and> irq_enabled (snd (interrupt_free irq pid s))"
proof -
  have "interrupt_free irq pid s = (if unat irq > length (irq_handlers s) then (Err InterruptNotFound, s)
      else if unat irq = length (irq_handlers s) then (Panic, s)
      else if \<not> handler_owned pid (irq_handlers s ! unat irq) then (Err InterruptNotFound, s)
      else (Ok (), if irq_enabled s then s\<lparr>irq_handlers := (irq_handlers s)[unat irq := None], sim := sim s AND NOT (thread_bit irq)\<rparr>
        else s\<lparr>irq_handlers := (irq_handlers s)[unat irq := None], sim_backing := sim_backing s AND NOT (thread_bit irq)\<rparr>))" for s
    by (simp add: interrupt_free_def thenM_def bindM_def set_handler_def modM_def disable_irq_def)
  thus ?thesis using assms by (simp add: masked_eq)
qed

lemma apply_irq_op_masked:
  assumes "irq_enabled s"
  shows "apply_irq_op x (masked s) = masked (apply_irq_op x s)" "irq_enabled (apply_irq_op x s)"
  by (simp_all add: apply_irq_op_def claim_masked [OF assms] free_masked [OF assms] release_all_masked [OF assms] split: irq_op.split)

lemma fold_irq_masked:
  "irq_enabled s \<Longrightarrow> fold apply_irq_op xs (masked s) = masked (fold apply_irq_op xs s) \<and> irq_enabled (fold apply_irq_op xs s)"
  by (induction xs arbitrary: s) (auto simp: apply_irq_op_masked)

section \<open>Properties\<close>

text \<open>Giving up a line: freeing it, or releasing everything, as its owner.\<close>

fun gives_up_line :: "PID \<Rightarrow> nat \<Rightarrow> irq_op \<Rightarrow> bool" where
  "gives_up_line p i (IClaim _ _ _ _) = False"
| "gives_up_line p i (IFree irq pid) = (unat irq = i \<and> pid = p)"
| "gives_up_line p i (IRelease pid) = (pid = p)"

lemma irq_spec_keeps:
  assumes "m i = Some (p, f, arg)" "\<forall>x \<in> set xs. \<not> gives_up_line p i x"
  shows "fold irq_spec xs m i = Some (p, f, arg)"
  using assms
proof (induction xs arbitrary: m)
  case (Cons x xs)
  have "irq_spec x m i = Some (p, f, arg)" using Cons.prems by (cases x) (auto simp: handler_owned_def)
  thus ?case using Cons by simp
qed simp

text \<open>
  C23: The interrupt table refines a partial map from the 32 lines to handlers.
  Along any sequence of claims, frees and clean-ups a line is claimed only
  while it is free, only its owner gives it up, the clean-up of a process
  removes exactly its lines, and the mask in effect enables exactly the lines
  that have a handler.  So a handler stays registered, and its line enabled,
  until its own process gives it up.
\<close>

theorem irq_table_refines:
  assumes "irq_inv s"
  shows "handler_map (fold apply_irq_op xs s) = fold irq_spec xs (handler_map s) \<and>
    (\<forall>i < 32. bit (irq_mask (fold apply_irq_op xs s)) i = (fold irq_spec xs (handler_map s) i \<noteq> None)) \<and>
    (\<forall>i p f arg. handler_map s i = Some (p, f, arg) \<and> (\<forall>x \<in> set xs. \<not> gives_up_line p i x) \<longrightarrow>
       handler_map (fold apply_irq_op xs s) i = Some (p, f, arg))"
proof -
  note run = irq.steps_inv [OF assms, of xs] irq.steps_abs [OF assms, of xs]
  have "\<forall>i < 32. bit (irq_mask (fold apply_irq_op xs s)) i = (handler_map (fold apply_irq_op xs s) i \<noteq> None)"
    using run(1) by (simp add: irq_inv_def handler_map_def)
  thus ?thesis using run(2) irq_spec_keeps by auto
qed

definition demo_irqs :: kernel where
  "demo_irqs = static_kernel (\<lambda>_. \<lparr>l1 = \<lambda>_. 0, l0 = \<lambda>_ _. 0, hardware_thread = 0, inner = process_inner_default,
     last_tid_allocated = 0, threads = []\<rparr>) 0x80440000 0 (\<lambda>_. 7)"

theorem irq_table_refines_witness:
  "handler_map (fold apply_irq_op [IClaim 5 2 0x1000 None, IClaim 5 3 0x2000 None, IFree 5 3, IClaim 40 3 0x2000 None, IRelease 3] demo_irqs) =
     [5 \<mapsto> (2, 0x1000, None)]"
proof -
  have "irq_inv demo_irqs" "handler_map demo_irqs = Map.empty"
    by (auto simp: irq_inv_def demo_irqs_def static_kernel_def irq_mask_def handler_map_def fun_eq_iff)
  with irq_table_refines [of demo_irqs "[IClaim 5 2 0x1000 None, IClaim 5 3 0x2000 None, IFree 5 3, IClaim 40 3 0x2000 None, IRelease 3]"]
  show ?thesis by (auto simp: handler_owned_def fun_eq_iff)
qed

text \<open>
  C24: Changes to the interrupt table made while interrupts are disabled are
  only deferred.  Between \<open>disable_all_irqs\<close> and \<open>enable_all_irqs\<close> no line is
  enabled in the hardware, whatever is claimed or freed, and afterwards the
  kernel is in the state it would have reached without the section, but for
  the saved copy of the mask.
\<close>

theorem masked_section_deferred:
  assumes "irq_enabled s"
  shows "let s' = fold apply_irq_op xs (snd (disable_all_irqs s)); direct = fold apply_irq_op xs s
    in sim s' = 0 \<and> snd (enable_all_irqs s') = direct\<lparr>sim_backing := sim direct\<rparr>"
  using fold_irq_masked [OF assms, of xs] by (simp add: Let_def disable_all_irqs_def enable_all_irqs_def op_defs)

theorem masked_section_deferred_witness:
  "sim (snd (enable_all_irqs (fold apply_irq_op [IClaim 5 2 0x1000 None] (snd (disable_all_irqs demo_irqs))))) = 32"
  using masked_section_deferred [of demo_irqs "[IClaim 5 2 0x1000 None]"]
  by (simp add: Let_def demo_irqs_def static_kernel_def apply_irq_op_def interrupt_claim_def op_defs set_handler_def enable_irq_def
      thread_bit_def push_bit_eq_mult)

end
