(* ===== verification/Termination.thy ===== *)
theory Termination
  imports Lifecycle Interrupts Op_Frames
begin

text \<open>
  What the end of a process leaves behind: nothing of its own.  Its pages, its
  interrupt lines, its servers and its slot in the table of active processes
  are released, and what belongs to other processes is untouched.
\<close>

section \<open>What switching processes leaves alone\<close>

type_synonym holdings = "PID option list \<times> PID option list \<times> handler option list \<times> usize \<times> server option list \<times> bool list"

definition holdings :: "kernel \<Rightarrow> holdings" where
  "holdings s = (mem_allocs s, extra_allocs s, irq_handlers s, irq_mask s, servers s, proc_table s)"

lemma holdings_upd [simp]:
  "holdings (upd_space f s) = holdings s" "holdings (upd_inner g s) = holdings s" "holdings (activate_mapping m s) = holdings s"
  "holdings (s\<lparr>table_current := c\<rparr>) = holdings s" "holdings (put_thread i th s) = holdings s"
  "holdings (upd_thread i h s) = holdings s" "holdings (upd_process pid k s) = holdings s"
  by (simp_all add: holdings_def upd_space_def upd_inner_def activate_mapping_def put_thread_def upd_thread_def upd_process_def irq_mask_def)

lemma keeps_holdings [keeps_intros]:
  "keeps (\<lambda>s. holdings s = h) (get_process pid)" "keeps (\<lambda>s. holdings s = h) process_current"
  "keeps (\<lambda>s. holdings s = h) (set_current_pid pid)" "keeps (\<lambda>s. holdings s = h) (set_tid tid)"
  "keeps (\<lambda>s. holdings s = h) (thread_index tid)"
  by (rule keepsI; auto simp: get_process_def process_current_def set_current_pid_def set_tid_def thread_index_def Let_def split: if_splits)+

lemma keeps_holdings_sets [keeps_intros]:
  "keeps (\<lambda>s. holdings s = h) (set_state pid st)" "keeps (\<lambda>s. holdings s = h) (set_current_thread pid tid)"
  "keeps (\<lambda>s. holdings s = h) (process_activate p)" "keeps (\<lambda>s. holdings s = h) (arch_setup_thread tid ti)"
  "keeps (\<lambda>s. holdings s = h) (current_set_tid tid)" "keeps (\<lambda>s. holdings s = h) (chosen_thread t ready cur)"
  unfolding set_state_def set_current_thread_def process_activate_def arch_setup_thread_def current_set_tid_def chosen_thread_def Let_def
  by (intro keeps_intros; simp)+

lemma keeps_switch_to_thread [keeps_intros]: "keeps (\<lambda>s. holdings s = h) (switch_to_thread pid tid)"
  unfolding switch_to_thread_def Let_def
  by (rule keeps_bind, rule keeps_intros, split ProcessState.split) (auto intro!: keeps_intros)

section \<open>The loop over the servers\<close>

definition tables :: "kernel \<Rightarrow> PID option list \<times> PID option list \<times> handler option list \<times> usize \<times> process list" where
  "tables s = (mem_allocs s, extra_allocs s, irq_handlers s, irq_mask s, processes s)"

lemma kernel_tables_upd [simp]:
  "tables (upd_space f s) = tables s" "tables (upd_inner g s) = tables s" "tables (activate_mapping m s) = tables s"
  "tables (s\<lparr>table_current := c\<rparr>) = tables s" "tables (s\<lparr>servers := v\<rparr>) = tables s"
  "servers (upd_space f s) = servers s" "servers (upd_inner g s) = servers s" "servers (activate_mapping m s) = servers s"
  by (simp_all add: tables_def upd_space_def upd_inner_def activate_mapping_def irq_mask_def)

lemma keeps_tables_activate [keeps_intros]: "keeps (\<lambda>s. tables s = h \<and> servers s = v) (process_activate p)"
  by (rule keepsI) (auto simp: process_activate_def set_current_pid_def process_current_def op_defs Let_def split: if_splits)

text \<open>The server table after the first \<open>i\<close> rounds of the loop.\<close>

definition detached :: "PID \<Rightarrow> nat \<Rightarrow> server option list \<Rightarrow> server option list" where
  "detached pid i svs = map (map_option (discard_messages_for_pid pid)) (take i svs) @ drop i svs"

lemma detached_step:
  assumes "i < length svs"
  shows "detached pid i svs ! i = svs ! i" "length (detached pid i svs) = length svs"
    "detached pid (Suc i) svs = (detached pid i svs)[i := map_option (discard_messages_for_pid pid) (svs ! i)]"
  using assms
  by (simp_all add: detached_def nth_append take_Suc_conv_app_nth list_update_append Cons_nth_drop_Suc [symmetric])

lemma detach_server_step:
  assumes "i < length svs"
  shows "triple (\<lambda>s. tables s = h \<and> servers s = detached pid i svs) (detach_server pid i)
    (\<lambda>_ s. tables s = h \<and> servers s = detached pid (Suc i) svs) (\<lambda>_ _. True)"
proof -
  note st = detached_step [OF assms, of pid]
  have act: "triple (\<lambda>s. tables s = h \<and> servers s = v) (process_activate p) (\<lambda>_ s. tables s = h \<and> servers s = v) (\<lambda>_ _. True)" for p v
    by (rule triple_post [OF triple_keeps [OF keeps_tables_activate]]) auto
  have stone: "triple (\<lambda>s. tables s = h \<and> servers s = v) (for_each procs (\<lambda>p. if process_free p then retM ()
        else thenM (process_activate p) (modM (tombstone i)))) (\<lambda>_ s. tables s = h \<and> servers s = v) (\<lambda>_ _. True)" for procs v
    by (rule triple_for_each) (auto intro!: triple_ret triple_then [OF act] triple_mod simp: tombstone_def)
  have drop: "triple (\<lambda>s. tables s = h \<and> servers s = detached pid i svs)
      (thenM (unwrapM (process_activate p)) (modM (\<lambda>s. s\<lparr>servers := (servers s)[i := Some (discard_messages_for_pid pid sv)]\<rparr>)))
      (\<lambda>_ s. tables s = h \<and> servers s = detached pid (Suc i) svs) (\<lambda>_ _. True)" if "svs ! i = Some sv" for p sv
    by (rule triple_then [OF triple_unwrap [OF act]], rule triple_mod) (simp add: st that)
  have body: "triple (\<lambda>s. tables s = h \<and> servers s = detached pid i svs) (case svs ! i of None \<Rightarrow> retM ()
      | Some sv \<Rightarrow> thenM (if srv_pid sv = pid then for_each procs (\<lambda>p. if process_free p then retM ()
            else thenM (process_activate p) (modM (tombstone i))) else retM ())
         (if unat (srv_pid sv - 1) \<ge> length procs then panicM
          else thenM (unwrapM (process_activate (procs ! unat (srv_pid sv - 1))))
              (modM (\<lambda>s. s\<lparr>servers := (servers s)[i := Some (discard_messages_for_pid pid sv)]\<rparr>))))
      (\<lambda>_ s. tables s = h \<and> servers s = detached pid (Suc i) svs) (\<lambda>_ _. True)" for procs
  proof (cases "svs ! i")
    case None
    hence "detached pid (Suc i) svs = detached pid i svs" using st by (metis list_update_id option.map_disc_iff)
    thus ?thesis using None by (auto intro!: triple_ret)
  next
    case (Some sv)
    have "triple (\<lambda>s. tables s = h \<and> servers s = detached pid i svs) (if srv_pid sv = pid then for_each procs (\<lambda>p. if process_free p then retM ()
            else thenM (process_activate p) (modM (tombstone i))) else retM ())
        (\<lambda>_ s. tables s = h \<and> servers s = detached pid i svs) (\<lambda>_ _. True)" by (auto intro!: stone triple_ret)
    moreover have "triple (\<lambda>s. tables s = h \<and> servers s = detached pid i svs) (if unat (srv_pid sv - 1) \<ge> length procs then panicM
          else thenM (unwrapM (process_activate (procs ! unat (srv_pid sv - 1))))
              (modM (\<lambda>s. s\<lparr>servers := (servers s)[i := Some (discard_messages_for_pid pid sv)]\<rparr>)))
        (\<lambda>_ s. tables s = h \<and> servers s = detached pid (Suc i) svs) (\<lambda>_ _. True)"
      using drop [OF Some] triple_panic by (cases "unat (srv_pid sv - 1) \<ge> length procs") simp_all
    ultimately show ?thesis unfolding Some option.case by (rule triple_then)
  qed
  have pick: "triple (\<lambda>s. (tables s = h \<and> servers s = detached pid i svs) \<and> (servers s ! i, processes s) = x) (k x) Q R"
    if "\<And>procs. triple (\<lambda>s. tables s = h \<and> servers s = detached pid i svs) (k (svs ! i, procs)) Q R" for x k Q R
    using that [of "snd x"] st(1) by (cases x) (auto simp: triple_def)
  show ?thesis unfolding detach_server_def
    by (rule triple_bind_get, rule pick, unfold prod.case, rule body)
qed

lemma detach_servers:
  assumes "tables s = h" "servers s = svs"
  shows "case for_each [0 ..< length svs] (detach_server pid) s of
    (Ok _, s') \<Rightarrow> tables s' = h \<and> servers s' = map (map_option (discard_messages_for_pid pid)) svs | _ \<Rightarrow> True"
proof -
  have "triple (\<lambda>s. tables s = h \<and> servers s = detached pid 0 svs) (for_each [0 ..< length svs] (detach_server pid))
      (\<lambda>_ s. tables s = h \<and> servers s = detached pid (length svs) svs) (\<lambda>_ _. True)"
    by (rule triple_for_each_upt [where P = "\<lambda>i s. tables s = h \<and> servers s = detached pid i svs"]) (rule detach_server_step)
  from tripleD [OF this, of s] assms show ?thesis by (auto simp: detached_def split: outcome.split)
qed

section \<open>Releasing the tables\<close>

text \<open>Entry by entry: a page of the process is free or the kernel's, any other keeps its owner.\<close>

definition released :: "PID \<Rightarrow> PID option list \<Rightarrow> PID option list \<Rightarrow> bool" where
  "released pid before after = (length after = length before \<and> (\<forall>i < length before.
     if before ! i = Some pid then after ! i = None \<or> after ! i = Some 1 else after ! i = before ! i))"

lemma release_table_Ok: "release_table address pid s tab = Ok tab' \<Longrightarrow> released pid tab tab'"
  by (auto simp: release_table_def released_def release_entry_def split: if_splits option.splits)

lemma release_all_Ok:
  assumes "release_all_memory_for_process pid s = (Ok (), s')"
  shows "released pid (mem_allocs s) (mem_allocs s')" "released pid (extra_allocs s) (extra_allocs s')"
    "irq_handlers s' = irq_handlers s" "irq_mask s' = irq_mask s" "servers s' = servers s"
  using assms
  by (auto simp: irq_mask_def release_all_memory_for_process_def op_defs dest: release_table_Ok split: outcome.splits)

lemma release_lines_frame:
  assumes "release_interrupts_for_pid pid s = (Ok (), s')"
  shows "s' = s\<lparr>irq_handlers := irq_handlers s', sim := sim s', sim_backing := sim_backing s'\<rparr>"
proof -
  let ?core = "\<lambda>s. s\<lparr>irq_handlers := [], sim := 0, sim_backing := 0\<rparr>"
  have "keeps (\<lambda>x. ?core x = ?core s) (for_each xs (release_line pid))" for xs
    unfolding disable_irq_def set_handler_def by (intro keeps_intros) simp_all
  moreover have "for_each [0 ..< length (irq_handlers s)] (release_line pid) s = (Ok (), s')"
    using assms by (simp only: release_interrupts_for_pid_def)
  ultimately have core: "?core s' = ?core s" using keepsD [of "\<lambda>x. ?core x = ?core s"] by blast
  have "s' = (?core s')\<lparr>irq_handlers := irq_handlers s', sim := sim s', sim_backing := sim_backing s'\<rparr>" by simp
  thus ?thesis unfolding core by simp
qed

lemma kernel_frame:
  "mem_allocs (s\<lparr>irq_handlers := h, sim := a, sim_backing := b\<rparr>) = mem_allocs s"
  "extra_allocs (s\<lparr>irq_handlers := h, sim := a, sim_backing := b\<rparr>) = extra_allocs s"
  "servers (s\<lparr>irq_handlers := h, sim := a, sim_backing := b\<rparr>) = servers s"
  by simp_all

lemma process_terminate_Ok:
  assumes "process_terminate idx s = (Ok (), s')" "irq_inv s" and pid: "pid = proc_pid (processes s ! idx)"
  shows "released pid (mem_allocs s) (mem_allocs s') \<and> released pid (extra_allocs s) (extra_allocs s') \<and> irq_inv s' \<and>
    handler_map s' = irq_spec (IRelease pid) (handler_map s) \<and> servers s' = servers s \<and>
    unat pid - 1 < length (proc_table s') \<and> \<not> proc_table s' ! (unat pid - 1)"
proof -
  obtain s1 s2 where run: "release_all_memory_for_process pid s = (Ok (), s1)" "release_interrupts_for_pid pid s1 = (Ok (), s2)"
      "unat pid - 1 < length (proc_table s2)"
      "s' = s2\<lparr>proc_table := (proc_table s2)[unat pid - 1 := False],
         processes := (processes s2)[idx := (processes s2 ! idx)\<lparr>state := PS_Free\<rparr>]\<rparr>"
    using assms by (auto simp: process_terminate_def op_combinators arch_destroy_def Let_def split: if_splits outcome.splits prod.splits)
  note mem = release_all_Ok [OF run(1)]
  have inv: "irq_inv s1" using assms(2) mem(3,4) by (simp add: irq_inv_def)
  have same: "handler_map s1 = handler_map s" using mem(3) by (simp add: handler_map_def fun_eq_iff)
  have irqs: "irq_inv s2" "handler_map s2 = irq_spec (IRelease pid) (handler_map s)"
    using release_all_lines [OF inv, of pid] run(2) same by simp_all
  have s': "irq_inv s' = irq_inv s2" "handler_map s' = handler_map s2" "mem_allocs s' = mem_allocs s2" "extra_allocs s' = extra_allocs s2"
      "servers s' = servers s2" "proc_table s' = (proc_table s2)[unat pid - 1 := False]"
    unfolding run(4) by (simp_all add: irq_inv_def irq_mask_def handler_map_def fun_eq_iff)
  have "mem_allocs s2 = mem_allocs s1" "extra_allocs s2 = extra_allocs s1" "servers s2 = servers s1"
    using release_lines_frame [OF run(2)] by (metis kernel_frame)+
  thus ?thesis using mem(1,2,5) run(3) irqs unfolding s' by simp
qed

section \<open>Termination\<close>

lemma terminate_process_steps:
  assumes "terminate_process pid s = (Ok q, s')"
  obtains s1 p s3 s4 where "for_each [0 ..< length (servers s)] (detach_server pid) s = (Ok (), s1)"
    "p = processes s1 ! pid_idx pid" "process_activate p (s1\<lparr>servers := drop_servers pid (servers s1)\<rparr>) = (Ok (), s3)"
    "process_terminate (pid_idx pid) s3 = (Ok (), s4)" "switch_to_thread (ppid p) None s4 = (Ok (), s')" "q = ppid p"
    "get_process pid (s1\<lparr>servers := drop_servers pid (servers s1)\<rparr>) = (Ok p, s1\<lparr>servers := drop_servers pid (servers s1)\<rparr>)"
proof -
  have g: "get_process pid s = (Ok p, s1) \<Longrightarrow> p = processes s ! pid_idx pid \<and> s1 = s \<and> get_process pid s = (Ok p, s)" for p s s1
    by (auto simp: get_process_def Let_def split: if_splits)
  from assms show ?thesis unfolding terminate_process_def bindM_Ok thenM_Ok unwrapM_Ok basic_Ok
    by (elim exE conjE) (drule g, rule that, simp_all)
qed

lemma tables_irq:
  assumes "tables s1 = tables s"
  shows "irq_inv s1 = irq_inv s" "handler_map s1 = handler_map s" "mem_allocs s1 = mem_allocs s" "extra_allocs s1 = extra_allocs s"
    "processes s1 = processes s"
  using assms by (auto simp: tables_def irq_inv_def handler_map_def fun_eq_iff)

lemma servers_left:
  "drop_servers pid (map (map_option (discard_messages_for_pid pid)) svs) =
   map (\<lambda>sv. case sv of None \<Rightarrow> None | Some srv \<Rightarrow>
     if srv_pid srv = pid then None else Some (srv\<lparr>queue := map (discard_slot pid) (queue srv)\<rparr>)) svs"
  by (auto simp: drop_servers_def discard_messages_for_pid_def split: option.split)

text \<open>
  C25: The end of a process gives back all it held and touches nothing else.
  After \<open>terminate_process\<close> no page of the ownership tables belongs to the
  process (a page is free, or handed to the kernel), while the pages of other
  processes keep their owners; its interrupt lines are free and masked and the
  others stay registered; its servers are gone; in the queues of the other
  servers the lends and blocking scalars that the process has sent and that
  are not yet delivered are marked as terminated, with their fields kept, and
  every other entry (scalars and moved memory of that process, messages that
  wait for a reply, messages of other processes), their order and all
  counters stay as they are; and the process is no longer in the table of
  active processes.
\<close>

theorem terminate_process_releases:
  assumes run: "terminate_process pid s = (Ok q, s')" and inv: "irq_inv s" and pid: "proc_pid (processes s ! pid_idx pid) = pid"
  shows "released pid (mem_allocs s) (mem_allocs s') \<and> released pid (extra_allocs s) (extra_allocs s') \<and>
    handler_map s' = irq_spec (IRelease pid) (handler_map s) \<and> irq_inv s' \<and>
    servers s' = map (\<lambda>sv. case sv of None \<Rightarrow> None | Some srv \<Rightarrow>
      if srv_pid srv = pid then None
      else Some (srv\<lparr>queue := map (\<lambda>m. case m of
          QMemoryMessageROLend p t k a b c d e f \<Rightarrow>
            if p = ucast pid then QMemoryMessageROLendTerminated p t k a b c d e f else m
        | QMemoryMessageRWLend p t k a b c d e f \<Rightarrow>
            if p = ucast pid then QMemoryMessageRWLendTerminated p t k a b c d e f else m
        | QBlockingScalarMessage p t k a b c d e f \<Rightarrow>
            if p = ucast pid then QBlockingScalarTerminated p t k a b c d e f else m
        | _ \<Rightarrow> m) (queue srv)\<rparr>)) (servers s) \<and>
    \<not> proc_table s' ! pid_idx pid"
  using run
proof (cases rule: terminate_process_steps)
  case (1 s1 p s3 s4)
  have l: "tables s1 = tables s" "servers s1 = map (map_option (discard_messages_for_pid pid)) (servers s)"
    using detach_servers [of s "tables s" "servers s" pid] 1(1) by simp_all
  have 3: "tables s3 = tables s" "servers s3 = drop_servers pid (servers s1)"
    using keepsD [OF keeps_tables_activate [of "tables s" "drop_servers pid (servers s1)"] _ 1(3)] l by simp_all
  note t3 = tables_irq [OF 3(1)]
  have 4: "released pid (mem_allocs s) (mem_allocs s4) \<and> released pid (extra_allocs s) (extra_allocs s4) \<and> irq_inv s4 \<and>
    handler_map s4 = irq_spec (IRelease pid) (handler_map s) \<and> servers s4 = servers s3 \<and> \<not> proc_table s4 ! pid_idx pid"
    using process_terminate_Ok [OF 1(4), of pid] inv pid t3 by (simp add: pid_idx_def)
  have "holdings s' = holdings s4" using keepsD [OF keeps_switch_to_thread [of "holdings s4"] _ 1(5)] by simp
  hence h: "mem_allocs s' = mem_allocs s4" "extra_allocs s' = extra_allocs s4" "irq_handlers s' = irq_handlers s4"
    "irq_mask s' = irq_mask s4" "servers s' = servers s4" "proc_table s' = proc_table s4" by (auto simp: holdings_def)
  have "irq_inv s' = irq_inv s4" "handler_map s' = handler_map s4" using h by (simp_all add: irq_inv_def handler_map_def fun_eq_iff)
  thus ?thesis using 4 h l 3 servers_left [unfolded discard_slot_def [abs_def], of pid "servers s"] by simp
qed


text \<open>
  A kernel with the processes 1 and 2; process 2 runs, owns two pages, interrupt
  line 5 and a server, and has sent a blocking scalar and a scalar to a server
  of process 1.
\<close>

definition ending_server :: server where
  "ending_server = \<lparr>srv_sid = SID 5 6 7 8, srv_pid = 1, queue_head = 2, queue_tail = 0, head_generation = 2,
     tail_generation = 0, queue_base = 0x2000,
     queue = [QBlockingScalarMessage 2 3 0 9 0 0 0 0 0, QScalarMessage 2 3 1 8 0 0 0 0 0], ready_threads = 0\<rparr>"

definition ending_space :: space where
  "ending_space = \<lparr>l1 = \<lambda>_. 0, l0 = \<lambda>_ _. 0, hardware_thread = 3, inner = process_inner_default,
     last_tid_allocated = 0, threads = replicate 31 thread_default\<rparr>"

definition ending_kernel :: kernel where
  "ending_kernel = (static_kernel (\<lambda>_. ending_space) 0x80800001 (thread_bit 5) (\<lambda>_. 7))
     \<lparr>ram_start := 0x40000000, ram_size := 0x4000, mem_allocs := [Some 1, Some 2, None, Some 2], table_current := 2,
      proc_table := [True, True],
      processes := [process_free_slot\<lparr>proc_pid := 1, mapping := 0x80400000, state := PS_Ready 4, current_thread := 2\<rparr>,
                    process_free_slot\<lparr>proc_pid := 2, ppid := 1, mapping := 0x80800001, state := PS_Running 0, current_thread := 2\<rparr>],
      servers := [Some ending_server, snd (server_init 2 (SID 1 2 3 4) \<lparr>mr_addr = 0x1000, mr_size = 4096\<rparr> None)],
      irq_handlers := (replicate 32 None)[5 := Some (2, 0x1000, None)]\<rparr>"


lemma ending_loop:
  "\<exists>s1. for_each [0 ..< length (servers ending_kernel)] (detach_server 2) ending_kernel = (Ok (), s1) \<and>
     s1 = ending_kernel\<lparr>servers := servers s1, spaces := spaces s1, satp := 0x80800001, table_current := 2\<rparr> \<and>
     (\<forall>sp. threads (spaces s1 sp) = replicate 31 thread_default \<and> l1 (spaces s1 sp) = (\<lambda>_. 0))"
  by (simp add: op_combinators ending_kernel_def static_kernel_def detach_server_def server_init_def
       process_activate_def set_current_pid_def activate_mapping_def process_current_def tombstone_def upd_inner_def upd_space_def
       process_free_slot_def process_free_def ending_space_def ending_server_def)

lemmas ending_defs = ending_kernel_def static_kernel_def process_free_slot_def

definition ending_before :: "server option list \<Rightarrow> (usize \<Rightarrow> space) \<Rightarrow> kernel" where
  "ending_before svs sps = ending_kernel\<lparr>servers := svs, spaces := sps, satp := 0x80800001, table_current := 2\<rparr>"

lemma ending_terminate:
  assumes "\<And>sp. l1 (sps sp) = (\<lambda>_. 0)"
  shows "\<exists>h a b. process_terminate 1 (ending_before svs sps) = (Ok (), (ending_before svs sps)\<lparr>
     mem_allocs := [Some 1, None, None, None], irq_handlers := h, sim := a, sim_backing := b, proc_table := [True, False],
     processes := (processes ending_kernel)[1 := (processes ending_kernel ! 1)\<lparr>state := PS_Free\<rparr>]\<rparr>)"
proof -
  let ?s = "ending_before svs sps" let ?s1 = "?s\<lparr>mem_allocs := [Some 1, None, None, None]\<rparr>"
  have lent: "page_is_lent a ?s = False" for a
    by (simp add: page_is_lent_def pagetable_entry_def ending_before_def assms l1_valid_def Let_def)
  have tab: "mem_allocs ?s = [Some 1, Some 2, None, Some 2]" "extra_allocs ?s = []"
    by (simp_all add: ending_before_def ending_defs)
  have addr: "i < 4 \<Longrightarrow> allocation_offset_to_address i ?s = Some (0x40000000 + of_nat i * PAGE_SIZE)" for i
    by (simp add: allocation_offset_to_address_def ending_before_def ending_defs)
  have "release_table (\<lambda>i. allocation_offset_to_address i ?s) 2 ?s [Some 1, Some 2, None, Some 2] = Ok [Some 1, None, None, None]"
    by (simp add: release_table_def addr release_entry_def lent upt_rec)
  hence mem: "release_all_memory_for_process 2 ?s = (Ok (), ?s1)"
    by (simp add: release_all_memory_for_process_def op_combinators tab release_table_def [of _ _ _ "[]"])
  have inv: "irq_inv ?s1" by (auto simp: irq_inv_def ending_before_def ending_defs irq_mask_def nth_list_update thread_bit_at)
  obtain s2 where irqs: "release_interrupts_for_pid 2 ?s1 = (Ok (), s2)"
    using release_lines [OF inv, of 32 2] inv by (auto simp: release_interrupts_for_pid_def irq_inv_def)
  obtain h a b where s2: "s2 = ?s1\<lparr>irq_handlers := h, sim := a, sim_backing := b\<rparr>" using release_lines_frame [OF irqs] by blast
  have p: "processes ?s ! 1 = processes ending_kernel ! 1" "proc_pid (processes ending_kernel ! 1) = 2"
      "\<not> process_free (processes ending_kernel ! 1)" "proc_table s2 = [True, True]" "processes s2 = processes ending_kernel"
    by (simp_all add: s2 ending_before_def ending_defs process_free_def)
  have "process_terminate 1 ?s = (Ok (), s2\<lparr>proc_table := [True, False],
      processes := (processes ending_kernel)[1 := (processes ending_kernel ! 1)\<lparr>state := PS_Free\<rparr>]\<rparr>)"
    using mem irqs p by (simp add: process_terminate_def op_combinators arch_destroy_def)
  thus ?thesis unfolding s2 by (rule_tac x = h in exI, rule_tac x = a in exI, rule_tac x = b in exI) simp
qed

lemma ending_runs: "\<exists>q s'. terminate_process 2 ending_kernel = (Ok q, s') \<and> length (processes s') = 2 \<and> \<not> process_free (processes s' ! 0)"
proof -
  obtain s1 where loop: "for_each [0 ..< length (servers ending_kernel)] (detach_server 2) ending_kernel = (Ok (), s1)"
    and s1: "s1 = ending_kernel\<lparr>servers := servers s1, spaces := spaces s1, satp := 0x80800001, table_current := 2\<rparr>"
    and sp: "\<And>sp. threads (spaces s1 sp) = replicate 31 thread_default" "\<And>sp. l1 (spaces s1 sp) = (\<lambda>_. 0)"
    using ending_loop by blast
  let ?b = "ending_before (drop_servers 2 (servers s1)) (spaces s1)"
  have b: "s1\<lparr>servers := drop_servers 2 (servers s1)\<rparr> = ?b" by (subst (1) s1) (simp add: ending_before_def)
  have get: "get_process 2 ?b = (Ok (processes ending_kernel ! 1), ?b)"
    by (simp add: get_process_def ending_before_def ending_defs pid_idx_def mapping_get_pid_def process_free_def nz_new_def Let_def)
  have act: "process_activate (processes ending_kernel ! 1) ?b = (Ok (), ?b)"
    by (simp add: process_activate_def op_combinators set_current_pid_def activate_mapping_def process_current_def ending_before_def ending_defs Let_def)
  obtain h a c where ended: "process_terminate 1 ?b = (Ok (), ?b\<lparr>mem_allocs := [Some 1, None, None, None], irq_handlers := h, sim := a,
     sim_backing := c, proc_table := [True, False],
     processes := (processes ending_kernel)[1 := (processes ending_kernel ! 1)\<lparr>state := PS_Free\<rparr>]\<rparr>)" (is "_ = (_, ?d)")
    using ending_terminate [of "spaces s1"] sp(2) by blast
  have "\<exists>s'. switch_to_thread 1 None ?d = (Ok (), s') \<and> length (processes s') = 2 \<and> \<not> process_free (processes s' ! 0)"
    by (simp add: upd_process_def upd_inner_def upd_space_def switch_to_thread_def op_combinators get_process_def ending_before_def ending_defs pid_idx_def mapping_get_pid_def
        process_free_def nz_new_def chosen_thread_def find_next_thread_def trailing_zeros_def debruijn_table_def thread_bit_def
        process_activate_def set_current_pid_def activate_mapping_def process_current_def current_set_tid_def set_tid_def fixup_irq_def
        tid_defs sp set_current_thread_def set_state_def push_bit_eq_mult Let_def)
  moreover have "ppid (processes ending_kernel ! 1) = 1" "pid_idx 2 = 1" by (simp_all add: ending_defs pid_idx_def)
  ultimately show ?thesis
    using loop get act ended b by (auto simp: terminate_process_def op_combinators)
qed

theorem terminate_process_releases_witness:
  "\<exists>q s'. terminate_process 2 ending_kernel = (Ok q, s') \<and>
     released 2 [Some 1, Some 2, None, Some 2] (mem_allocs s') \<and> handler_map s' 5 = None \<and>
     servers s' = [Some (ending_server\<lparr>queue := [QBlockingScalarTerminated 2 3 0 9 0 0 0 0 0, QScalarMessage 2 3 1 8 0 0 0 0 0]\<rparr>), None]"
proof -
  obtain q s' where run: "terminate_process 2 ending_kernel = (Ok q, s')" using ending_runs by auto
  have "irq_inv ending_kernel" "proc_pid (processes ending_kernel ! pid_idx 2) = 2"
    by (auto simp: irq_inv_def ending_defs irq_mask_def nth_list_update thread_bit_at pid_idx_def)
  note rel = terminate_process_releases [OF run this]
  have "mem_allocs ending_kernel = [Some 1, Some 2, None, Some 2]" "handler_map ending_kernel 5 = Some (2, 0x1000, None)"
    "\<exists>srv. srv_pid srv = 2 \<and> servers ending_kernel = [Some ending_server, Some srv]"
    by (simp_all add: ending_defs handler_map_def server_init_def)
  moreover have "irq_spec (IRelease 2) m 5 = None" if "m 5 = Some (2, 0x1000, None)" for m
    using that by (simp add: handler_owned_def)
  moreover have "srv_pid ending_server = 1"
      "queue ending_server = [QBlockingScalarMessage 2 3 0 9 0 0 0 0 0, QScalarMessage 2 3 1 8 0 0 0 0 0]"
    by (simp_all add: ending_server_def)
  ultimately show ?thesis using run rel by auto
qed


section \<open>Pages on loan\<close>

lemma main_slot_address:
  assumes "tables_inv s" "page_aligned a" "is_main_memory a s"
  shows "\<exists>i < length (mem_allocs s). page_slot a s = Some (MainSlot i) \<and> allocation_offset_to_address i s = Some a"
proof -
  let ?i = "unat (a - ram_start s) div 4096"
  have slot: "page_slot a s = Some (MainSlot ?i)" using assms(3) by (simp add: page_slot_def)
  have i: "?i < length (mem_allocs s)" using page_slot_range [OF assms(1) slot] by simp
  have "of_nat ?i * PAGE_SIZE + ram_start s = a"
    by (rule page_slot_inj [OF assms(1)]) (use main_slot_addr(1,2) [OF assms(1) i] slot assms(2) in simp_all)
  thus ?thesis using i slot assms(1) by (auto simp: allocation_offset_to_address_def tables_inv_def add.commute)
qed

lemma release_all_entry:
  assumes run: "release_all_memory_for_process pid s = (Ok (), s')" and own: "owner a s = Some pid"
    and a: "tables_inv s" "page_aligned a" "is_main_memory a s" and lent: "\<not> page_is_lent a s"
  shows "owner a s' = None \<and> spaces s' = spaces s"
proof -
  obtain i where i: "i < length (mem_allocs s)" "page_slot a s = Some (MainSlot i)" "allocation_offset_to_address i s = Some a"
    using main_slot_address [OF a] by blast
  obtain tab where tab: "release_table (\<lambda>i. allocation_offset_to_address i s) pid s (mem_allocs s) = Ok tab" "mem_allocs s' = tab"
      and same: "ram_start s' = ram_start s" "ram_size s' = ram_size s" "extra_regions s' = extra_regions s" "spaces s' = spaces s"
    using run by (auto simp: release_all_memory_for_process_def op_combinators split: outcome.splits)
  have "mem_allocs s ! i = Some pid" using own i by (simp add: owner_def)
  hence "tab ! i = None" using tab(1) i lent by (auto simp: release_table_def release_entry_def split: if_splits)
  thus ?thesis using tab(2) same page_slot_frame [OF same(1-3), of a] i(2) by (simp add: owner_def)
qed

text \<open>
  C26: A process that ends while one of its pages is on loan leaves the borrower
  with a frame that nobody owns.  \<open>release_all_memory_for_process\<close> means to
  keep such a page by handing it to the kernel, but asks \<open>page_is_lent\<close> about
  the physical address as if it were a virtual one; unless that address
  happens to be a lent page of the active space, the frame becomes free, while
  the borrower still translates its address to it.
\<close>

theorem dying_lender_frees_loan:
  assumes "two_spaces src dst s" "user_page a" "user_page d"
    and "lend_page_inner src a borrower dst d mutable s = (Ok phys, s1)"
    and "owner phys s1 = Some lender" "is_main_memory phys s1" "\<not> page_is_lent phys s1"
    and "release_all_memory_for_process lender s1 = (Ok (), s2)"
  shows "virt_to_phys d (activate_mapping dst s2) = Ok phys \<and> owner phys s2 = None"
proof -
  note l = lend_page_Ok [OF assms(1-4)]
  have inv: "tables_inv s1" using l(1) by (simp add: two_spaces_def)
  note r = release_all_entry [OF assms(8,5) inv _ assms(6,7)]
  have "virt_to_phys d (activate_mapping dst s1) = Ok phys"
    using l(5) l(9) user_page_facts(3) [OF assms(3)] loan_entry_bits by (auto simp: virt_to_phys_leaf leaf_phys_def)
  moreover have "virt_to_phys d (activate_mapping dst s2) = virt_to_phys d (activate_mapping dst s1)"
    using r l(5) by (simp add: virt_to_phys_leaf)
  ultimately show ?thesis using r l(5) by simp
qed

text \<open>The clean-up of the tables never panics.\<close>

lemma offset_in_regions_Some:
  "i < sum_list (map (\<lambda>r. unat (mem_size r) div 4096) rs) \<Longrightarrow> offset_in_regions rs i \<noteq> None"
  by (induction rs arbitrary: i) auto

lemma release_all_total:
  assumes "tables_inv s"
  shows "\<exists>s'. release_all_memory_for_process pid s = (Ok (), s')"
proof -
  have "allocation_offset_to_address i s \<noteq> None" if "i < length (mem_allocs s)" for i
    using assms that by (simp add: allocation_offset_to_address_def tables_inv_def)
  moreover have "offset_in_regions (extra_regions s) i \<noteq> None" if "i < length (extra_allocs s)" for i
    using assms that offset_in_regions_Some by (simp add: tables_inv_def)
  ultimately show ?thesis
    by (force simp: release_all_memory_for_process_def op_combinators release_table_def allocation_offset_to_address_extra_def)
qed

definition ram_view :: "usize \<Rightarrow> usize \<Rightarrow> 'z mstate_scheme \<Rightarrow> bool" where
  "ram_view a n s = (ram_start s = a \<and> ram_size s = n)"

interpretation rv: switch_view "ram_view a n" for a n
  by unfold_locales (simp_all add: ram_view_def)

theorem dying_lender_frees_loan_witness:
  "\<exists>s1 s2. lend_page_inner 0x80800001 0x400000 3 0x80c00002 0x40000000 True demo_two = (Ok 0x40002000, s1) \<and>
     owner 0x40002000 s1 = Some 2 \<and> release_all_memory_for_process 2 s1 = (Ok (), s2) \<and>
     virt_to_phys 0x40000000 (activate_mapping 0x80c00002 s2) = Ok 0x40002000 \<and> owner 0x40002000 s2 = None"
proof -
  obtain s1 where l: "lend_page_inner 0x80800001 0x400000 3 0x80c00002 0x40000000 True demo_two = (Ok 0x40002000, s1)"
    by (rule demo_lend)
  note ok = lend_page_Ok [OF demo_two_spaces demo_user_page l]
  have "ram_view 0x40000000 0x4000 s1"
    using keepsD [OF rv.keeps_lend_inner _ l, of "0x40000000" "0x4000"] by (simp add: ram_view_def demo_two_def demo_mem_def)
  hence main: "is_main_memory 0x40002000 s1" by (simp add: ram_view_def is_main_memory_def)
  have "owner 0x40002000 demo_two = Some 2" by (simp add: owner_def page_slot_def is_main_memory_def demo_two_def demo_mem_def)
  moreover have "page_aligned 0x40002000" by (simp add: page_aligned_def)
  ultimately have own: "owner 0x40002000 s1 = Some 2" using ok(2) unfolding new_pages_only_def by fastforce
  have v: "vpn1 0x40002000 = 256" "vpn0 0x40002000 = 2" by (simp_all add: vpn1_def vpn0_def)
  have "leaf (spaces s1 0x80800001) 256 2 = 0"
    using ok(8) [of 256 2] by (simp add: demo_vpn) (simp add: demo_two_def leaf_def one_page_def windows_only_def)
  hence lent: "\<not> page_is_lent 0x40002000 s1"
    using ok(1) leaf_pte [of s1 256 2] v
    by (auto simp: page_is_lent_def pagetable_entry_Ok two_spaces_def split: outcome.splits)
  obtain s2 where r: "release_all_memory_for_process 2 s1 = (Ok (), s2)"
    using release_all_total [of s1 2] ok(1) by (auto simp: two_spaces_def)
  from dying_lender_frees_loan [OF demo_two_spaces demo_user_page l own main lent r] l own r show ?thesis by blast
qed

end
