(* ===== verification/Message_Passing.thy ===== *)
theory Message_Passing
  imports Connections Kernel_Syscall
begin

text \<open>
  The message calls across components: the connection table finds the server,
  the server's queue keeps the order, and the receiving call hands the message
  over with the identity of its sender.  Only the process that owns a server
  can receive from it, reply for it or destroy it.
\<close>

section \<open>Sending into a queue\<close>

lemma with_server_run:
  assumes "servers s ! i = Some sv" "i < length (servers s)" "length (servers s) \<le> 128"
  shows "with_server (of_nat i) m s = (case m sv of (r, sv') \<Rightarrow> (r, s\<lparr>servers := (servers s)[i := Some sv']\<rparr>))"
    "server_from_sidx (of_nat i) s = (Ok (Some sv), s)"
proof -
  have "unat (of_nat i :: usize) = i" using assms by (simp add: unat_of_nat)
  thus "with_server (of_nat i) m s = (case m sv of (r, sv') \<Rightarrow> (r, s\<lparr>servers := (servers s)[i := Some sv']\<rparr>))"
    "server_from_sidx (of_nat i) s = (Ok (Some sv), s)"
    using assms by (simp_all add: with_server_def server_from_sidx_def bindM_def)
qed

text \<open>The current process is in its own space, and it and the owner of the server are in the process table.\<close>

definition sends_to :: "kernel \<Rightarrow> server \<Rightarrow> bool" where
  "sends_to s sv = (\<exists>sp cp. get_process (srv_pid sv) s = (Ok sp, s) \<and> get_process (table_current s) s = (Ok cp, s) \<and> mapping cp = satp s)"

lemma get_process_run:
  assumes "get_process pid s = (Ok p, s)" "processes s' = processes s"
  shows "get_process pid s' = (Ok p, s')"
  using assms by (auto simp: get_process_def Let_def split: if_splits)

lemma queue_server_message_run:
  assumes sv: "servers s ! i = Some sv" "i < length (servers s)" "length (servers s) \<le> 128" and to: "sends_to s sv"
    and run: "queue_message pid tid msg addr sv = (r, sv')" "r \<noteq> Panic"
  shows "queue_server_message (of_nat i) pid tid msg addr s =
    ((case r of Ok k \<Rightarrow> Ok (of_nat k) | Err e \<Rightarrow> Err e | Panic \<Rightarrow> Panic), s\<lparr>servers := (servers s)[i := Some sv']\<rparr>)"
proof -
  obtain sp cp where p: "get_process (srv_pid sv) s = (Ok sp, s)" "get_process (table_current s) s = (Ok cp, s)" "mapping cp = satp s"
    using to by (auto simp: sends_to_def)
  let ?t = "activate_mapping (mapping sp) s"
  have w: "with_server (of_nat i) (queue_message pid tid msg addr) ?t = (r, ?t\<lparr>servers := (servers s)[i := Some sv']\<rparr>)"
    using with_server_run(1) [of ?t i sv "queue_message pid tid msg addr"] sv run by (simp add: activate_mapping_def)
  have g: "get_process (table_current s) (?t\<lparr>servers := svs\<rparr>) = (Ok cp, ?t\<lparr>servers := svs\<rparr>)" for svs
    by (rule get_process_run [OF p(2)]) (simp add: activate_mapping_def)
  show ?thesis
    using w g run(2) p with_server_run(2) [OF sv]
    by (cases r) (simp_all add: queue_server_message_def bindM_def thenM_def getM_def modM_def liftO_def tryM_def unwrapM_def
      retM_def failM_def activate_mapping_def)
qed

lemma conn_of_bound:
  assumes "conn_good s" "conn_of s cid = Some i"
  shows "i < length (servers s) \<and> length (servers s) \<le> 128"
proof -
  obtain v where v: "unat (cid - 2) < length (conn_table s)" "conn_table s ! unat (cid - 2) = Some v" "\<not> v < 2" "i = unat (v - 2)"
    using assms(2) by (auto simp: conn_of_def split: if_splits elim!: entry_server.elims)
  have "entry_ok (servers s) (Some v)" using assms(1) v(1,2) unfolding conn_good_def list_all_length by metis
  thus ?thesis using assms(1) v(3,4) by (simp add: entry_ok_def conn_good_def)
qed

lemma take_available_none: "ready_threads sv = 0 \<Longrightarrow> take_available_thread sv = (Ok None, sv)"
  by (simp add: take_available_thread_def)

lemma sendable_scalar: "pid \<noteq> 0 \<Longrightarrow> sendable pid (Scalar m) addr"
  by (simp add: sendable_def)

lemma send_scalar_run:
  assumes good: "conn_good s" and conn: "conn_of s cid = Some i" and sv: "servers s ! i = Some sv"
    and ready: "ready_threads sv = 0" and to: "sends_to s sv" and run: "queue_message pid tid (Scalar m) None sv = (r, sv')" "r \<noteq> Panic"
  shows "send_message pid tid cid (Scalar m) s =
    ((case r of Ok k \<Rightarrow> Ok R_Ok | Err e \<Rightarrow> Err e | Panic \<Rightarrow> Panic), s\<lparr>servers := (servers s)[i := Some sv']\<rparr>)"
proof -
  have i: "i < length (servers s)" "length (servers s) \<le> 128" using conn_of_bound [OF good conn] by auto
  note w = with_server_run [OF sv i]
  have t: "with_server (of_nat i) take_available_thread s = (Ok None, s)"
    using w(1) [of take_available_thread] take_available_none [OF ready] sv i by (simp add: list_update_same_conv)
  show ?thesis
    using queue_server_message_run [OF sv i to run] w(2) t conn run(2)
    by (cases r) (simp_all add: send_message_def sidx_from_cid_eq [OF good] bindM_def thenM_def liftO_def Let_def translate_message_def
      retM_def client_address_of_def)
qed

section \<open>Receiving\<close>

lemma queue_message_ids:
  "queue_message pid tid msg addr sv = (r, sv') \<Longrightarrow> srv_pid sv' = srv_pid sv \<and> srv_sid sv' = srv_sid sv"
  by (auto simp: queue_message_def advance_head_def split: if_splits option.splits)

text \<open>The calling thread is the running thread of process \<open>pid\<close>.\<close>

definition running_thread :: "PID \<Rightarrow> TID \<Rightarrow> kernel \<Rightarrow> bool" where
  "running_thread pid tid s = (\<exists>p x. get_process pid s = (Ok p, s) \<and> state p = PS_Running x \<and> \<not> tid_in tid x)"

lemma thread_is_running_run: "running_thread pid tid s \<Longrightarrow> thread_is_running pid tid s = (Ok True, s)"
  by (auto simp: running_thread_def thread_is_running_def bindM_def unwrapM_def retM_def)

lemma receive_message_run:
  assumes runs: "running_thread pid tid s" and sidx: "sidx_from_sid sid pid s = Some (of_nat i)"
    and sv: "servers s ! i = Some sv" "i < length (servers s)" "length (servers s) \<le> 128" "srv_pid sv = pid"
    and q: "queue_inv sv" "fifo sv = m # ms"
  shows "\<exists>e sv'. receive_message pid tid sid b s = (Ok (R_MessageEnvelope e), s\<lparr>servers := (servers s)[i := Some sv']\<rparr>) \<and>
    env_body e = p_msg m \<and> sender_pid (env_sender e) = nz_new (ucast (p_pid m)) \<and> queue_inv sv' \<and> fifo sv' = ms"
proof -
  obtain k sv' where t: "take_next_message (of_nat i) sv =
      (Ok (Some \<lparr>env_sender = deliver_sender (of_nat i) k (p_pid m), env_body = p_msg m\<rparr>), sv')" "queue_inv sv'" "fifo sv' = ms"
    using take_next_cons [OF q, of "of_nat i"] by blast
  have "receive_message pid tid sid b s =
      (Ok (R_MessageEnvelope \<lparr>env_sender = deliver_sender (of_nat i) k (p_pid m), env_body = p_msg m\<rparr>), s\<lparr>servers := (servers s)[i := Some sv']\<rparr>)"
    using with_server_run(1) [OF sv(1-3), of "take_next_message (of_nat i)"] with_server_run(2) [OF sv(1-3)] thread_is_running_run [OF runs] t(1) sv(4) sidx
    by (simp add: receive_message_def bindM_def thenM_def assertM_def getM_def liftO_def retM_def)
  thus ?thesis using t(2,3) by auto
qed

section \<open>Other processes' servers\<close>

lemma reply_server_denied:
  assumes "servers s ! unat (sid_sidx sender) = Some sv" "unat (sid_sidx sender) < length (servers s)" "srv_pid sv \<noteq> pid"
  shows "reply_server pid sender s = (Err ServerNotFound, s)"
  using assms by (simp add: reply_server_def server_from_sidx_def bindM_def liftO_def failM_def)

section \<open>Properties\<close>

text \<open>
  C27: A scalar message reaches the server behind the connection, in order, with
  the sender's identity.  When no thread of the server is waiting, sending
  either reports \<open>ServerQueueFull\<close>, with nothing changed and every slot of the
  queue taken, or appends the message to that server's queue and changes
  nothing else in the kernel.  In that case, once a thread of the server runs
  and receives, it gets the oldest message of that queue, labelled with the
  process id of its sender, and the rest stays queued.
\<close>

theorem scalar_message_delivered:
  assumes good: "conn_good s" and conn: "conn_of s cid = Some i" and sv: "servers s ! i = Some sv" "queue_inv sv"
    and ready: "ready_threads sv = 0" and to: "sends_to s sv" and pid: "pid \<noteq> 0"
    and run: "handle pid tid in_irq (SC_TrySendMessage cid (Scalar m)) s = (r, s1)"
  shows "r = Err ServerQueueFull \<and> s1 = s \<and> (\<forall>k < 128. queue sv ! k \<noteq> QEmpty) \<or>
    r = Ok R_Ok \<and> (\<exists>sv'. s1 = s\<lparr>servers := (servers s)[i := Some sv']\<rparr> \<and> fifo sv' = fifo sv @ [pending_of pid tid (Scalar m) None] \<and>
      (\<forall>s2 tid2 q qs. servers s2 = servers s1 \<and> running_thread (srv_pid sv) tid2 s2 \<and>
         sidx_from_sid (srv_sid sv) (srv_pid sv) s2 = Some (of_nat i) \<and> fifo sv' = q # qs \<longrightarrow>
         (\<exists>e s3 sv''. handle (srv_pid sv) tid2 False (SC_ReceiveMessage (srv_sid sv)) s2 = (Ok (R_MessageEnvelope e), s3) \<and>
           env_body e = p_msg q \<and> sender_pid (env_sender e) = nz_new (ucast (p_pid q)) \<and>
           s3 = s2\<lparr>servers := (servers s2)[i := Some sv'']\<rparr> \<and> fifo sv'' = qs)))"
proof -
  obtain rq sv' where qm: "queue_message pid tid (Scalar m) None sv = (rq, sv')" by fastforce
  note q = queue_message_cases [OF sv(2) sendable_scalar [OF pid], of tid m None, unfolded qm]
  have i: "i < length (servers s)" "length (servers s) \<le> 128" using conn_of_bound [OF good conn] by auto
  have snd: "send_message pid tid cid (Scalar m) s = (r, s1)" using run by (auto simp: handle_def can_call_from_interrupt_def handle_inner_def)
  show ?thesis
  proof (cases rq)
    case (Ok k)
    have s1: "r = Ok R_Ok" "s1 = s\<lparr>servers := (servers s)[i := Some sv']\<rparr>"
      using send_scalar_run [OF good conn sv(1) ready to qm] snd Ok by simp_all
    have q': "queue_inv sv'" "fifo sv' = fifo sv @ [pending_of pid tid (Scalar m) None]" using q Ok by auto
    have "\<exists>e s3 sv''. handle (srv_pid sv) tid2 False (SC_ReceiveMessage (srv_sid sv)) s2 = (Ok (R_MessageEnvelope e), s3) \<and>
           env_body e = p_msg x \<and> sender_pid (env_sender e) = nz_new (ucast (p_pid x)) \<and>
           s3 = s2\<lparr>servers := (servers s2)[i := Some sv'']\<rparr> \<and> fifo sv'' = xs"
      if "servers s2 = servers s1" "running_thread (srv_pid sv) tid2 s2"
        "sidx_from_sid (srv_sid sv) (srv_pid sv) s2 = Some (of_nat i)" "fifo sv' = x # xs" for s2 tid2 x xs
      using receive_message_run [OF that(2,3), of sv' x xs Blocking] that(1,4) s1 i q'(1) queue_message_ids [OF qm]
      by (auto simp: handle_def handle_inner_def)
    thus ?thesis using s1 q'(2) by blast
  next
    case (Err e)
    hence "sv' = sv" "e = ServerQueueFull" "\<forall>k < 128. queue sv ! k \<noteq> QEmpty" using q by auto
    moreover have "s\<lparr>servers := (servers s)[i := Some sv]\<rparr> = s" using sv(1) i by (simp add: list_update_same_conv)
    ultimately show ?thesis using send_scalar_run [OF good conn sv(1) ready to qm] snd Err by simp
  qed (use q in simp)
qed

text \<open>A kernel in which process 1 runs and has a connection (id 2) to the server of process 3.\<close>

definition client_kernel :: kernel where
  "client_kernel = (static_kernel (\<lambda>_. \<lparr>l1 = \<lambda>_. 0, l0 = \<lambda>_ _. 0, hardware_thread = 3,
       inner = process_inner_default\<lparr>connection_map := (replicate 32 None)[0 := Some 2]\<rparr>,
       last_tid_allocated = 0, threads = replicate 31 thread_default\<rparr>) 0x80400000 0 (\<lambda>_. 7))
     \<lparr>processes := [process_free_slot\<lparr>mapping := 0x80400000, state := PS_Running 0\<rparr>, process_free_slot,
                    process_free_slot\<lparr>mapping := 0x80c00002, proc_pid := 3, state := PS_Ready 4\<rparr>],
      servers := [Some fresh_server]\<rparr>"

lemma client_kernel_ok:
  "conn_good client_kernel" "conn_of client_kernel 2 = Some 0" "servers client_kernel ! 0 = Some fresh_server"
  "sends_to client_kernel fresh_server"
proof -
  have inner: "cur_inner client_kernel = process_inner_default\<lparr>connection_map := (replicate 32 None)[0 := Some 2]\<rparr>"
      "table_current client_kernel = 1" "servers client_kernel = [Some fresh_server]" "satp client_kernel = 0x80400000"
    by (simp_all add: client_kernel_def static_kernel_def cur_inner_def)
  show "conn_good client_kernel" "conn_of client_kernel 2 = Some 0"
    by (simp_all add: conn_good_def conn_of_def inner process_inner_default_def list_all_length nth_list_update entry_ok_def)
  show "servers client_kernel ! 0 = Some fresh_server" by (simp add: inner)
  have "srv_pid fresh_server = 3" by (simp add: fresh_server_def server_init_def)
  thus "sends_to client_kernel fresh_server"
    by (simp add: sends_to_def inner get_process_def client_kernel_def static_kernel_def pid_idx_def mapping_get_pid_def
        process_free_def process_free_slot_def nz_new_def Let_def)
qed

theorem scalar_message_delivered_witness:
  "\<exists>s1 sv'. handle 1 2 False (SC_TrySendMessage 2 (Scalar \<lparr>sc_id = 9, sc_arg1 = 1, sc_arg2 = 2, sc_arg3 = 3, sc_arg4 = 4\<rparr>)) client_kernel = (Ok R_Ok, s1) \<and>
     servers s1 = [Some sv'] \<and> length (fifo sv') = 1"
proof -
  let ?m = "\<lparr>sc_id = 9, sc_arg1 = 1, sc_arg2 = 2, sc_arg3 = 3, sc_arg4 = 4\<rparr>"
  obtain r s1 where run: "handle 1 2 False (SC_TrySendMessage 2 (Scalar ?m)) client_kernel = (r, s1)" by fastforce
  have sv: "ready_threads fresh_server = 0" "queue fresh_server ! 0 = QEmpty" "servers client_kernel = [Some fresh_server]"
    by (simp_all add: fresh_server_def server_init_def client_kernel_def)
  have "\<not> (\<forall>k < 128. queue fresh_server ! k \<noteq> QEmpty)" using sv(2) by (metis zero_less_numeral)
  hence "r = Ok R_Ok \<and> (\<exists>sv'. s1 = client_kernel\<lparr>servers := (servers client_kernel)[0 := Some sv']\<rparr> \<and> fifo sv' = fifo fresh_server @ [pending_of 1 2 (Scalar ?m) None])"
    using scalar_message_delivered [OF client_kernel_ok(1-3) fresh_server_inv(1) sv(1) client_kernel_ok(4) _ run] by auto
  thus ?thesis using run by (auto simp: sv(3) simp del: fifo_length)
qed

text \<open>
  C28: Only its owner can act for a server.  A reply of any kind to a message of
  a server that belongs to another process, a receive on a server id the
  caller does not own, and an attempt to destroy one all fail with
  \<open>ServerNotFound\<close> and leave the kernel as it was.
\<close>

theorem foreign_server_denied:
  assumes "servers s ! unat (sid_sidx (sender_id_from_usize sender)) = Some sv"
    and "unat (sid_sidx (sender_id_from_usize sender)) < length (servers s)" and "srv_pid sv \<noteq> pid"
    and "sidx_from_sid sid pid s = None" and "running_thread pid tid s"
    and "call \<in> {SC_ReturnScalar1 sender a1, SC_ReturnScalar2 sender a1 a2, SC_ReturnScalar5 sender a1 a2 a3 a4 a5,
      SC_ReturnMemory sender rng off valid, SC_ReplyAndReceiveNext sender a0 a1 a2 a3 a4 a5,
      SC_ReceiveMessage sid, SC_TryReceiveMessage sid, SC_DestroyServer sid}"
  shows "handle pid tid False call s = (Err ServerNotFound, s)"
  using assms(6) assms(4) reply_server_denied [OF assms(1-3)] thread_is_running_run [OF assms(5)]
  by (auto simp: handle_def handle_inner_def return_result_def sys_return_memory_def reply_and_receive_next_def receive_message_def
      destroy_server_def Let_def bindM_def thenM_def assertM_def getM_def liftO_def retM_def failM_def)

theorem foreign_server_denied_witness:
  "handle 1 2 False (SC_DestroyServer (SID 1 2 3 4)) client_kernel = (Err ServerNotFound, client_kernel)"
proof -
  have "sender_id_from_usize 0 = \<lparr>sid_sidx = 0, sid_idx = 0, sid_pid = None\<rparr>" by (simp add: sender_id_from_usize_def)
  moreover have "srv_pid fresh_server = 3" by (simp add: fresh_server_def server_init_def)
  moreover have "servers client_kernel = [Some fresh_server]" by (simp add: client_kernel_def)
  moreover have "running_thread 1 2 client_kernel"
    by (simp add: running_thread_def get_process_def client_kernel_def static_kernel_def pid_idx_def mapping_get_pid_def
        process_free_def process_free_slot_def nz_new_def Let_def)
  ultimately show ?thesis
    by (intro foreign_server_denied [where sender = 0 and sv = fresh_server and sid = "SID 1 2 3 4"])
      (simp_all add: sidx_from_sid_def)
qed

end
