(* ===== verification/Address_Search.thy ===== *)
theory Address_Search
  imports Message_Passing
begin

text \<open>
  The search for a free range of virtual addresses, \<open>find_virtual_address\<close> of
  \<open>kernel/src/mem.rs\<close>: where the range it finds lies, that every page of it is
  free, and what happens to a request whose end wraps around the 32-bit
  address space.
\<close>

section \<open>Stepping through pages\<close>

lemma step_by_page_in:
  assumes "x \<in> set (step_by_page a b)" "page_aligned a"
  shows "unat a \<le> unat x \<and> unat x < unat b \<and> page_aligned x"
proof -
  obtain k where k: "x = a + of_nat k * PAGE_SIZE" "k < (unat b - unat a + 4095) div 4096"
    using assms(1) by (auto simp: step_by_page_def)
  have kb: "unat a + k * 4096 < unat b" using k(2) by linarith
  have b: "unat b < 2 ^ 32" using unsigned_less [of b, where 'a = nat] by simp
  have "unat (of_nat k :: usize) = k" using kb b by (simp add: unat_of_nat)
  moreover have "unat (of_nat k * PAGE_SIZE :: usize) = k * 4096"
    using unat_mult_lem [of "of_nat k" PAGE_SIZE] calculation kb b by (simp add: PAGE_SIZE_def)
  ultimately have x: "unat x = unat a + k * 4096"
    using unat_add_lem [of a "of_nat k * PAGE_SIZE"] kb b k(1) by simp
  thus ?thesis using kb assms(2) by (simp add: page_aligned_iff)
qed

lemma step_by_page_wrapped: "unat b \<le> unat a \<Longrightarrow> step_by_page a b = []"
  by (simp add: step_by_page_def)

lemma step_by_page_first: "a < b \<Longrightarrow> \<exists>ps. step_by_page a b = a # ps"
proof -
  assume "a < b"
  hence "0 < (unat b - unat a + 4095) div 4096" by (simp add: word_less_nat_alt div_greater_zero_iff)
  thus ?thesis by (simp add: step_by_page_def upt_conv_Cons)
qed

lemma step_by_page_covers:
  assumes "unat a + unat n < 2 ^ 32" "4096 * k < unat n"
  shows "a + of_nat k * PAGE_SIZE \<in> set (step_by_page a (a + n))"
proof -
  have "unat (a + n) = unat a + unat n" using assms(1) unat_add_lem [of a n] by simp
  moreover have "k < (unat n + 4095) div 4096" using assms(2) by linarith
  ultimately show ?thesis by (auto simp: step_by_page_def)
qed

lemma search_range_Some:
  assumes "search_range start end_addr initial sz s = Some a" "page_aligned start" "page_aligned initial"
  shows "range_free a sz s \<and> page_aligned a \<and>
    (unat initial \<le> unat a \<and> unat a < unat (end_addr - sz) \<or> unat start \<le> unat a \<and> unat a < unat initial)"
  using assms step_by_page_in
  by (fastforce simp: search_range_def find_Some_iff dest: nth_mem split: option.splits)

section \<open>The windows of a process\<close>

text \<open>
  A window of \<open>n\<close> bytes at \<open>base\<close>, and the address in it where the next search
  starts.  A range of at most \<open>n\<close> bytes that starts in the window ends below
  the top of the address space.
\<close>

definition window_ok :: "nat \<Rightarrow> usize \<Rightarrow> usize \<Rightarrow> bool" where
  "window_ok n base last' = (page_aligned base \<and> page_aligned last' \<and> unat base + 2 * n < 2 ^ 32 \<and>
     unat base \<le> unat last' \<and> unat last' < unat base + n)"

definition windows_ok :: "process_inner \<Rightarrow> bool" where
  "windows_ok p = (window_ok 0x10000000 (mem_default_base p) (mem_default_last p) \<and>
     window_ok 0x400000 (mem_message_base p) (mem_message_last p))"


lemma windows_ok_default: "windows_ok process_inner_default"
  by (simp add: windows_ok_def window_ok_def process_inner_default_def page_aligned_def DEFAULT_BASE_def DEFAULT_MESSAGE_BASE_def)

lemma range_free_pages:
  assumes "range_free a sz s" "unat a + unat sz < 2 ^ 32" "4096 * k < unat sz"
  shows "address_available (a + of_nat k * PAGE_SIZE) s"
  using assms step_by_page_covers [OF assms(2,3)] by (auto simp: range_free_def list_all_iff)

definition range_found :: "nat \<Rightarrow> usize \<Rightarrow> usize \<Rightarrow> usize \<Rightarrow> usize \<Rightarrow> 'z mstate_scheme \<Rightarrow> bool" where
  "range_found n base last' sz a s = (window_ok n base a \<and> (\<forall>k. 4096 * k < unat sz \<longrightarrow> address_available (a + of_nat k * PAGE_SIZE) s) \<and>
     (unat a + unat sz \<le> unat base + n \<or> unat a < unat last'))"

lemma search_window:
  assumes w: "window_ok n base last'" and sz: "unat sz \<le> n" and find: "search_range base (base + of_nat n) last' sz s = Some a"
  shows "range_found n base last' sz a s"
proof -
  have n: "n < 2 ^ 32" using w by (simp add: window_ok_def)
  have "unat (of_nat n :: usize) = n" using n by (simp add: unat_of_nat)
  hence e: "unat (base + of_nat n) = unat base + n" using w unat_add_lem [of base "of_nat n"] by (simp add: window_ok_def)
  hence "unat (base + of_nat n - sz) = unat base + n - unat sz" using sz by (simp add: unat_sub word_le_nat_alt)
  hence a: "window_ok n base a" "range_free a sz s" "unat a + unat sz \<le> unat base + n \<or> unat a < unat last'"
    using search_range_Some [OF find] w sz by (auto simp: window_ok_def)
  moreover have "unat a + unat sz < 2 ^ 32" using a(1) sz by (auto simp: window_ok_def)
  ultimately show ?thesis using range_free_pages by (auto simp: range_found_def)
qed

section \<open>Properties\<close>

text \<open>
  C29: The address the kernel chooses for a request is inside the window of its
  kind.  For default and message memory, when the request is no larger than
  the window, a successful search returns a page-aligned address of the
  window at which every page of the requested range is unmapped; the range
  ends inside the window or starts below the address of the last search; only
  the address for the next search changes, and the windows stay valid.
\<close>

theorem find_virtual_address_bounds:
  assumes win: "windows_ok (cur_inner s)" and run: "find_virtual_address 0 sz kind s = (Ok a, s')"
    and kind: "kind = MT_Default \<and> unat sz \<le> 0x10000000 \<or> kind = MT_Messages \<and> unat sz \<le> 0x400000"
  shows "(if kind = MT_Default then range_found 0x10000000 (mem_default_base (cur_inner s)) (mem_default_last (cur_inner s)) sz a s
       else range_found 0x400000 (mem_message_base (cur_inner s)) (mem_message_last (cur_inner s)) sz a s) \<and>
    windows_ok (cur_inner s') \<and>
    s' = upd_inner (\<lambda>p. if kind = MT_Default then p\<lparr>mem_default_last := a\<rparr> else p\<lparr>mem_message_last := a\<rparr>) s"
proof (cases "kind = MT_Default")
  case True
  let ?p = "cur_inner s"
  have f: "search_range (mem_default_base ?p) (mem_default_base ?p + of_nat 0x10000000) (mem_default_last ?p) sz s = Some a"
    "s' = upd_inner (\<lambda>p. p\<lparr>mem_default_last := a\<rparr>) s"
    using run True by (auto simp: find_virtual_address_def Let_def split: option.splits)
  have "cur_inner s' = ?p\<lparr>mem_default_last := a\<rparr>" by (simp add: f(2) cur_inner_def upd_inner_def upd_space_def)
  thus ?thesis using search_window [OF _ _ f(1)] win kind True f(2) by (auto simp: windows_ok_def range_found_def)
next
  case False
  let ?p = "cur_inner s"
  have f: "search_range (mem_message_base ?p) (mem_message_base ?p + of_nat 0x400000) (mem_message_last ?p) sz s = Some a"
    "s' = upd_inner (\<lambda>p. p\<lparr>mem_message_last := a\<rparr>) s"
    using run False kind by (auto simp: find_virtual_address_def Let_def split: option.splits)
  have "cur_inner s' = ?p\<lparr>mem_message_last := a\<rparr>" by (simp add: f(2) cur_inner_def upd_inner_def upd_space_def)
  thus ?thesis using search_window [OF _ _ f(1)] win kind False f(2) by (auto simp: windows_ok_def range_found_def)
qed

theorem find_virtual_address_bounds_witness:
  "\<exists>s'. find_virtual_address 0 0x2000 MT_Messages client_kernel = (Ok 0x40000000, s') \<and>
     address_available 0x40001000 client_kernel \<and> windows_ok (cur_inner s')"
proof -
  let ?s = client_kernel
  have p: "cur_inner ?s = process_inner_default\<lparr>connection_map := (replicate 32 None)[0 := Some 2]\<rparr>"
    by (simp add: client_kernel_def static_kernel_def cur_inner_def)
  have "address_available v ?s" for v
    by (simp add: address_available_def virt_to_phys_def l1_valid_def client_kernel_def static_kernel_def Let_def FLG_VALID_def)
  hence "range_free v sz ?s" for v sz by (simp add: range_free_def list_all_iff)
  moreover obtain ps where "step_by_page (0x40000000 :: usize) (0x40000000 + 0x400000 - 0x2000) = 0x40000000 # ps"
    using step_by_page_first [of "0x40000000" "0x40000000 + 0x400000 - 0x2000"] by auto
  ultimately obtain s' where run: "find_virtual_address 0 0x2000 MT_Messages ?s = (Ok 0x40000000, s')"
    by (simp add: find_virtual_address_def Let_def p process_inner_default_def DEFAULT_MESSAGE_BASE_def search_range_def)
  have "windows_ok (cur_inner ?s)" using windows_ok_default by (simp add: p windows_ok_def)
  from find_virtual_address_bounds [OF this run] run show ?thesis
    by (auto simp: range_found_def PAGE_SIZE_def dest: spec [of _ 1])
qed

text \<open>
  C30: A request whose end wraps around the address space is granted without
  reserving a single page.  The search subtracts the size from the end of the
  window without checking it, and the loop over the pages of a candidate is
  empty when the candidate plus the size wraps; \<open>MapMemory\<close> then answers with a
  range of the requested size and leaves the kernel as it was.
\<close>

theorem oversized_map_accepted:
  assumes "sz AND 0xfff = 0" "sz \<noteq> 0" "flags AND MF_DEV = 0" "flags AND MF_VIRT = 0"
    and "base = mem_default_base (cur_inner s)" "last' = mem_default_last (cur_inner s)" "page_aligned last'" "last' \<noteq> 0"
    and "last' + sz \<le> last'" "last' < base + 0x10000000 - sz"
  shows "handle pid tid False (SC_MapMemory None None sz flags) s = (Ok (R_MemoryRange \<lparr>mr_addr = last', mr_size = sz\<rparr>), s)"
proof -
  have w: "step_by_page last' (last' + sz) = []" using assms(9) by (simp add: step_by_page_wrapped word_le_nat_alt)
  obtain ps where "step_by_page last' (base + 0x10000000 - sz) = last' # ps" using step_by_page_first [OF assms(10)] by blast
  hence "search_range base (base + 0x10000000) last' sz s = Some last'" using w by (simp add: search_range_def range_free_def)
  moreover have "upd_inner (\<lambda>p. p\<lparr>mem_default_last := last'\<rparr>) s = s"
    by (simp add: upd_inner_def upd_space_def assms(6) cur_inner_def)
  ultimately have f: "find_virtual_address 0 sz MT_Default s = (Ok last', s)"
    using assms(5,6) by (simp add: find_virtual_address_def Let_def)
  have nf: "find_virtual_address last' sz MT_Default s = (Ok last', s)" using assms(8) by (simp add: find_virtual_address_def)
  have fl: "flags AND MF_DEV \<noteq> MF_DEV" "flags AND MF_VIRT \<noteq> MF_VIRT" using assms(3,4) by (auto simp: MF_DEV_def MF_VIRT_def)
  have "map_range 0 0 sz pid flags MT_Default s = (Ok \<lparr>mr_addr = last', mr_size = sz\<rparr>, s)"
    using f nf fl w assms(1,2,7,8)
    by (simp add: map_range_def reserve_range_def bindM_def thenM_def liftO_def retM_def memory_range_new_def page_aligned_def Let_def)
  thus ?thesis using assms(1)
    by (simp add: handle_def handle_inner_def sys_map_memory_def Let_def bindM_def thenM_def retM_def PAGE_SIZE_def)
qed

theorem oversized_map_accepted_witness:
  "handle 1 2 False (SC_MapMemory None None 0xF0000000 6) client_kernel =
     (Ok (R_MemoryRange \<lparr>mr_addr = 0x60000000, mr_size = 0xF0000000\<rparr>), client_kernel)"
proof -
  have "cur_inner client_kernel = process_inner_default\<lparr>connection_map := (replicate 32 None)[0 := Some 2]\<rparr>"
    by (simp add: client_kernel_def static_kernel_def cur_inner_def)
  thus ?thesis
    by (intro oversized_map_accepted [where base = "0x60000000"])
      (simp_all add: process_inner_default_def DEFAULT_BASE_def page_aligned_def MF_DEV_def MF_VIRT_def)
qed

end
