(* ===== verification/Kernel_Errors.thy ===== *)
theory Kernel_Errors
  imports Message_Passing Termination
begin

text \<open>
  Requests the kernel does not survive or cannot honour: calls that a process
  can make and that panic the kernel, and the slot of a terminated process,
  which no later process can have.
\<close>

section \<open>The slot of a terminated process\<close>

lemma process_terminate_slot:
  assumes "process_terminate idx s = (Ok (), s')"
  shows "processes s' = (processes s)[idx := (processes s ! idx)\<lparr>state := PS_Free\<rparr>]"
proof -
  let ?pid = "proc_pid (processes s ! idx)"
  obtain s1 s2 where run: "release_all_memory_for_process ?pid s = (Ok (), s1)" "release_interrupts_for_pid ?pid s1 = (Ok (), s2)"
      "processes s' = (processes s2)[idx := (processes s2 ! idx)\<lparr>state := PS_Free\<rparr>]"
    using assms by (auto simp: process_terminate_def op_combinators arch_destroy_def Let_def split: if_splits outcome.splits prod.splits)
  have "processes s1 = processes s"
    using run(1) by (auto simp: release_all_memory_for_process_def op_combinators split: outcome.splits)
  moreover have "processes s2 = processes s1" by (subst release_lines_frame [OF run(2)]) simp
  ultimately show ?thesis using run(3) by simp
qed

text \<open>The thread switch at the end of \<open>terminate_process\<close> touches only the slot of the process it switches to.\<close>

lemma processes_upd [simp]:
  "processes (upd_space f s) = processes s" "processes (upd_inner g s) = processes s" "processes (activate_mapping m s) = processes s"
  "processes (put_thread k th s) = processes s" "processes (upd_thread k h s) = processes s"
  "processes (s\<lparr>table_current := c\<rparr>) = processes s"
  by (simp_all add: upd_space_def upd_inner_def activate_mapping_def put_thread_def upd_thread_def)

lemma keeps_entry [keeps_intros]:
  "keeps (\<lambda>s. processes s ! i = x) (get_process pid)" "keeps (\<lambda>s. processes s ! i = x) process_current"
  "keeps (\<lambda>s. processes s ! i = x) (set_current_pid pid)" "keeps (\<lambda>s. processes s ! i = x) (set_tid tid)"
  "keeps (\<lambda>s. processes s ! i = x) (thread_index tid)"
  by (rule keepsI; auto simp: get_process_def process_current_def set_current_pid_def set_tid_def thread_index_def Let_def split: if_splits)+

lemma keeps_entry_steps [keeps_intros]:
  "keeps (\<lambda>s. processes s ! i = x) (process_activate p)" "keeps (\<lambda>s. processes s ! i = x) (arch_setup_thread tid ti)"
  "keeps (\<lambda>s. processes s ! i = x) (current_set_tid tid)" "keeps (\<lambda>s. processes s ! i = x) (chosen_thread t ready cur)"
  "pid_idx pid \<noteq> i \<Longrightarrow> keeps (\<lambda>s. processes s ! i = x) (set_state pid st)"
  "pid_idx pid \<noteq> i \<Longrightarrow> keeps (\<lambda>s. processes s ! i = x) (set_current_thread pid tid)"
  unfolding process_activate_def arch_setup_thread_def current_set_tid_def chosen_thread_def set_state_def set_current_thread_def Let_def
  by (intro keeps_intros; simp add: upd_process_def)+

lemma keeps_entry_switch:
  assumes "pid_idx pid \<noteq> i" shows "keeps (\<lambda>s. processes s ! i = x) (switch_to_thread pid tid)"
  unfolding switch_to_thread_def Let_def
  by (rule keeps_bind, rule keeps_intros, split ProcessState.split) (auto intro!: keeps_intros assms)

lemma switch_to_free:
  assumes "switch_to_thread pid tid s = (Ok (), s')" "process_free (processes s ! i)"
  shows "processes s' ! i = processes s ! i"
proof -
  obtain p t where "get_process pid s = (Ok p, t)" using assms(1) unfolding switch_to_thread_def bindM_Ok
    by (elim exE conjE) (rule that)
  then have "pid_idx pid \<noteq> i" using assms(2) by (auto simp: get_process_def Let_def split: if_splits)
  from keepsD [OF keeps_entry_switch [OF this] refl assms(1)] show ?thesis by simp
qed

lemma terminate_process_slot:
  assumes "terminate_process pid s = (Ok q, s')"
  shows "processes s' ! pid_idx pid = (processes s ! pid_idx pid)\<lparr>state := PS_Free\<rparr>" "mapping (processes s ! pid_idx pid) \<noteq> 0"
proof -
  let ?i = "pid_idx pid"
  obtain s1 p s3 s4 where 1: "for_each [0 ..< length (servers s)] (detach_server pid) s = (Ok (), s1)"
    "p = processes s1 ! ?i" "process_activate p (s1\<lparr>servers := drop_servers pid (servers s1)\<rparr>) = (Ok (), s3)"
    "process_terminate ?i s3 = (Ok (), s4)" "switch_to_thread (ppid p) None s4 = (Ok (), s')"
    "get_process pid (s1\<lparr>servers := drop_servers pid (servers s1)\<rparr>) = (Ok p, s1\<lparr>servers := drop_servers pid (servers s1)\<rparr>)"
    by (rule terminate_process_steps [OF assms]) (rule that)
  have "tables s1 = tables s" using detach_servers [of s "tables s" "servers s" pid] 1(1) by simp
  then have l: "processes s1 = processes s" by (rule tables_irq(5))
  have "tables s3 = tables s1"
    using keepsD [OF keeps_tables_activate [of "tables s1" "drop_servers pid (servers s1)"] _ 1(3)] by simp
  then have 3: "processes s3 = processes s" using tables_irq(5) l by metis
  have i: "?i < length (processes s)" "mapping_get_pid (mapping (processes s ! ?i)) = Some pid"
    using 1(6) l by (auto simp: get_process_def Let_def split: if_splits)
  then show "mapping (processes s ! ?i) \<noteq> 0" by (auto simp: mapping_get_pid_def nz_new_def)
  have 4: "processes s4 ! ?i = (processes s ! ?i)\<lparr>state := PS_Free\<rparr>"
    using process_terminate_slot [OF 1(4)] 3 i(1) by simp
  with switch_to_free [OF 1(5), of ?i] show "processes s' ! ?i = (processes s ! ?i)\<lparr>state := PS_Free\<rparr>"
    by (simp add: process_free_def)
qed

text \<open>What \<open>create_process\<close> does when the first free slot still has a mapping.\<close>

lemma create_in_mapped_slot:
  assumes "length (processes t) \<le> 64" "idx < length (processes t)" "process_free (processes t ! idx)"
    and "mapping (processes t ! idx) \<noteq> 0" "\<forall>j < idx. \<not> process_free (processes t ! j)"
  shows "\<exists>t'. handle pid tid False (SC_CreateProcess init) t = (Err InternalError, t') \<and>
     state (processes t' ! idx) = PS_Allocated \<and> mapping (processes t' ! idx) = mapping (processes t ! idx)"
proof -
  have "find (\<lambda>i. process_free (processes t ! i)) [0 ..< length (processes t)] = Some idx"
    unfolding find_Some_iff using assms(2,3,5) by (intro exI [of _ idx]) auto
  moreover have "\<exists>p. pid_from_usize (of_nat idx + 1) = Ok p"
  proof -
    have "unat (of_nat idx + 1 :: usize) = idx + 1" using assms(1,2) by (simp add: unat_word_ariths unat_of_nat)
    moreover from this have "unat (ucast (of_nat idx + 1 :: usize) :: u8) = idx + 1"
      using assms(1,2) by (simp add: unsigned_ucast_eq take_bit_nat_eq_self)
    hence "(ucast (of_nat idx + 1 :: usize) :: u8) \<noteq> 0" by (metis add_is_0 one_neq_zero unsigned_0)
    ultimately show ?thesis using assms(1,2) by (simp add: pid_from_usize_def word_less_nat_alt)
  qed
  ultimately show ?thesis using assms(2,4)
    by (auto simp: handle_def handle_inner_def create_process_def bindM_def thenM_def getM_def modM_def liftO_def map_errM_def
        allocate_mapping_def failM_def)
qed

text \<open>
  C31: The slot of a terminated process is not fit for a new one.  When
  \<open>terminate_process\<close> succeeds, the slot of the process is free but still holds
  the mapping of the dead process, which is not empty.  In every state in which
  that slot is the first free one and still holds a mapping, \<open>CreateProcess\<close>,
  which takes the first free slot of the table (of at most 64), fails with
  \<open>InternalError\<close>, because \<open>MemoryMapping::allocate\<close> refuses a mapping that is in
  use, and it leaves the slot marked as allocated with that mapping.
\<close>

theorem terminated_slot_lost:
  assumes "terminate_process pid s = (Ok q, s')" "idx = pid_idx pid"
  shows "process_free (processes s' ! idx) \<and> mapping (processes s' ! idx) = mapping (processes s ! idx) \<and>
    mapping (processes s' ! idx) \<noteq> 0 \<and>
    (\<forall>t caller tid init. length (processes t) \<le> 64 \<longrightarrow> idx < length (processes t) \<longrightarrow>
       process_free (processes t ! idx) \<longrightarrow> mapping (processes t ! idx) \<noteq> 0 \<longrightarrow>
       (\<forall>j < idx. \<not> process_free (processes t ! j)) \<longrightarrow>
       (\<exists>t'. handle caller tid False (SC_CreateProcess init) t = (Err InternalError, t') \<and>
          state (processes t' ! idx) = PS_Allocated \<and> mapping (processes t' ! idx) = mapping (processes t ! idx)))"
  using terminate_process_slot [OF assms(1)] create_in_mapped_slot assms(2) by (simp add: process_free_def)

theorem terminated_slot_lost_witness:
  "\<exists>q s' s''. terminate_process 2 ending_kernel = (Ok q, s') \<and>
     handle 1 2 False (SC_CreateProcess \<lparr>pi_stack = \<lparr>mr_addr = 0x1000, mr_size = 0x1000\<rparr>, pi_text = \<lparr>mr_addr = 0x2000, mr_size = 0x1000\<rparr>,
       pi_text_destination = 0x2000, pi_start = 0x2000\<rparr>) s' = (Err InternalError, s'') \<and> state (processes s'' ! 1) = PS_Allocated"
proof -
  obtain q s' where run: "terminate_process 2 ending_kernel = (Ok q, s')" "length (processes s') = 2" "\<not> process_free (processes s' ! 0)"
    using ending_runs by blast
  have "1 = pid_idx 2" by (simp add: pid_idx_def)
  note lost = terminated_slot_lost [OF run(1) this]
  note create = lost [THEN conjunct2, THEN conjunct2, THEN conjunct2, THEN spec [of _ s'], THEN spec [of _ 1], THEN spec [of _ 2], THEN spec]
  have "\<exists>s''. handle 1 2 False (SC_CreateProcess init) s' = (Err InternalError, s'') \<and> state (processes s'' ! 1) = PS_Allocated" for init
    using create [of init] lost run(2,3) by (auto simp: less_Suc_eq)
  then show ?thesis using run(1) by blast
qed

section \<open>Panics within reach of a process\<close>

text \<open>
  C32: System calls any process can make, outside an interrupt handler, that
  panic the kernel: in every state with the 32 interrupt lines and 128 servers
  of this platform, \<open>PlatformSpecific\<close>, which the platform does not implement;
  claiming or freeing interrupt line 32, one past the last, which the range
  check lets through; and every reply (\<open>ReturnScalar1\<close>, \<open>ReturnScalar2\<close>,
  \<open>ReturnScalar5\<close>, \<open>ReturnMemory\<close> and \<open>ReplyAndReceiveNext\<close>) to a sender id of
  server 128, for the same reason.  \<open>Yield\<close> panics when no \<open>SwitchTo\<close> is
  outstanding.
\<close>

theorem calls_that_panic:
  assumes "length (irq_handlers s) = 32" "length (servers s) = 128"
    and "sid_sidx (sender_id_from_usize sender) = 128"
    and "call \<in> {SC_PlatformSpecific a1 a2 a3 a4 a5 a6 a7, SC_ClaimInterrupt 32 f arg, SC_FreeInterrupt 32,
      SC_ReturnScalar1 sender a1, SC_ReturnScalar2 sender a1 a2, SC_ReturnScalar5 sender a1 a2 a3 a4 a5,
      SC_ReturnMemory sender buf offset valid, SC_ReplyAndReceiveNext sender a1 a2 a3 a4 a5 a6} \<or>
      call = SC_Yield \<and> switchto_caller s = None"
  shows "handle pid tid False call s = (Panic, s)"
proof -
  have "reply_server pid (sender_id_from_usize sender) s = (Panic, s)"
    using assms(2,3) by (simp add: reply_server_def server_from_sidx_def bindM_def)
  then show ?thesis using assms(1,4)
    by (auto simp: handle_def handle_inner_def do_yield_def take_caller_def interrupt_claim_def interrupt_free_def return_result_def
        sys_return_memory_def reply_and_receive_next_def bindM_def thenM_def panicM_def Let_def)
qed

theorem calls_that_panic_witness:
  "handle 1 2 False (SC_ClaimInterrupt 32 0x1000 None) demo_irqs = (Panic, demo_irqs) \<and>
   handle 1 2 False (SC_ReturnScalar1 0x800000 7) (demo_irqs\<lparr>switchto_caller := Some (3, 4)\<rparr>) =
     (Panic, demo_irqs\<lparr>switchto_caller := Some (3, 4)\<rparr>) \<and>
   handle 1 2 False (SC_ReplyAndReceiveNext 0x800000 0 0 0 0 0 0) demo_irqs = (Panic, demo_irqs) \<and>
   handle 1 2 False SC_Yield demo_irqs = (Panic, demo_irqs)"
proof -
  have s: "length (irq_handlers demo_irqs) = 32" "length (servers demo_irqs) = 128" "switchto_caller demo_irqs = None"
    by (simp_all add: demo_irqs_def static_kernel_def MAX_SERVER_COUNT_def)
  then have s2: "length (irq_handlers (demo_irqs\<lparr>switchto_caller := Some (3, 4)\<rparr>)) = 32"
    "length (servers (demo_irqs\<lparr>switchto_caller := Some (3, 4)\<rparr>)) = 128" by simp_all
  have sid: "sid_sidx (sender_id_from_usize 0x800000) = 128" by (simp add: sender_id_from_usize_def)
  note panics = calls_that_panic [OF s(1,2) sid] calls_that_panic [OF s2 sid]
  show ?thesis
    by (intro conjI; (rule panics(1) | rule panics(2)); (blast | simp add: s(3)))
qed

end
