(* ===== verification/Swap_Epoch.thy ===== *)
theory Swap_Epoch
  imports Xous_Defs "HOL-Library.Multiset"
begin

text \<open>
  The age of pages in a kernel built with the \<open>swap\<close> feature: \<open>MinSet\<close> of
  \<open>kernel/src/utils.rs\<close>, \<open>renormalize_allocs\<close> of \<open>kernel/src/mem.rs\<close> and
  \<open>Swap::next_epoch\<close> of \<open>kernel/src/swap.rs\<close>.  Every use of a page stamps it
  with the next epoch; when the 32-bit counter runs out, the stamps in the
  allocation table are compacted, 64 distinct values per pass, and the
  counter goes on after the largest one.

  The loop of \<open>renormalize_allocs\<close> takes fuel, one unit per pass; a pass that
  is not the last one compacts 64 values, so as many units as the table has
  entries, and one more, are enough.
\<close>

section \<open>The set of the smallest values\<close>

definition RENORM_PASS_SIZE :: nat where "RENORM_PASS_SIZE = 64"

type_synonym min_set = "u32 list"

definition min_set_new :: min_set where
  "min_set_new = replicate RENORM_PASS_SIZE (- 1)"

definition min_set_max :: "min_set \<Rightarrow> u32" where
  "min_set_max ms = ms ! (RENORM_PASS_SIZE - 1)"

definition min_set_insert :: "u32 \<Rightarrow> min_set \<Rightarrow> min_set" where
  "min_set_insert item ms =
     (if item \<in> set ms then ms
      else if item < ms ! (RENORM_PASS_SIZE - 1) then sort (ms[RENORM_PASS_SIZE - 1 := item])
      else ms)"

definition index_of :: "u32 \<Rightarrow> min_set \<Rightarrow> nat option" where
  "index_of data ms = find (\<lambda>i. ms ! i = data) [0 ..< length ms]"

section \<open>Renormalisation\<close>

record swap_alloc =
  timestamp :: u32
  vpn :: u32

definition collect_pass :: "u32 \<Rightarrow> swap_alloc list \<Rightarrow> min_set" where
  "collect_pass min_search_limit allocs =
     fold (\<lambda>d ms. if timestamp d \<ge> min_search_limit then min_set_insert (timestamp d) ms else ms) allocs min_set_new"

definition remap :: "u32 \<Rightarrow> min_set \<Rightarrow> swap_alloc \<Rightarrow> swap_alloc" where
  "remap min_search_limit ms d = (case index_of (timestamp d) ms of
     None \<Rightarrow> d | Some i \<Rightarrow> d\<lparr>timestamp := of_nat i + min_search_limit\<rparr>)"

fun renorm_loop :: "nat \<Rightarrow> u32 \<Rightarrow> swap_alloc list \<Rightarrow> swap_alloc list option" where
  "renorm_loop 0 min_search_limit allocs = None"
| "renorm_loop (Suc fuel) min_search_limit allocs =
     (let ms = collect_pass min_search_limit allocs;
          allocs' = map (remap min_search_limit ms) allocs
      in if min_set_max ms = - 1 then Some allocs'
         else renorm_loop fuel (min_search_limit + of_nat RENORM_PASS_SIZE) allocs')"

text \<open>The table after the loop and the largest stamp; \<open>max().unwrap()\<close> panics on an empty table.\<close>

definition renormalize_allocs :: "swap_alloc list \<Rightarrow> (swap_alloc list \<times> u32) option" where
  "renormalize_allocs allocs = (case renorm_loop (length allocs + 1) 0 allocs of
     None \<Rightarrow> None
   | Some allocs' \<Rightarrow> if allocs' = [] then None else Some (allocs', Max (timestamp ` set allocs')))"

text \<open>
  \<open>Swap::next_epoch\<close> on the counter and the allocation table.  The interrupt
  mask is cleared around the renormalisation and put back, which leaves it as
  it was.
\<close>

definition next_epoch :: "u32 \<Rightarrow> swap_alloc list \<Rightarrow> (u32 \<times> swap_alloc list) option" where
  "next_epoch epoch allocs =
     (if epoch < - 1 - 1 then Some (epoch + 1, allocs)
      else map_option (\<lambda>(allocs', m). (m + 1, allocs')) (renormalize_allocs allocs))"

text \<open>
  \<open>SwapAlloc\<close> and the fields of \<open>Swap\<close> it uses.  \<open>vpn\<close> is a virtual page number
  in the upper bits, the \<open>WIRED\<close> flag in bit 8 and the process id in the low
  byte.  The entry is one of the table that \<open>next_epoch\<close> may renormalise, so
  the operations take its index.
\<close>

definition SWAP_FLG_WIRED :: u32 where "SWAP_FLG_WIRED = 0x100"

record swap =
  swap_epoch :: u32
  used_pages :: usize

definition is_pid :: "PID \<Rightarrow> swap_alloc \<Rightarrow> bool" where
  "is_pid pid a = ((ucast (vpn a) :: u8) = pid)"

definition alloc_is_none :: "swap_alloc \<Rightarrow> bool" where
  "alloc_is_none a = ((ucast (vpn a) :: u8) = 0)"

definition alloc_is_some :: "swap_alloc \<Rightarrow> bool" where
  "alloc_is_some a = ((ucast (vpn a) :: u8) \<noteq> 0)"

definition alloc_get_pid :: "swap_alloc \<Rightarrow> PID option" where
  "alloc_get_pid a = (if (ucast (vpn a AND 0xff) :: u8) = 0 then None else Some (ucast (vpn a)))"

definition set_wired :: "swap_alloc \<Rightarrow> swap_alloc" where
  "set_wired a = a\<lparr>vpn := vpn a OR SWAP_FLG_WIRED\<rparr>"

definition track_alloc :: "bool \<Rightarrow> swap \<Rightarrow> swap" where
  "track_alloc is_alloc s = s\<lparr>used_pages :=
     (if is_alloc then (if used_pages s = - 1 then - 1 else used_pages s + 1)
      else (if used_pages s = 0 then 0 else used_pages s - 1))\<rparr>"

text \<open>Stamp entry \<open>i\<close> with the next epoch, then change it.\<close>

definition stamp :: "nat \<Rightarrow> (swap_alloc \<Rightarrow> swap_alloc) \<Rightarrow> swap \<Rightarrow> swap_alloc list \<Rightarrow> (swap \<times> swap_alloc list) option" where
  "stamp i f s allocs = map_option (\<lambda>(e, allocs').
     (s\<lparr>swap_epoch := e\<rparr>, allocs'[i := f ((allocs' ! i)\<lparr>timestamp := e\<rparr>)])) (next_epoch (swap_epoch s) allocs)"

definition alloc_touch :: "nat \<Rightarrow> swap \<Rightarrow> swap_alloc list \<Rightarrow> (swap \<times> swap_alloc list) option" where
  "alloc_touch i = stamp i id"

definition alloc_reparent :: "nat \<Rightarrow> PID \<Rightarrow> swap \<Rightarrow> swap_alloc list \<Rightarrow> (swap \<times> swap_alloc list) option" where
  "alloc_reparent i pid = stamp i (\<lambda>a. a\<lparr>vpn := vpn a AND NOT 0xff OR ucast pid\<rparr>)"

definition update_vpn :: "PID option \<Rightarrow> usize option \<Rightarrow> swap_alloc \<Rightarrow> swap_alloc" where
  "update_vpn pid vaddr a = (case pid of
     None \<Rightarrow> a\<lparr>vpn := 0\<rparr>
   | Some pid \<Rightarrow> (case vaddr of
       Some va \<Rightarrow> a\<lparr>vpn := va AND NOT 0xfff OR ucast pid OR vpn a AND SWAP_FLG_WIRED OR (if pid = 2 then SWAP_FLG_WIRED else 0)\<rparr>
     | None \<Rightarrow> a\<lparr>vpn := SWAP_FLG_WIRED OR ucast pid\<rparr>))"

definition alloc_update :: "nat \<Rightarrow> PID option \<Rightarrow> usize option \<Rightarrow> swap \<Rightarrow> swap_alloc list \<Rightarrow> (swap \<times> swap_alloc list) option" where
  "alloc_update i pid vaddr s allocs =
     map_option (\<lambda>(s', allocs'). (track_alloc (pid \<noteq> None) s', allocs')) (stamp i (update_vpn pid vaddr) s allocs)"

text \<open>A sequence of uses of pages, and the position (from 1) of the last use of a page in it; 0 for a page it does not use.\<close>

datatype page_use = Touch nat | Reparent nat PID | Update nat "PID option" "usize option"

primrec page_of :: "page_use \<Rightarrow> nat" where
  "page_of (Touch i) = i"
| "page_of (Reparent i pid) = i"
| "page_of (Update i pid vaddr) = i"

primrec use_page :: "page_use \<Rightarrow> swap \<times> swap_alloc list \<Rightarrow> (swap \<times> swap_alloc list) option" where
  "use_page (Touch i) st = alloc_touch i (fst st) (snd st)"
| "use_page (Reparent i pid) st = alloc_reparent i pid (fst st) (snd st)"
| "use_page (Update i pid vaddr) st = alloc_update i pid vaddr (fst st) (snd st)"

definition use_pages :: "page_use list \<Rightarrow> swap \<times> swap_alloc list \<Rightarrow> (swap \<times> swap_alloc list) option" where
  "use_pages us st = fold (\<lambda>u r. Option.bind r (use_page u)) us (Some st)"

definition last_use :: "page_use list \<Rightarrow> nat \<Rightarrow> nat" where
  "last_use us i = fold (\<lambda>(n, u) r. if page_of u = i then Suc n else r) (enumerate 0 us) 0"

section \<open>Inserting keeps the smallest values\<close>

text \<open>The content of the set after a set of values was inserted.\<close>

definition smallest :: "u32 set \<Rightarrow> min_set" where
  "smallest S = take 64 (sorted_list_of_set S @ replicate 64 (- 1))"

lemma take_insort:
  assumes "sorted xs" "0 < n" "n \<le> length xs"
  shows "take n (insort x xs) = (if x < xs ! (n - 1) then insort x (take (n - 1) xs) else take n xs) \<or> x = xs ! (n - 1)"
  using assms
proof (induction xs arbitrary: n)
  case (Cons y ys)
  show ?case
  proof (cases "n = 1")
    case False
    then obtain m where m: "n = Suc m" "0 < m" using Cons.prems(2) by (cases n) auto
    have IH: "take m (insort x ys) = (if x < ys ! (m - 1) then insort x (take (m - 1) ys) else take m ys) \<or> x = ys ! (m - 1)"
      using Cons m by auto
    have le: "y \<le> ys ! (m - 1)" using Cons.prems m by auto
    have nth: "(y # ys) ! (n - 1) = ys ! (m - 1)" using m by (simp add: nth_Cons')
    obtain k where k: "m = Suc k" using m by (cases m) auto
    show ?thesis using IH le nth m k by (auto simp: take_Cons' insort_is_Cons split: if_splits)
  qed auto
qed simp

lemma insort_append: "\<forall>z \<in> set zs. x < z \<Longrightarrow> insort x (xs @ zs) = insort x xs @ zs"
  by (induction xs) (auto simp: insort_is_Cons less_imp_le)

lemma word_le_minus_one [simp]: "(x :: u32) \<le> - 1"
  by (simp add: word_order.extremum)

lemma word_less_minus_one [simp]: "(x :: u32) < - 1 \<longleftrightarrow> x \<noteq> - 1"
  by (simp add: word_order.not_eq_extremum)

lemma sorted_padded: "sorted (sorted_list_of_set (S :: u32 set) @ replicate 64 (- 1))"
  by (simp add: sorted_append)

lemma smallest_insert:
  assumes "finite S" "- 1 \<notin> S" "x \<noteq> - 1"
  shows "min_set_insert x (smallest S) = smallest (insert x S)"
proof -
  define ys where "ys = sorted_list_of_set S @ replicate 64 (- 1)"
  have ys: "sorted ys" "64 \<le> length ys" "set ys = insert (- 1) S" using assms(1) sorted_padded by (auto simp: ys_def)
  have last: "smallest S = take 64 ys" by (simp only: smallest_def ys_def)
  have mem: "ys ! 63 \<in> insert (- 1) S" using ys(2,3) nth_mem [of 63 ys] by auto
  consider "x \<in> set (smallest S)" | "x \<notin> set (smallest S)" "x \<in> S" | "x \<notin> S" by blast
  thus ?thesis
  proof cases
    case 1
    hence "x \<in> S" using assms(3) ys(3) last by (auto dest: in_set_takeD)
    thus ?thesis using 1 by (simp add: min_set_insert_def insert_absorb)
  next
    case 2
    then obtain j where j: "j < length ys" "ys ! j = x" using ys(3) by (metis in_set_conv_nth insertCI)
    have "63 \<le> j"
    proof (rule ccontr)
      assume "\<not> 63 \<le> j"
      thus False using 2(1) j ys(2) last by (auto simp: in_set_conv_nth)
    qed
    hence "\<not> x < ys ! 63" using j ys(1) sorted_nth_mono leD by blast
    thus ?thesis using 2 last by (simp add: min_set_insert_def RENORM_PASS_SIZE_def insert_absorb)
  next
    case 3
    have sorted': "sorted_list_of_set (insert x S) = insort x (sorted_list_of_set S)" using assms(1) 3 by simp
    have "smallest (insert x S) = take 64 (insort x ys)"
      using insort_append [of "replicate 64 (- 1)" x "sorted_list_of_set S"] assms(3) by (simp add: smallest_def ys_def sorted')
    moreover have "x \<noteq> ys ! 63" using mem 3 assms(3) by auto
    ultimately have s: "smallest (insert x S) = (if x < ys ! 63 then insort x (take 63 ys) else take 64 ys)"
      using take_insort [OF ys(1), of 64 x] ys(2) by simp
    have "(take 64 ys)[63 := x] = take 63 ys @ [x]"
      using ys(2) by (simp add: take_Suc_conv_app_nth [of 63, simplified] list_update_append)
    moreover have "sort (take 63 ys @ [x]) = insort x (take 63 ys)"
      by (rule properties_for_sort) (simp_all add: sorted_insort sorted_wrt_take ys(1))
    moreover have "x \<notin> set (smallest S)" using 3 assms(3) ys(3) last by (auto dest: in_set_takeD)
    ultimately show ?thesis using s last by (simp add: min_set_insert_def RENORM_PASS_SIZE_def)
  qed
qed

lemma collect_smallest:
  assumes "\<forall>d \<in> set allocs. timestamp d \<noteq> - 1"
  shows "collect_pass l allocs = smallest (timestamp ` set allocs \<inter> {l..})"
proof -
  have "fold (\<lambda>d ms. if timestamp d \<ge> l then min_set_insert (timestamp d) ms else ms) allocs (smallest S) =
      smallest (S \<union> timestamp ` set allocs \<inter> {l..})" if "finite S" "- 1 \<notin> S" for S
    using that assms
  proof (induction allocs arbitrary: S)
    case (Cons d ds)
    let ?S = "if timestamp d \<ge> l then insert (timestamp d) S else S"
    have "finite ?S" "- 1 \<notin> ?S" "\<forall>d \<in> set ds. timestamp d \<noteq> - 1" using Cons.prems by auto
    note IH = Cons.IH [OF this]
    have "S \<union> timestamp ` set (d # ds) \<inter> {l..} = ?S \<union> timestamp ` set ds \<inter> {l..}" by auto
    thus ?case using IH Cons.prems smallest_insert [of S "timestamp d"] by (cases "timestamp d \<ge> l") simp_all
  qed simp
  from this [of "{}"] show ?thesis by (simp add: collect_pass_def smallest_def min_set_new_def RENORM_PASS_SIZE_def)
qed

section \<open>One pass\<close>

text \<open>
  The distinct stamps in order are a strictly sorted list \<open>D\<close>; the stamp with
  index \<open>r\<close> in it has rank \<open>r\<close>.  After the passes below \<open>l\<close> the stamps of rank
  less than \<open>l\<close> are their rank and the others are as they were.
\<close>

definition partly :: "u32 list \<Rightarrow> nat \<Rightarrow> nat \<Rightarrow> u32" where
  "partly D l r = (if r < l then of_nat r else D ! r)"

lemma strict_sorted_unat:
  assumes "sorted_wrt (<) (D :: u32 list)" "r < length D"
  shows "r \<le> unat (D ! r)"
  using assms
proof (induction r)
  case (Suc r)
  have "D ! r < D ! Suc r" using Suc.prems by (simp add: sorted_wrt_nth_less)
  thus ?case using Suc by (simp add: word_less_nat_alt)
qed simp

lemma index_of_smallest:
  assumes D: "sorted_wrt (<) D" "- 1 \<notin> set D" and l: "l \<le> length D"
  shows "i < 64 \<Longrightarrow> l + i < length D \<Longrightarrow> index_of (D ! (l + i)) (smallest (set (drop l D))) = Some i"
    and "l + 64 \<le> r \<Longrightarrow> r < length D \<Longrightarrow> index_of (D ! r) (smallest (set (drop l D))) = None"
    and "v < of_nat l \<Longrightarrow> length D < 2 ^ 32 \<Longrightarrow> index_of v (smallest (set (drop l D))) = None"
    and "min_set_max (smallest (set (drop l D))) = - 1 \<longleftrightarrow> length D < l + 64"
proof -
  have drop: "sorted_list_of_set (set (drop l D)) = drop l D"
    using D(1) by (intro sorted_list_of_set.idem_if_sorted_distinct) (auto simp: strict_sorted_iff sorted_wrt_drop)
  define M where "M = smallest (set (drop l D))"
  have M: "M = take 64 (drop l D @ replicate 64 (- 1))" by (simp only: M_def smallest_def drop)
  have len: "length M = 64" by (simp add: M)
  have nth: "M ! j = (if l + j < length D then D ! (l + j) else - 1)" if "j < 64" for j
    using that l by (simp add: M nth_append del: take_append) auto
  have dist: "D ! a = D ! b \<longleftrightarrow> a = b" if "a < length D" "b < length D" for a b
    using D(1) that strict_sorted_iff nth_eq_iff_index_eq by blast
  have max: "D ! a \<noteq> - 1" if "a < length D" for a using D(2) that nth_mem by metis
  show "index_of (D ! (l + i)) (smallest (set (drop l D))) = Some i" if "i < 64" "l + i < length D"
    unfolding index_of_def M_def [symmetric] len find_Some_iff
    using that nth dist max by (intro exI [of _ i]) (auto split: if_splits)
  show "index_of (D ! r) (smallest (set (drop l D))) = None" if "l + 64 \<le> r" "r < length D"
    unfolding index_of_def M_def [symmetric] len find_None_iff using that nth dist max by auto
  show "index_of v (smallest (set (drop l D))) = None" if "v < of_nat l" "length D < 2 ^ 32"
  proof -
    have ul: "unat (of_nat l :: u32) = l" using that(2) l by (simp add: unat_of_nat)
    have "D ! a \<noteq> v" if "l \<le> a" "a < length D" for a
      using strict_sorted_unat [OF D(1) that(2)] that(1) \<open>v < of_nat l\<close> ul by (auto simp: word_less_nat_alt)
    moreover have "v \<noteq> - 1" using \<open>v < of_nat l\<close> by (metis word_le_minus_one leD)
    ultimately show ?thesis unfolding index_of_def M_def [symmetric] len find_None_iff using nth by auto
  qed
  show "min_set_max (smallest (set (drop l D))) = - 1 \<longleftrightarrow> length D < l + 64"
    unfolding min_set_max_def M_def [symmetric] RENORM_PASS_SIZE_def using nth [of 63] max [of "l + 63"] by auto
qed

lemma unat_rank: "r < length D \<Longrightarrow> length D < 2 ^ 32 \<Longrightarrow> unat (of_nat r :: u32) = r"
  by (simp add: unat_of_nat)

lemma collect_partly:
  assumes D: "sorted_wrt (<) D" "- 1 \<notin> set D" "length D < 2 ^ 32" and l: "l \<le> length D"
    and stamps: "map timestamp allocs = map (partly D l) rs" "set rs = {..<length D}"
  shows "collect_pass (of_nat l) allocs = smallest (set (drop l D))"
proof -
  have ts: "timestamp ` set allocs = partly D l ` {..<length D}"
    using stamps by (metis image_set set_map)
  have small: "(of_nat r :: u32) < of_nat l" if "r < l" for r
    using that l D(3) unat_rank [of r D] by (simp add: word_less_nat_alt unat_of_nat)
  have big: "of_nat l \<le> D ! r" if "l \<le> r" "r < length D" for r
    using strict_sorted_unat [OF D(1) that(2)] that D(3) by (simp add: word_le_nat_alt unat_of_nat)
  have "partly D l r \<noteq> - 1" if "r < length D" for r
  proof (cases "r < l")
    case True
    thus ?thesis using small [of r] by (auto simp: partly_def dest: leD)
  next
    case False
    thus ?thesis using that D(2) nth_mem [of r D] by (metis partly_def)
  qed
  hence "\<forall>d \<in> set allocs. timestamp d \<noteq> - 1" using ts by (metis imageE image_eqI lessThan_iff)
  hence "collect_pass (of_nat l) allocs = smallest (timestamp ` set allocs \<inter> {of_nat l..})" by (rule collect_smallest)
  moreover have "timestamp ` set allocs \<inter> {of_nat l..} = set (drop l D)"
  proof -
    have "partly D l ` {..<length D} \<inter> {of_nat l..} = (!) D ` {l..<length D}"
      using small big by (auto simp: partly_def dest: leD split: if_splits)
    also have "\<dots> = set (drop l D)" using l by (auto simp: set_conv_nth image_iff) (metis add.commute le_Suc_ex less_diff_conv)+
    finally show ?thesis using ts by simp
  qed
  ultimately show ?thesis by simp
qed

lemma remap_partly:
  assumes D: "sorted_wrt (<) D" "- 1 \<notin> set D" "length D < 2 ^ 32" and l: "l \<le> length D"
    and d: "timestamp d = partly D l r" "r < length D"
  shows "timestamp (remap (of_nat l) (smallest (set (drop l D))) d) = partly D (l + 64) r"
proof -
  note ix = index_of_smallest [OF D(1,2) l]
  consider "r < l" | "l \<le> r" "r < l + 64" | "l + 64 \<le> r" by linarith
  thus ?thesis
  proof cases
    case 1
    hence "(of_nat r :: u32) < of_nat l" using l D(3) by (simp add: word_less_nat_alt unat_of_nat)
    thus ?thesis using 1 d ix(3) D(3) by (simp add: remap_def partly_def)
  next
    case 2
    then obtain i where "r = l + i" "i < 64" by (metis add_less_cancel_left le_Suc_ex)
    thus ?thesis using 2 d ix(1) [of i] by (simp add: remap_def partly_def add.commute)
  next
    case 3
    thus ?thesis using d ix(2) [of r] by (simp add: remap_def partly_def)
  qed
qed

lemma vpn_remap [simp]: "vpn (remap l ms d) = vpn d"
  by (simp add: remap_def split: option.split)

section \<open>The loop\<close>

lemma renorm_loop_ranks:
  assumes D: "sorted_wrt (<) D" "- 1 \<notin> set D" "length D < 2 ^ 32" and rs: "set rs = {..<length D}"
    and l: "l \<le> length D" "length D < l + 64 * fuel" and stamps: "map timestamp allocs = map (partly D l) rs"
  shows "\<exists>allocs'. renorm_loop fuel (of_nat l) allocs = Some allocs' \<and> map timestamp allocs' = map of_nat rs \<and> map vpn allocs' = map vpn allocs"
  using l stamps
proof (induction fuel arbitrary: l allocs)
  case (Suc fuel)
  let ?ms = "smallest (set (drop l D))" let ?a = "map (remap (of_nat l) ?ms) allocs"
  have c: "collect_pass (of_nat l) allocs = ?ms" by (rule collect_partly [OF D Suc.prems(1,3) rs])
  have len: "length allocs = length rs" using Suc.prems(3) map_eq_imp_length_eq by blast
  have one: "timestamp (?a ! k) = partly D (l + 64) (rs ! k)" if "k < length rs" for k
  proof -
    have "timestamp (allocs ! k) = partly D l (rs ! k)" using Suc.prems(3) that len by (metis nth_map)
    moreover have "rs ! k < length D" using rs nth_mem [OF that] by auto
    ultimately show ?thesis using remap_partly [OF D Suc.prems(1)] that len by simp
  qed
  have a: "map timestamp ?a = map (partly D (l + 64)) rs"
    by (rule nth_equalityI) (use one len in \<open>simp_all del: map_map\<close>)
  have max: "min_set_max ?ms = - 1 \<longleftrightarrow> length D < l + 64" by (rule index_of_smallest(4) [OF D(1,2) Suc.prems(1)])
  show ?case
  proof (cases "length D < l + 64")
    case True
    have "map (partly D (l + 64)) rs = map of_nat rs" using rs True by (auto simp: partly_def)
    thus ?thesis using True c max a by (simp add: Let_def comp_def)
  next
    case False
    have "\<exists>allocs'. renorm_loop fuel (of_nat (l + 64)) ?a = Some allocs' \<and> map timestamp allocs' = map of_nat rs \<and> map vpn allocs' = map vpn ?a"
      by (rule Suc.IH) (use False Suc.prems a in \<open>simp_all del: map_map\<close>)
    thus ?thesis using False c max by (simp add: Let_def RENORM_PASS_SIZE_def add.commute comp_def)
  qed
qed simp

text \<open>The number of different stamps below one.\<close>

definition rank :: "u32 set \<Rightarrow> u32 \<Rightarrow> nat" where
  "rank S t = card {y \<in> S. y < t}"

lemma rank_nth:
  assumes "sorted_wrt (<) D" "r < length D"
  shows "rank (set D) (D ! r) = r"
proof -
  have "D ! i < D ! r \<longleftrightarrow> i < r" if "i < length D" for i
    using that assms sorted_wrt_nth_less [OF assms(1)] by (metis linorder_neqE_nat not_less_iff_gr_or_eq order_less_asym)
  hence "{y \<in> set D. y < D ! r} = (!) D ` {i. i < length D \<and> i < r}"
    by (auto simp: in_set_conv_nth)
  also have "{i. i < length D \<and> i < r} = {..<r}" using assms(2) by auto
  finally have "{y \<in> set D. y < D ! r} = (!) D ` {..<r}" .
  moreover have "inj_on ((!) D) {..<r}" using assms strict_sorted_iff [of D] by (auto simp: inj_on_def nth_eq_iff_index_eq)
  ultimately show ?thesis by (simp add: rank_def card_image)
qed

lemma renorm_ranks:
  assumes "\<forall>d \<in> set allocs. timestamp d \<noteq> - 1" "length allocs < 2 ^ 32"
  shows "\<exists>allocs'. renorm_loop (length allocs + 1) 0 allocs = Some allocs' \<and>
    map timestamp allocs' = map (\<lambda>d. of_nat (rank (timestamp ` set allocs) (timestamp d))) allocs \<and> map vpn allocs' = map vpn allocs"
proof -
  define D where "D = sorted_list_of_set (timestamp ` set allocs)"
  define rs where "rs = map (\<lambda>d. rank (set D) (timestamp d)) allocs"
  have setD: "set D = timestamp ` set allocs" and D: "sorted_wrt (<) D" "- 1 \<notin> set D" using assms(1) by (auto simp: D_def)
  have len: "length D \<le> length allocs" using card_image_le [of "set allocs" timestamp] card_length [of allocs] by (simp add: D_def)
  have stamp: "D ! rank (set D) (timestamp d) = timestamp d" if d: "d \<in> set allocs" for d
  proof -
    obtain r where "r < length D" "timestamp d = D ! r" using d setD by (metis imageI in_set_conv_nth)
    thus ?thesis using rank_nth [OF D(1)] by simp
  qed
  have "map timestamp allocs = map (partly D 0) rs" using stamp by (simp add: rs_def partly_def)
  moreover have "set rs = {..<length D}"
  proof -
    have nth: "(!) D ` {..<length D} = set D" by (auto simp: set_conv_nth)
    have "set rs = rank (set D) ` (!) D ` {..<length D}" unfolding nth by (simp add: rs_def setD image_image)
    also have "\<dots> = (\<lambda>r. rank (set D) (D ! r)) ` {..<length D}" by (rule image_image)
    also have "\<dots> = (\<lambda>r. r) ` {..<length D}" by (rule image_cong) (use rank_nth [OF D(1)] in simp_all)
    finally show ?thesis by simp
  qed
  ultimately obtain allocs' where r: "renorm_loop (length allocs + 1) (of_nat 0) allocs = Some allocs'" "map timestamp allocs' = map of_nat rs"
      "map vpn allocs' = map vpn allocs"
    using renorm_loop_ranks [OF D, of rs 0 "length allocs + 1" allocs] len assms(2) by auto
  have "map of_nat rs = map (\<lambda>d. of_nat (rank (timestamp ` set allocs) (timestamp d))) allocs" by (simp add: rs_def setD)
  thus ?thesis using r by auto
qed

lemma rank_less:
  assumes "finite S" "a \<in> S" "b \<in> S"
  shows "rank S a < rank S b \<longleftrightarrow> a < b" "rank S a < card S"
proof -
  have mono: "a < b \<Longrightarrow> rank S a < rank S b" if "a \<in> S" for a b
    unfolding rank_def by (rule psubset_card_mono) (use assms(1) that in auto)
  show "rank S a < rank S b \<longleftrightarrow> a < b" using mono [OF assms(2), of b] mono [OF assms(3), of a] by (metis linorder_neqE less_asym)
  show "rank S a < card S" unfolding rank_def by (rule psubset_card_mono) (use assms in auto)
qed

lemma of_nat_rank:
  assumes "finite S" "card S < 2 ^ 32" "a \<in> S" "b \<in> S"
  shows "(of_nat (rank S a) :: u32) < of_nat (rank S b) \<longleftrightarrow> a < b" "unat (of_nat (rank S a) :: u32) = rank S a"
  using rank_less [OF assms(1), of a b] rank_less(2) [OF assms(1), of b b] assms by (simp_all add: word_less_nat_alt unat_of_nat)

lemma epoch_succ:
  assumes "unat (m :: u32) < 2 ^ 32 - 2"
  shows "m < m + 1" "m + 1 \<noteq> - 1"
proof -
  have u: "unat (m + 1) = unat m + 1" using assms by (simp add: unat_word_ariths)
  thus "m < m + 1" by (simp add: word_less_nat_alt)
  have "unat (- 1 :: u32) = 2 ^ 32 - 1" by (simp add: unsigned_minus_1_eq_mask mask_eq_exp_minus_1)
  thus "m + 1 \<noteq> - 1" using u assms by fastforce
qed

text \<open>
  The epoch never runs out and never loses the order of the pages, also when the counter is at its end.
\<close>

lemma next_epoch_spec:
  assumes "allocs \<noteq> []" "length allocs < 2 ^ 32 - 2" "epoch \<noteq> - 1" "\<forall>d \<in> set allocs. timestamp d \<le> epoch"
  shows "\<exists>e allocs'. next_epoch epoch allocs = Some (e, allocs') \<and> e \<noteq> - 1 \<and> length allocs' = length allocs \<and>
    (\<forall>d \<in> set allocs'. timestamp d < e) \<and>
    (\<forall>i j. i < length allocs \<and> j < length allocs \<longrightarrow>
       (timestamp (allocs' ! i) < timestamp (allocs' ! j) \<longleftrightarrow> timestamp (allocs ! i) < timestamp (allocs ! j)))"
proof (cases "epoch < - 1 - 1")
  case True
  hence "unat epoch < 2 ^ 32 - 2" by (simp add: word_less_nat_alt)
  thus ?thesis using True assms(4) epoch_succ by (auto simp: next_epoch_def intro: le_less_trans)
next
  case False
  let ?S = "timestamp ` set allocs"
  have ne: "\<forall>d \<in> set allocs. timestamp d \<noteq> - 1" using assms(3,4) by (metis order_antisym word_le_minus_one)
  obtain allocs' where r: "renorm_loop (length allocs + 1) 0 allocs = Some allocs'"
      "map timestamp allocs' = map (\<lambda>d. of_nat (rank ?S (timestamp d))) allocs"
    using renorm_ranks [OF ne] assms(2) by auto
  have len: "length allocs' = length allocs" using r(2) map_eq_imp_length_eq by blast
  have stamp: "timestamp (allocs' ! i) = of_nat (rank ?S (timestamp (allocs ! i)))" if "i < length allocs" for i
    using r(2) that len by (metis nth_map)
  have card: "card ?S < 2 ^ 32 - 2" using card_image_le [of "set allocs" timestamp] card_length [of allocs] assms(2) by simp
  define m where "m = Max (timestamp ` set allocs')"
  have m: "m \<in> timestamp ` set allocs'" "\<forall>d \<in> set allocs'. timestamp d \<le> m"
    using len assms(1) unfolding m_def by (auto intro!: Max_in)
  have small: "unat m < 2 ^ 32 - 2"
  proof -
    obtain i where i: "i < length allocs" "m = timestamp (allocs' ! i)" using m(1) len by (auto simp: in_set_conv_nth)
    let ?t = "timestamp (allocs ! i)"
    have "?t \<in> ?S" using i(1) by simp
    thus ?thesis using stamp [OF i(1)] i(2) of_nat_rank(2) [of ?S ?t ?t] rank_less(2) [of ?S ?t ?t] card by simp
  qed
  note epoch_succ [OF small]
  moreover have "next_epoch epoch allocs = Some (m + 1, allocs')"
    using False r(1) len assms(1) by (auto simp: next_epoch_def renormalize_allocs_def m_def)
  moreover have "timestamp (allocs' ! i) < timestamp (allocs' ! j) \<longleftrightarrow> timestamp (allocs ! i) < timestamp (allocs ! j)"
    if "i < length allocs" "j < length allocs" for i j
    using that stamp of_nat_rank(1) [of ?S "timestamp (allocs ! i)" "timestamp (allocs ! j)"] card by simp
  ultimately show ?thesis using m(2) len by (auto intro: le_less_trans)
qed

section \<open>Uses of pages\<close>

definition epoch_inv :: "swap \<times> swap_alloc list \<Rightarrow> bool" where
  "epoch_inv st = (snd st \<noteq> [] \<and> length (snd st) < 2 ^ 32 - 2 \<and> swap_epoch (fst st) \<noteq> - 1 \<and>
     list_all (\<lambda>d. timestamp d \<le> swap_epoch (fst st)) (snd st))"

definition older :: "swap \<times> swap_alloc list \<Rightarrow> nat \<Rightarrow> nat \<Rightarrow> bool" where
  "older st i j = (timestamp (snd st ! i) < timestamp (snd st ! j))"

lemma last_use_Nil [simp]: "last_use [] i = 0"
  by (simp add: last_use_def)

lemma last_use_snoc [simp]: "last_use (us @ [u]) i = (if page_of u = i then Suc (length us) else last_use us i)"
  by (simp add: last_use_def enumerate_append_eq)

lemma last_use_le: "last_use us i \<le> length us"
  by (induction us rule: rev_induct) auto

lemma use_pages_Nil [simp]: "use_pages [] st = Some st"
  by (simp add: use_pages_def)

lemma use_pages_snoc [simp]: "use_pages (us @ [u]) st = Option.bind (use_pages us st) (use_page u)"
  by (simp add: use_pages_def)

lemma timestamp_update_vpn [simp]: "timestamp (update_vpn pid vaddr a) = timestamp a"
  by (simp add: update_vpn_def split: option.split)

lemma swap_epoch_track_alloc [simp]: "swap_epoch (track_alloc b s) = swap_epoch s"
  by (simp add: track_alloc_def)

lemma stamp_spec:
  assumes "epoch_inv (s, allocs)" "i < length allocs" "\<And>a. timestamp (f a) = timestamp a"
  shows "\<exists>s' allocs'. stamp i f s allocs = Some (s', allocs') \<and> epoch_inv (s', allocs') \<and> length allocs' = length allocs \<and>
    (\<forall>j k. j < length allocs \<and> k < length allocs \<longrightarrow>
       older (s', allocs') j k = (if k = i then j \<noteq> i else j \<noteq> i \<and> older (s, allocs) j k))"
proof -
  have pre: "allocs \<noteq> []" "length allocs < 2 ^ 32 - 2" "swap_epoch s \<noteq> - 1" "\<forall>d \<in> set allocs. timestamp d \<le> swap_epoch s"
    using assms(1) by (simp_all add: epoch_inv_def list_all_iff)
  obtain e as where n: "next_epoch (swap_epoch s) allocs = Some (e, as)" "e \<noteq> - 1" "length as = length allocs"
      "\<forall>d \<in> set as. timestamp d < e"
      and ord: "\<And>j k. j < length allocs \<Longrightarrow> k < length allocs \<Longrightarrow>
        (timestamp (as ! j) < timestamp (as ! k)) = (timestamp (allocs ! j) < timestamp (allocs ! k))"
    using next_epoch_spec [OF pre] by auto
  let ?as = "as[i := f ((as ! i)\<lparr>timestamp := e\<rparr>)]"
  have lt: "timestamp (as ! j) < e" if "j < length allocs" for j using n(3,4) that by simp
  have "\<forall>d \<in> set ?as. timestamp d \<le> e"
    using n(4) set_update_subset_insert [of as i] assms(3) by (fastforce simp: less_imp_le)
  hence "epoch_inv (s\<lparr>swap_epoch := e\<rparr>, ?as)" using n(2,3) pre(1,2) by (auto simp: epoch_inv_def list_all_iff)
  moreover have "older (s\<lparr>swap_epoch := e\<rparr>, ?as) j k = (if k = i then j \<noteq> i else j \<noteq> i \<and> older (s, allocs) j k)"
    if "j < length allocs" "k < length allocs" for j k
    using that n(3) lt [OF that(1)] lt [OF that(2)] ord [OF that] assms(3) by (auto simp: older_def nth_list_update)
  ultimately show ?thesis using n(1,3) by (simp add: stamp_def)
qed

lemma use_page_spec:
  assumes "epoch_inv st" "page_of u < length (snd st)"
  shows "\<exists>st'. use_page u st = Some st' \<and> epoch_inv st' \<and> length (snd st') = length (snd st) \<and>
    (\<forall>j k. j < length (snd st) \<and> k < length (snd st) \<longrightarrow>
       older st' j k = (if k = page_of u then j \<noteq> page_of u else j \<noteq> page_of u \<and> older st j k))"
proof (cases st)
  case (Pair s allocs)
  have inv: "epoch_inv (s, allocs)" and i: "page_of u < length allocs" using assms Pair by simp_all
  show ?thesis
  proof (cases u)
    case (Touch i)
    thus ?thesis using stamp_spec [OF inv i, of id] Pair by (fastforce simp: alloc_touch_def)
  next
    case (Reparent i pid)
    thus ?thesis using stamp_spec [OF inv i, of "\<lambda>a. a\<lparr>vpn := vpn a AND NOT 0xff OR ucast pid\<rparr>"] Pair
      by (fastforce simp: alloc_reparent_def)
  next
    case (Update i pid va)
    thus ?thesis using stamp_spec [OF inv i, of "update_vpn pid va"] Pair
      by (fastforce simp: alloc_update_def epoch_inv_def older_def)
  qed
qed

lemma use_pages_spec:
  assumes "epoch_inv st" "\<forall>u \<in> set us. page_of u < length (snd st)"
  shows "\<exists>st'. use_pages us st = Some st' \<and> epoch_inv st' \<and> length (snd st') = length (snd st) \<and>
    (\<forall>i j. i < length (snd st) \<and> j < length (snd st) \<longrightarrow>
       older st' i j = (last_use us i < last_use us j \<or> last_use us i = 0 \<and> last_use us j = 0 \<and> older st i j))"
  using assms(2)
proof (induction us rule: rev_induct)
  case Nil
  thus ?case using assms(1) by simp
next
  case (snoc u us)
  then obtain st' where st': "use_pages us st = Some st'" "epoch_inv st'" "length (snd st') = length (snd st)"
      and ord: "\<And>i j. i < length (snd st) \<Longrightarrow> j < length (snd st) \<Longrightarrow>
        older st' i j = (last_use us i < last_use us j \<or> last_use us i = 0 \<and> last_use us j = 0 \<and> older st i j)"
    by auto
  obtain st'' where st'': "use_page u st' = Some st''" "epoch_inv st''" "length (snd st'') = length (snd st)"
      and ord': "\<And>i j. i < length (snd st) \<Longrightarrow> j < length (snd st) \<Longrightarrow>
        older st'' i j = (if j = page_of u then i \<noteq> page_of u else i \<noteq> page_of u \<and> older st' i j)"
    using use_page_spec [OF st'(2), of u] snoc.prems st'(3) by auto
  have "older st'' i j = (last_use (us @ [u]) i < last_use (us @ [u]) j \<or>
      last_use (us @ [u]) i = 0 \<and> last_use (us @ [u]) j = 0 \<and> older st i j)"
    if "i < length (snd st)" "j < length (snd st)" for i j
    using ord [OF that] ord' [OF that] last_use_le [of us i] last_use_le [of us j] by (auto simp: le_imp_less_Suc)
  thus ?case using st'(1) st'' by simp
qed

section \<open>Properties\<close>

text \<open>
  C34: Renormalisation terminates and replaces every stamp by its rank.  For a
  table in which no stamp is the reserved value \<open>u32::MAX\<close>, the passes of 64
  distinct values with a scratch array of 64 words give the same table as
  sorting all stamps would: each stamp becomes the number of different smaller
  stamps, equal stamps stay equal, the rest of the entry is untouched, and the
  result is the largest new stamp.
\<close>

theorem renormalize_allocs_ranks:
  assumes "allocs \<noteq> []" "length allocs < 2 ^ 32" "\<forall>d \<in> set allocs. timestamp d \<noteq> - 1"
  shows "\<exists>allocs' m. renormalize_allocs allocs = Some (allocs', m) \<and> map vpn allocs' = map vpn allocs \<and>
    map timestamp allocs' = map (\<lambda>d. of_nat (rank (timestamp ` set allocs) (timestamp d))) allocs \<and>
    m \<in> timestamp ` set allocs' \<and> (\<forall>d \<in> set allocs'. timestamp d \<le> m)"
proof -
  obtain allocs' where r: "renorm_loop (length allocs + 1) 0 allocs = Some allocs'" "map vpn allocs' = map vpn allocs"
      "map timestamp allocs' = map (\<lambda>d. of_nat (rank (timestamp ` set allocs) (timestamp d))) allocs"
    using renorm_ranks [OF assms(3,2)] by auto
  have "allocs' \<noteq> []" using r(2) assms(1) by auto
  hence "renormalize_allocs allocs = Some (allocs', Max (timestamp ` set allocs'))" using r(1) by (simp add: renormalize_allocs_def)
  moreover have "Max (timestamp ` set allocs') \<in> timestamp ` set allocs'" using \<open>allocs' \<noteq> []\<close> by (intro Max_in) auto
  ultimately show ?thesis using r(2,3) by auto
qed

definition demo_allocs :: "swap_alloc list" where
  "demo_allocs = [\<lparr>timestamp = 900, vpn = 0x1003\<rparr>, \<lparr>timestamp = 7, vpn = 0x2003\<rparr>, \<lparr>timestamp = 900, vpn = 0x3004\<rparr>, \<lparr>timestamp = 50, vpn = 0\<rparr>]"

theorem renormalize_allocs_ranks_witness:
  "\<exists>allocs' m. renormalize_allocs demo_allocs = Some (allocs', m) \<and> map timestamp allocs' = [2, 0, 2, 1]"
proof -
  have S: "timestamp ` set demo_allocs = {900, 7, 50}" by (auto simp: demo_allocs_def)
  have "{y \<in> {900, 7, 50 :: u32}. y < 900} = {7, 50}" "{y \<in> {900, 7, 50 :: u32}. y < 50} = {7}" "{y \<in> {900, 7, 50 :: u32}. y < 7} = {}" by auto
  hence "rank {900, 7, 50} 900 = 2" "rank {900, 7, 50} 50 = 1" "rank {900, 7, 50} 7 = 0" by (simp_all add: rank_def)
  hence "map (\<lambda>d. of_nat (rank (timestamp ` set demo_allocs) (timestamp d))) demo_allocs = [2, 0, 2, 1 :: u32]"
    unfolding S by (simp add: demo_allocs_def)
  with renormalize_allocs_ranks [of demo_allocs] show ?thesis by (auto simp: demo_allocs_def)
qed

text \<open>
  C33: The stamps order the pages by their last use.  After any sequence of
  touches, re-parentings and updates of entries of the table, also one in
  which the counter runs out and the table is renormalised any number of
  times, page \<open>i\<close> has a smaller stamp than page \<open>j\<close> exactly when its last use is
  the earlier one; pages the sequence did not use are older than those it did
  and keep the order they had.  The sequence never fails.
\<close>

theorem stamps_order_by_last_use:
  assumes "epoch_inv st" "\<forall>u \<in> set us. page_of u < length (snd st)"
  shows "\<exists>st'. use_pages us st = Some st' \<and>
    (\<forall>i j. i < length (snd st) \<and> j < length (snd st) \<longrightarrow>
       (timestamp (snd st' ! i) < timestamp (snd st' ! j) \<longleftrightarrow>
        last_use us i < last_use us j \<or>
        last_use us i = 0 \<and> last_use us j = 0 \<and> timestamp (snd st ! i) < timestamp (snd st ! j)))"
  using use_pages_spec [OF assms] unfolding older_def by blast

theorem stamps_order_by_last_use_witness:
  "\<exists>st'. use_pages [Touch 1, Reparent 0 5, Update 1 (Some 3) None] (\<lparr>swap_epoch = - 2, used_pages = 3\<rparr>, demo_allocs) = Some st' \<and>
    timestamp (snd st' ! 0) < timestamp (snd st' ! 1) \<and> timestamp (snd st' ! 2) < timestamp (snd st' ! 0) \<and>
    timestamp (snd st' ! 3) < timestamp (snd st' ! 2)"
proof -
  let ?us = "[Touch 1, Reparent 0 5, Update 1 (Some 3) None]" and ?st = "(\<lparr>swap_epoch = - 2, used_pages = 3\<rparr>, demo_allocs)"
  have "epoch_inv ?st" by (simp add: epoch_inv_def demo_allocs_def)
  moreover have "\<forall>u \<in> set ?us. page_of u < length (snd ?st)" by (simp add: demo_allocs_def)
  moreover have "last_use ?us 0 = 2" "last_use ?us 1 = 3" "last_use ?us 2 = 0" "last_use ?us 3 = 0" by (simp_all add: last_use_def)
  ultimately show ?thesis using stamps_order_by_last_use [of ?st ?us] by (auto simp: demo_allocs_def)
qed

end
