(* ===== verification/Name_Table.thy ===== *)
theory Name_Table
  imports Xous_Defs
begin

text \<open>
  The data of the name server \<open>services/xous-names/src/main.rs\<close>: server names
  (\<open>api/xous-api-names/src/api.rs\<close>) and the table \<open>CheckedHashMap\<close> from names to
  the connection records of servers.

  A \<open>HashMap\<close> is a list of pairs.  Its iteration order, which the standard
  library leaves open, is the order of the list; it only matters for the two
  operations that search by server id, and the lemmas about them hold for
  every order.  Fresh tokens, which the kernel draws, are arguments here.
\<close>

section \<open>UTF-8\<close>

text \<open>\<open>core::str::from_utf8\<close>: no overlong forms, no surrogates, nothing above U+10FFFF.\<close>

definition utf8_cont :: "u8 \<Rightarrow> bool" where
  "utf8_cont b = (0x80 \<le> b \<and> b \<le> 0xbf)"

fun utf8_valid :: "u8 list \<Rightarrow> bool" where
  "utf8_valid [] = True"
| "utf8_valid (b # bs) =
     (if b < 0x80 then utf8_valid bs
      else if 0xc2 \<le> b \<and> b \<le> 0xdf then
        (case bs of c # r \<Rightarrow> utf8_cont c \<and> utf8_valid r | _ \<Rightarrow> False)
      else if 0xe0 \<le> b \<and> b \<le> 0xef then
        (case bs of c # d # r \<Rightarrow> utf8_cont c \<and> utf8_cont d \<and> (b = 0xe0 \<longrightarrow> 0xa0 \<le> c) \<and> (b = 0xed \<longrightarrow> c \<le> 0x9f) \<and> utf8_valid r
         | _ \<Rightarrow> False)
      else if 0xf0 \<le> b \<and> b \<le> 0xf4 then
        (case bs of c # d # e # r \<Rightarrow> utf8_cont c \<and> utf8_cont d \<and> utf8_cont e \<and>
             (b = 0xf0 \<longrightarrow> 0x90 \<le> c) \<and> (b = 0xf4 \<longrightarrow> c \<le> 0x8f) \<and> utf8_valid r
         | _ \<Rightarrow> False)
      else False)"

section \<open>Server names\<close>

record xous_server_name =
  name_value :: "u8 list"
  name_length :: nat

definition name_new :: xous_server_name where
  "name_new = \<lparr>name_value = replicate 64 0, name_length = 0\<rparr>"

definition name_as_str :: "xous_server_name \<Rightarrow> u8 list option" where
  "name_as_str n = (let b = take (name_length n) (name_value n) in if utf8_valid b then Some b else None)"

definition name_copy :: "u8 list \<Rightarrow> u8 list \<Rightarrow> u8 list" where
  "name_copy src dest = take (length dest) src @ drop (length src) dest"

definition name_from_str :: "u8 list \<Rightarrow> ('e, xous_server_name) outcome" where
  "name_from_str src =
     (let s = \<lparr>name_value = name_copy src (name_value name_new), name_length = min 64 (length src)\<rparr>;
          s = (if name_as_str s = None then s\<lparr>name_length := 0\<rparr> else s)
      in if name_length s < length (name_value s) then Ok s else Panic)"

text \<open>\<open>PartialEq\<close>; its two asserts hold of every name that \<open>from_str\<close> returns.\<close>

definition name_eq :: "xous_server_name \<Rightarrow> xous_server_name \<Rightarrow> bool" where
  "name_eq a b = (take (name_length a) (name_value a) = take (name_length b) (name_value b) \<and> name_length a = name_length b)"

section \<open>The table of servers\<close>

record connection =
  conn_sid :: SID
  current_conns :: u32
  max_conns :: "u32 option"
  allow_authenticate :: bool
  auth_conns :: u32
  conn_token :: "SID option"

type_synonym checked_hash_map = "(xous_server_name \<times> connection) list"

definition table_get :: "xous_server_name \<Rightarrow> checked_hash_map \<Rightarrow> connection option" where
  "table_get n t = map_option snd (find (\<lambda>e. name_eq (fst e) n) t)"

definition table_set :: "xous_server_name \<Rightarrow> connection \<Rightarrow> checked_hash_map \<Rightarrow> checked_hash_map" where
  "table_set n c t = map (\<lambda>e. if name_eq (fst e) n then (fst e, c) else e) t"

definition table_contains_key :: "xous_server_name \<Rightarrow> checked_hash_map \<Rightarrow> bool" where
  "table_contains_key n t = (table_get n t \<noteq> None)"

definition table_insert :: "xous_server_name \<Rightarrow> SID \<Rightarrow> u32 option \<Rightarrow> SID \<Rightarrow> checked_hash_map \<Rightarrow> checked_hash_map" where
  "table_insert n sid limit token t =
     (let c = \<lparr>conn_sid = sid, current_conns = 0, max_conns = limit, allow_authenticate = False, auth_conns = 0,
               conn_token = Some token\<rparr>
      in if table_contains_key n t then table_set n c t else (n, c) # t)"

definition table_remove :: "SID \<Rightarrow> checked_hash_map \<Rightarrow> xous_server_name option \<times> checked_hash_map" where
  "table_remove sid t = (case find (\<lambda>e. conn_sid (snd e) = sid) t of
     None \<Rightarrow> (None, t)
   | Some (n, c) \<Rightarrow> (Some n, filter (\<lambda>e. \<not> name_eq (fst e) n) t))"

definition table_connect :: "xous_server_name \<Rightarrow> checked_hash_map \<Rightarrow> (SID option \<times> SID option) \<times> checked_hash_map" where
  "table_connect n t = (case table_get n t of
     None \<Rightarrow> ((None, None), t)
   | Some c \<Rightarrow>
       let granted = (Some (conn_sid c), conn_token c) in
       (case max_conns c of
          None \<Rightarrow> (granted, table_set n (c\<lparr>current_conns := current_conns c + 1\<rparr>) t)
        | Some m \<Rightarrow>
            if m = 1 then
              (if current_conns c < 1 then (granted, table_set n (c\<lparr>current_conns := 1\<rparr>) t) else ((None, None), t))
            else if current_conns c < m then (granted, table_set n (c\<lparr>current_conns := current_conns c + 1\<rparr>) t)
            else ((None, None), t)))"

definition trusted_init_done :: "checked_hash_map \<Rightarrow> bool" where
  "trusted_init_done t = list_all (\<lambda>e. case max_conns (snd e) of None \<Rightarrow> True | Some m \<Rightarrow> m = current_conns (snd e)) t"

fun table_disconnect :: "SID \<Rightarrow> checked_hash_map \<Rightarrow> xous_server_name option \<times> checked_hash_map" where
  "table_disconnect sid [] = (None, [])"
| "table_disconnect sid ((n, c) # t) =
     (if conn_sid c = sid
      then (Some n, (n, if current_conns c > 0 then c\<lparr>current_conns := current_conns c - 1\<rparr> else c) # t)
      else (case table_disconnect sid t of (r, t') \<Rightarrow> (r, (n, c) # t')))"

text \<open>The flag, and the table given the token the kernel would draw.\<close>

definition token_matches :: "xous_server_name \<Rightarrow> SID \<Rightarrow> checked_hash_map \<Rightarrow> bool" where
  "token_matches n token t = (case table_get n t of None \<Rightarrow> False | Some c \<Rightarrow> conn_token c = Some token)"

definition table_disconnect_with_token ::
  "xous_server_name \<Rightarrow> SID \<Rightarrow> SID \<Rightarrow> checked_hash_map \<Rightarrow> bool \<times> checked_hash_map" where
  "table_disconnect_with_token n token new t = (case table_get n t of
     None \<Rightarrow> (False, t)
   | Some c \<Rightarrow>
       if conn_token c = Some token then (True, table_set n (c\<lparr>current_conns := 0, conn_token := Some new\<rparr>) t)
       else (False, t))"

section \<open>Invariant\<close>

definition name_ok :: "xous_server_name \<Rightarrow> bool" where
  "name_ok n = (length (name_value n) = 64 \<and> name_length n < 64)"

definition conn_ok :: "connection \<Rightarrow> bool" where
  "conn_ok c = (case max_conns c of None \<Rightarrow> True | Some m \<Rightarrow> current_conns c \<le> m)"

definition name_key :: "xous_server_name \<Rightarrow> u8 list" where
  "name_key n = take (name_length n) (name_value n)"

definition table_inv :: "checked_hash_map \<Rightarrow> bool" where
  "table_inv t = (distinct (map (name_key \<circ> fst) t) \<and>
     list_all (\<lambda>e. name_ok (fst e) \<and> conn_ok (snd e)) t)"

lemma name_eq_key:
  assumes ok: "name_ok a" "name_ok b"
  shows "name_eq a b \<longleftrightarrow> name_key a = name_key b"
proof -
  have "name_length a = length (name_key a)" "name_length b = length (name_key b)"
    using ok by (simp_all add: name_key_def name_ok_def)
  thus ?thesis unfolding name_eq_def name_key_def [symmetric] by metis
qed

lemma name_eq_keyD: "name_eq a b \<Longrightarrow> name_key a = name_key b"
  unfolding name_eq_def name_key_def by blast

lemma name_eq_refl [simp]: "name_eq n n"
  by (simp add: name_eq_def)

lemma name_from_str_cases:
  "name_from_str src =
     (if length src < 64 \<and> utf8_valid src then Ok \<lparr>name_value = src @ replicate (64 - length src) 0, name_length = length src\<rparr>
      else if length src \<ge> 64 \<and> utf8_valid (take 64 src) then Panic
      else Ok \<lparr>name_value = take 64 src @ replicate (64 - length src) 0, name_length = 0\<rparr>)"
  by (simp add: name_from_str_def name_as_str_def name_copy_def name_new_def Let_def min_def)

lemma name_from_str_ok: "name_from_str src = Ok n \<Longrightarrow> name_ok n"
  by (auto simp: name_from_str_cases name_ok_def split: if_splits)

lemma name_from_str_not_Err [simp]: "name_from_str src \<noteq> Err e"
  by (simp add: name_from_str_cases)

lemma table_get_Cons [simp]: "table_get n ((k, c) # t) = (if name_eq k n then Some c else table_get n t)"
  by (simp add: table_get_def)

lemma table_get_Nil [simp]: "table_get n [] = None"
  by (simp add: table_get_def)

lemma table_get_Some: "table_get n t = Some c \<Longrightarrow> \<exists>k. (k, c) \<in> set t \<and> name_eq k n"
  by (induction t) (auto split: if_splits)

lemma table_get_set: "table_get n t \<noteq> None \<Longrightarrow> table_get n (table_set n c t) = Some c"
  by (induction t) (auto simp: table_set_def)

lemma table_get_None: "table_get n t = None \<longleftrightarrow> (\<forall>e \<in> set t. \<not> name_eq (fst e) n)"
  by (auto simp: table_get_def find_None_iff)

lemma table_inv_set: "\<lbrakk>table_inv t; conn_ok c\<rbrakk> \<Longrightarrow> table_inv (table_set n c t)"
  by (auto simp: table_inv_def table_set_def list_all_iff comp_def if_distrib [of fst] cong: if_cong)

lemma table_inv_get: "\<lbrakk>table_inv t; table_get n t = Some c\<rbrakk> \<Longrightarrow> conn_ok c"
  by (auto simp: table_inv_def list_all_iff dest!: table_get_Some)

lemma table_inv_insert: "\<lbrakk>table_inv t; name_ok n\<rbrakk> \<Longrightarrow> table_inv (table_insert n sid limit token t)"
proof (cases "table_contains_key n t")
  case True
  assume "table_inv t" "name_ok n"
  thus ?thesis using True by (auto simp: table_insert_def conn_ok_def intro!: table_inv_set split: option.split)
next
  case False
  assume "table_inv t" "name_ok n"
  thus ?thesis using False
    by (auto simp: table_insert_def table_contains_key_def table_get_None table_inv_def list_all_iff conn_ok_def name_eq_key
        split: option.split)
qed

lemma table_inv_remove: "table_inv t \<Longrightarrow> table_inv (snd (table_remove sid t))"
  by (auto simp: table_remove_def table_inv_def list_all_iff distinct_map_filter split: option.split)

lemma conn_ok_step: "\<lbrakk>max_conns c = Some m; current_conns c < m\<rbrakk> \<Longrightarrow> conn_ok (c\<lparr>current_conns := current_conns c + 1\<rparr>)"
  by (simp add: conn_ok_def inc_le)

lemma table_inv_connect: "table_inv t \<Longrightarrow> table_inv (snd (table_connect n t))"
  by (auto simp: table_connect_def Let_def conn_ok_step split: option.split intro!: table_inv_set)
    (auto simp: conn_ok_def word_le_nat_alt word_less_nat_alt)

lemma table_inv_disconnect: "table_inv t \<Longrightarrow> table_inv (snd (table_disconnect sid t))"
proof (induction sid t rule: table_disconnect.induct)
  case (2 sid n c t)
  have keys: "map (name_key \<circ> fst) (snd (table_disconnect sid t)) = map (name_key \<circ> fst) t" for sid t
    by (induction sid t rule: table_disconnect.induct) (auto split: prod.splits)
  have "current_conns c - 1 \<le> m" if "current_conns c \<le> m" "current_conns c > 0" for m
    using that by (simp add: word_le_nat_alt word_less_nat_alt unat_minus_one unat_gt_0 [symmetric])
  hence "conn_ok c \<Longrightarrow> current_conns c > 0 \<Longrightarrow> conn_ok (c\<lparr>current_conns := current_conns c - 1\<rparr>)"
    by (simp add: conn_ok_def split: option.splits)
  moreover have "(\<lambda>e. name_key (fst e)) ` set (snd (table_disconnect sid t)) = (\<lambda>e. name_key (fst e)) ` set t"
    using arg_cong [OF keys, of set sid t] by (simp add: comp_def)
  ultimately show ?case using 2 keys [of sid t]
    by (cases "table_disconnect sid t") (simp add: table_inv_def comp_def)
qed simp

lemma table_inv_token: "table_inv t \<Longrightarrow> table_inv (snd (table_disconnect_with_token n token new t))"
  by (auto simp: table_disconnect_with_token_def split: option.split intro!: table_inv_set) (simp add: conn_ok_def split: option.split)

end
