(* ===== verification/Name_Server.thy ===== *)
theory Name_Server
  imports Name_Table
begin

text \<open>
  The main loop of the name server \<open>services/xous-names/src/main.rs\<close>, one
  operation per opcode.

  The answers of the kernel and of the \<open>rkyv\<close> package are arguments, gathered
  in the record \<open>names_env\<close>: the ids \<open>create_server_id\<close> draws, the result of
  \<open>connect_for_process\<close> and whether the return of a message is accepted, each
  for the n-th call the server makes; the decoding of a request and the
  encoding of a response.  A message carries the bytes of its buffer, whose
  number stands for \<open>buf.len()\<close>.  What the server sends is recorded in order.
  Logging and the delay after a refused registration are left out.
\<close>

section \<open>Messages and state\<close>

datatype (plugins only: code size) ConnectError =
  InvalidMemoryBuffer | KernelConnectFailure | InvalidString | InvalidMessageType | ServerNotFound

primrec connect_error_code :: "ConnectError \<Rightarrow> u32" where
  "connect_error_code InvalidMemoryBuffer = 1"
| "connect_error_code KernelConnectFailure = 2"
| "connect_error_code InvalidString = 3"
| "connect_error_code InvalidMessageType = 4"
| "connect_error_code ServerNotFound = 5"

datatype (plugins only: code size) ConnectSuccess = Connected CID "SID option" | Wait

record registration =
  reg_name :: "u8 list"
  reg_conn_limit :: "u32 option"

record disconnect_request =
  disc_name :: "u8 list"
  disc_token :: SID

record authenticate_request =
  auth_name :: "u8 list"
  auth_pubkey_id :: "u8 list"
  auth_challenge :: SID

datatype (plugins only: code size) names_return =
  Ret_AuthenticateRequest authenticate_request | Ret_Failure | Ret_SID SID | Ret_CID CID "SID option" | Ret_Success

record names_msg =
  nm_env :: envelope
  nm_data :: "u8 list"

datatype (plugins only: code size) names_event =
  Returned MessageSender "u8 list" "usize option" "usize option"
| Unmapped memory_range
| ScalarReply MessageSender usize

record names_env =
  ne_server_id :: "nat \<Rightarrow> SID option"
  ne_connect :: "nat \<Rightarrow> PID \<Rightarrow> SID \<Rightarrow> Error + XResult"
  ne_accepts :: "nat \<Rightarrow> bool"
  ne_registration :: "u8 list \<Rightarrow> registration option"
  ne_string :: "u8 list \<Rightarrow> u8 list option"
  ne_disconnect :: "u8 list \<Rightarrow> disconnect_request option"
  ne_serialize :: "names_return \<Rightarrow> u8 list option"

record names =
  name_table :: checked_hash_map
  waiting_connections :: "names_msg list"
  names_calls :: nat
  names_sent :: "names_event list"
  names_running :: bool

type_synonym 'a names_op = "(names, ConnectError, 'a) operation"

section \<open>Calls into the kernel\<close>

definition names_tick :: "nat names_op" where
  "names_tick = bindM (getM names_calls) (\<lambda>n. thenM (modM (\<lambda>s. s\<lparr>names_calls := n + 1\<rparr>)) (retM n))"

definition names_server_id :: "names_env \<Rightarrow> SID names_op" where
  "names_server_id env = bindM names_tick (\<lambda>n. liftO (unwrap_opt (ne_server_id env n)))"

definition names_connect_for_process :: "names_env \<Rightarrow> PID \<Rightarrow> SID \<Rightarrow> (Error + XResult) names_op" where
  "names_connect_for_process env pid sid = bindM names_tick (\<lambda>n. retM (ne_connect env n pid sid))"

definition names_send :: "names_env \<Rightarrow> names_event \<Rightarrow> unit names_op" where
  "names_send env e = bindM names_tick (\<lambda>n. thenM (assertM (ne_accepts env n))
     (modM (\<lambda>s. s\<lparr>names_sent := names_sent s @ [e]\<rparr>)))"

text \<open>\<open>Drop for Envelope\<close>.\<close>

definition names_drop :: "names_env \<Rightarrow> names_msg \<Rightarrow> unit names_op" where
  "names_drop env msg = (case env_body (nm_env msg) of
     Borrow x \<Rightarrow> names_send env (Returned (env_sender (nm_env msg)) (nm_data msg) (mm_offset x) (mm_valid x))
   | MutableBorrow x \<Rightarrow> names_send env (Returned (env_sender (nm_env msg)) (nm_data msg) (mm_offset x) (mm_valid x))
   | Move x \<Rightarrow> names_send env (Unmapped (mm_buf x))
   | _ \<Rightarrow> retM ())"

section \<open>Buffers\<close>

primrec memory_message_mut :: "Message \<Rightarrow> memory_message option" where
  "memory_message_mut (MutableBorrow m) = Some m"
| "memory_message_mut (Move m) = Some m"
| "memory_message_mut (BlockingScalar _) = None"
| "memory_message_mut (Scalar _) = None"
| "memory_message_mut (Borrow _) = None"

primrec set_memory_message :: "memory_message \<Rightarrow> Message \<Rightarrow> Message" where
  "set_memory_message m (MutableBorrow _) = MutableBorrow m"
| "set_memory_message m (Move _) = Move m"
| "set_memory_message m (Borrow _) = Borrow m"
| "set_memory_message m (Scalar s) = Scalar s"
| "set_memory_message m (BlockingScalar s) = BlockingScalar s"

definition msg_update :: "memory_message \<Rightarrow> u8 list \<Rightarrow> names_msg \<Rightarrow> names_msg" where
  "msg_update m d msg = msg\<lparr>nm_env := (nm_env msg)\<lparr>env_body := set_memory_message m (env_body (nm_env msg))\<rparr>, nm_data := d\<rparr>"

text \<open>\<open>memory_message_mut().unwrap()\<close>, \<open>Buffer::from_memory_message_mut\<close> and \<open>to_original().unwrap()\<close>.\<close>

definition buffer_to_original :: "(u8 list \<Rightarrow> 'a option) \<Rightarrow> names_msg \<Rightarrow> ('e, 'a) outcome" where
  "buffer_to_original decode msg = (case memory_message_mut (env_body (nm_env msg)) of
     None \<Rightarrow> Panic
   | Some mem \<Rightarrow>
       let used = unat (nz_get (mm_offset mem)) in
       if used > length (nm_data msg) then Panic else unwrap_opt (decode (take used (nm_data msg))))"

text \<open>\<open>Buffer::replace\<close>: the archive is written at the front of the buffer and its length becomes the offset of the message.\<close>

definition buffer_replace :: "names_env \<Rightarrow> names_return \<Rightarrow> names_msg \<Rightarrow> ('e, names_msg) outcome" where
  "buffer_replace env response msg = (case memory_message_mut (env_body (nm_env msg)) of
     None \<Rightarrow> Panic
   | Some mem \<Rightarrow> (case ne_serialize env response of
       None \<Rightarrow> Panic
     | Some bs \<Rightarrow>
         if length bs > length (nm_data msg) then Panic
         else Ok (msg_update (mem\<lparr>mm_offset := nz_new (of_nat (length bs))\<rparr>) (bs @ drop (length bs) (nm_data msg)) msg)))"

section \<open>Connecting\<close>

definition name_from_msg :: "names_msg \<Rightarrow> (ConnectError, xous_server_name) outcome" where
  "name_from_msg msg = (case memory_message_of (env_body (nm_env msg)) of
     None \<Rightarrow> Err InvalidMessageType
   | Some mem \<Rightarrow>
       let valid_bytes = (case mm_valid mem of None \<Rightarrow> length (nm_data msg) | Some v \<Rightarrow> unat v) in
       if valid_bytes > length (nm_data msg) then Err InvalidMemoryBuffer
       else if \<not> utf8_valid (take valid_bytes (nm_data msg)) then Err InvalidString
       else name_from_str (take valid_bytes (nm_data msg)))"

definition names_table_op :: "(checked_hash_map \<Rightarrow> 'a \<times> checked_hash_map) \<Rightarrow> 'a names_op" where
  "names_table_op f s = (case f (name_table s) of (r, t) \<Rightarrow> (Ok r, s\<lparr>name_table := t\<rparr>))"

definition blocking_connect :: "names_env \<Rightarrow> names_msg \<Rightarrow> ConnectSuccess names_op" where
  "blocking_connect env msg =
     bindM (liftO (name_from_msg msg)) (\<lambda>name.
     bindM (liftO (unwrap_opt (sender_pid (env_sender (nm_env msg))))) (\<lambda>pid.
     bindM (names_table_op (table_connect name)) (\<lambda>(server_sid, token). case server_sid of
       None \<Rightarrow> retM Wait
     | Some sid \<Rightarrow>
         bindM (names_connect_for_process env pid sid) (\<lambda>r. case r of
           Inr (R_ConnectionID cid) \<Rightarrow> retM (Connected cid token)
         | _ \<Rightarrow> bindM (names_table_op (table_disconnect sid)) (\<lambda>_. failM KernelConnectFailure)))))"

text \<open>Write words at the front of the buffer, reset \<open>valid\<close> and \<open>offset\<close>, and let the message go.\<close>

definition respond_words :: "names_env \<Rightarrow> u32 list \<Rightarrow> names_msg \<Rightarrow> unit names_op" where
  "respond_words env ws msg = (case memory_message_mut (env_body (nm_env msg)) of
     None \<Rightarrow> panicM
   | Some mem \<Rightarrow>
       thenM (assertM (length ws \<le> length (nm_data msg) div 4))
         (names_drop env (msg_update (mem\<lparr>mm_valid := None, mm_offset := None\<rparr>)
            (concat (map (le_bytes 4) ws) @ drop (4 * length ws) (nm_data msg)) msg)))"

definition respond_connect_error :: "names_env \<Rightarrow> ConnectError \<Rightarrow> names_msg \<Rightarrow> unit names_op" where
  "respond_connect_error env e = respond_words env [1, connect_error_code e]"

definition respond_connect_success :: "names_env \<Rightarrow> CID \<Rightarrow> SID option \<Rightarrow> names_msg \<Rightarrow> unit names_op" where
  "respond_connect_success env cid disc =
     respond_words env ([0, cid] @ (case disc of None \<Rightarrow> [0, 0, 0, 0] | Some d \<Rightarrow> sid_to_u32 d))"

section \<open>The main loop\<close>

definition answer_waiter :: "names_env \<Rightarrow> names_msg \<Rightarrow> unit names_op" where
  "answer_waiter env msg = bindM (tryM (blocking_connect env msg)) (\<lambda>r. case r of
     Inl e \<Rightarrow> respond_connect_error env e msg
   | Inr (Connected cid disc) \<Rightarrow> respond_connect_success env cid disc msg
   | Inr Wait \<Rightarrow> panicM)"

text \<open>The loop over the waiting messages after a registration, from the last one down; \<open>Suc i\<close> looks at index \<open>i\<close>.\<close>

primrec connect_waiters :: "names_env \<Rightarrow> xous_server_name \<Rightarrow> nat \<Rightarrow> unit names_op" where
  "connect_waiters env name 0 = retM ()"
| "connect_waiters env name (Suc i) =
     bindM (getM (\<lambda>s. waiting_connections s ! i)) (\<lambda>msg.
     bindM (tryM (liftO (name_from_msg msg))) (\<lambda>asked.
     thenM
       (case asked of
          Inl _ \<Rightarrow> retM ()
        | Inr n \<Rightarrow>
            if name_eq n name then
              thenM (modM (\<lambda>s. s\<lparr>waiting_connections := take i (waiting_connections s) @ drop (Suc i) (waiting_connections s)\<rparr>))
                (answer_waiter env msg)
            else retM ())
       (connect_waiters env name i)))"

definition names_register :: "names_env \<Rightarrow> names_msg \<Rightarrow> unit names_op" where
  "names_register env msg =
     bindM (liftO (buffer_to_original (ne_registration env) msg)) (\<lambda>reg.
     bindM (liftO (name_from_str (reg_name reg))) (\<lambda>name.
     bindM (getM (\<lambda>s. table_contains_key name (name_table s))) (\<lambda>known.
     if known then
       bindM (liftO (buffer_replace env Ret_Failure msg)) (names_drop env)
     else
       bindM (names_server_id env) (\<lambda>new_sid.
       bindM (names_server_id env) (\<lambda>token.
       thenM (modM (\<lambda>s. s\<lparr>name_table := table_insert name new_sid (reg_conn_limit reg) token (name_table s)\<rparr>))
       (thenM (bindM (liftO (buffer_replace env (Ret_SID new_sid) msg)) (names_drop env))
       (bindM (getM (\<lambda>s. length (waiting_connections s))) (connect_waiters env name))))))))"

definition names_unregister :: "names_env \<Rightarrow> names_msg \<Rightarrow> unit names_op" where
  "names_unregister env msg = (case env_body (nm_env msg) of
     BlockingScalar m \<Rightarrow>
       bindM (names_table_op (table_remove (SID (sc_arg1 m) (sc_arg2 m) (sc_arg3 m) (sc_arg4 m)))) (\<lambda>r.
         names_send env (ScalarReply (env_sender (nm_env msg)) (if r = None then 0 else 1)))
   | _ \<Rightarrow> names_drop env msg)"

definition names_connect :: "names_env \<Rightarrow> names_msg \<Rightarrow> unit names_op" where
  "names_connect env msg =
     (if \<not> is_blocking (env_body (nm_env msg)) then names_drop env msg
      else if \<not> message_has_memory (env_body (nm_env msg)) then
        names_send env (ScalarReply (env_sender (nm_env msg)) 0)
      else bindM (tryM (blocking_connect env msg)) (\<lambda>r. case r of
        Inl e \<Rightarrow> respond_connect_error env e msg
      | Inr (Connected cid disc) \<Rightarrow> respond_connect_success env cid disc msg
      | Inr Wait \<Rightarrow>
          if message_id (env_body (nm_env msg)) = 7 then respond_connect_error env ServerNotFound msg
          else modM (\<lambda>s. s\<lparr>waiting_connections := waiting_connections s @ [msg]\<rparr>)))"

definition names_lookup :: "names_env \<Rightarrow> names_msg \<Rightarrow> unit names_op" where
  "names_lookup env msg =
     bindM (liftO (buffer_to_original (ne_string env) msg)) (\<lambda>name_string.
     bindM (liftO (name_from_str name_string)) (\<lambda>name.
     bindM (names_table_op (table_connect name)) (\<lambda>(server_sid, token).
     bindM (case server_sid of
         Some sid \<Rightarrow>
           bindM (liftO (unwrap_opt (sender_pid (env_sender (nm_env msg))))) (\<lambda>pid.
           bindM (names_connect_for_process env pid sid) (\<lambda>r. case r of
             Inl _ \<Rightarrow> panicM
           | Inr (R_ConnectionID cid) \<Rightarrow> retM (Ret_CID cid token)
           | Inr _ \<Rightarrow> retM Ret_Failure))
       | None \<Rightarrow>
           bindM (names_server_id env) (\<lambda>challenge. retM (Ret_AuthenticateRequest
             \<lparr>auth_name = name_string, auth_pubkey_id = replicate 20 0, auth_challenge = challenge\<rparr>)))
       (\<lambda>response. bindM (liftO (buffer_replace env response msg)) (names_drop env)))))"

definition names_trusted_init_done :: "names_env \<Rightarrow> names_msg \<Rightarrow> unit names_op" where
  "names_trusted_init_done env msg =
     bindM (getM (\<lambda>s. trusted_init_done (name_table s))) (\<lambda>b.
     thenM (names_send env (ScalarReply (env_sender (nm_env msg)) (if b then 1 else 0))) (names_drop env msg))"

definition names_disconnect :: "names_env \<Rightarrow> names_msg \<Rightarrow> unit names_op" where
  "names_disconnect env msg =
     bindM (liftO (buffer_to_original (ne_disconnect env) msg)) (\<lambda>req.
     bindM (liftO (name_from_str (disc_name req))) (\<lambda>name.
     bindM (getM (\<lambda>s. token_matches name (disc_token req) (name_table s))) (\<lambda>matches.
     bindM (if matches then
         bindM (names_server_id env) (\<lambda>new. names_table_op (table_disconnect_with_token name (disc_token req) new))
       else retM False)
       (\<lambda>done. bindM (liftO (buffer_replace env (if done then Ret_Success else Ret_Failure) msg)) (names_drop env)))))"

text \<open>One turn of the loop; an authenticated lookup is \<open>unimplemented!\<close>, and an unknown opcode ends the loop.\<close>

definition names_step :: "names_env \<Rightarrow> names_msg \<Rightarrow> unit names_op" where
  "names_step env msg =
     (let opcode = message_id (env_body (nm_env msg)) in
      if opcode = 0 then names_register env msg
      else if opcode = 1 then names_lookup env msg
      else if opcode = 2 then panicM
      else if opcode = 3 then names_unregister env msg
      else if opcode = 4 then names_disconnect env msg
      else if opcode = 5 then names_trusted_init_done env msg
      else if opcode = 6 \<or> opcode = 7 then names_connect env msg
      else thenM (modM (\<lambda>s. s\<lparr>names_running := False\<rparr>)) (names_drop env msg))"

definition names_init :: names where
  "names_init = \<lparr>name_table = [], waiting_connections = [], names_calls = 0, names_sent = [], names_running = True\<rparr>"

definition names_run :: "names_env \<Rightarrow> names_msg list \<Rightarrow> unit names_op" where
  "names_run env msgs = for_each msgs (\<lambda>msg. bindM (getM names_running) (\<lambda>b. if b then names_step env msg else retM ()))"

section \<open>The table stays well-formed\<close>

abbreviation names_inv :: "names \<Rightarrow> bool" where
  "names_inv s \<equiv> table_inv (name_table s)"

lemma keeps_names_calls:
  "keeps names_inv names_tick" "keeps names_inv (names_server_id env)"
  "keeps names_inv (names_connect_for_process env pid sid)" "keeps names_inv (names_send env e)" "keeps names_inv (names_drop env msg)"
proof -
  show tick: "keeps names_inv names_tick" unfolding names_tick_def by (intro keeps_intros) simp
  show "keeps names_inv (names_server_id env)" unfolding names_server_id_def by (intro keeps_intros tick)
  show "keeps names_inv (names_connect_for_process env pid sid)" unfolding names_connect_for_process_def by (intro keeps_intros tick)
  have send: "keeps names_inv (names_send env e)" for e unfolding names_send_def by (intro keeps_intros tick) simp
  show "keeps names_inv (names_send env e)" by (rule send)
  show "keeps names_inv (names_drop env msg)" unfolding names_drop_def by (simp add: send split: Message.split)
qed

lemma keeps_names_table_op: "(\<And>t. table_inv t \<Longrightarrow> table_inv (snd (f t))) \<Longrightarrow> keeps names_inv (names_table_op f)"
  by (auto simp: keeps_def names_table_op_def split: prod.split) (metis snd_conv)

lemma keeps_respond: "keeps names_inv (respond_connect_error env e msg)" "keeps names_inv (respond_connect_success env cid disc msg)"
  unfolding respond_connect_error_def respond_connect_success_def respond_words_def
  by (intro keeps_intros keeps_names_calls)+

lemma keeps_blocking_connect: "keeps names_inv (blocking_connect env msg)"
  unfolding blocking_connect_def
  by (auto intro!: keeps_intros keeps_names_calls keeps_names_table_op table_inv_connect table_inv_disconnect
      split: option.split sum.split XResult.split)

lemma keeps_answer_waiter: "keeps names_inv (answer_waiter env msg)"
  unfolding answer_waiter_def
  by (auto intro!: keeps_intros keeps_blocking_connect keeps_respond split: sum.split ConnectSuccess.split)

lemma keeps_connect_waiters: "keeps names_inv (connect_waiters env name i)"
  by (induction i) (auto intro!: keeps_intros keeps_answer_waiter split: sum.split)

lemma keeps_names_reply: "keeps names_inv (bindM (liftO (buffer_replace env r msg)) (names_drop env))"
  by (intro keeps_intros keeps_names_calls)

lemma keeps_names_register: "keeps names_inv (names_register env msg)"
  unfolding names_register_def
  by (intro keeps_bind_liftO keeps_names_reply keeps_connect_waiters keeps_bind keeps_then keeps_if keeps_names_calls keeps_mod)
    (auto intro: table_inv_insert name_from_str_ok)

lemma keeps_names_step: "keeps names_inv (names_step env msg)"
proof -
  have "keeps names_inv (names_unregister env msg)" unfolding names_unregister_def
    by (auto intro!: keeps_intros keeps_names_calls keeps_names_table_op table_inv_remove split: Message.split)
  moreover have "keeps names_inv (names_connect env msg)" unfolding names_connect_def
    by (auto intro!: keeps_intros keeps_names_calls keeps_blocking_connect keeps_respond split: sum.split ConnectSuccess.split)
  moreover have "keeps names_inv (names_lookup env msg)" unfolding names_lookup_def
    by (auto intro!: keeps_intros keeps_names_calls keeps_names_table_op table_inv_connect split: option.split sum.split XResult.split)
  moreover have "keeps names_inv (names_trusted_init_done env msg)" unfolding names_trusted_init_done_def
    by (intro keeps_intros keeps_names_calls)
  moreover have "keeps names_inv (names_disconnect env msg)" unfolding names_disconnect_def
    by (auto intro!: keeps_intros keeps_names_calls keeps_names_table_op table_inv_token)
  moreover have "keeps names_inv (thenM (modM (\<lambda>s. s\<lparr>names_running := False\<rparr>)) (names_drop env msg))"
    by (intro keeps_intros keeps_names_calls) simp
  ultimately show ?thesis unfolding names_step_def Let_def by (intro keeps_if keeps_names_register keeps_basic)
qed

lemma keeps_names_run: "keeps names_inv (names_run env msgs)"
  unfolding names_run_def by (intro keeps_intros keeps_names_step)

section \<open>Waiting clients\<close>

definition asks_for :: "xous_server_name \<Rightarrow> names_msg \<Rightarrow> bool" where
  "asks_for name msg = (case name_from_msg msg of Ok n \<Rightarrow> name_eq n name | _ \<Rightarrow> False)"

text \<open>A message that can be answered: a mutable lend of at least six words from a process, with a proper name.\<close>

definition waiter_ok :: "names_msg \<Rightarrow> bool" where
  "waiter_ok w = ((case env_body (nm_env w) of MutableBorrow _ \<Rightarrow> True | _ \<Rightarrow> False) \<and>
     24 \<le> length (nm_data w) \<and> sender_pid (env_sender (nm_env w)) \<noteq> None \<and> (case name_from_msg w of Ok _ \<Rightarrow> True | _ \<Rightarrow> False))"

primrec event_sender :: "names_event \<Rightarrow> MessageSender option" where
  "event_sender (Returned sender d off val) = Some sender"
| "event_sender (Unmapped r) = None"
| "event_sender (ScalarReply sender v) = Some sender"

abbreviation msg_sender :: "names_msg \<Rightarrow> MessageSender option" where
  "msg_sender w \<equiv> Some (env_sender (nm_env w))"

text \<open>Room for \<open>k\<close> more connections.\<close>

definition has_room :: "nat \<Rightarrow> connection \<Rightarrow> bool" where
  "has_room k c = (case max_conns c of None \<Rightarrow> True | Some m \<Rightarrow> unat (current_conns c) + k \<le> unat m)"

lemma name_eq_trans: "name_eq n name \<Longrightarrow> name_eq k n = name_eq k name"
  by (auto simp: name_eq_def)

lemma table_get_eq: "name_eq n name \<Longrightarrow> table_get n t = table_get name t" "name_eq n name \<Longrightarrow> table_set n c t = table_set name c t"
  by (simp_all add: table_get_def table_set_def name_eq_trans)

lemma unat_inc: "unat (c :: u32) < unat (m :: u32) \<Longrightarrow> unat (c + 1) = unat c + 1"
proof -
  assume "unat c < unat m"
  moreover have "unat m < 2 ^ 32" by (rule order_less_le_trans [OF unsigned_less]) simp
  ultimately show ?thesis by (simp add: unat_word_ariths)
qed

lemma has_room_connect:
  assumes "table_get n t = Some c" "has_room (Suc k) c"
  shows "\<exists>c'. table_connect n t = ((Some (conn_sid c), conn_token c), table_set n c' t) \<and> has_room k c' \<and> max_conns c' = max_conns c \<and>
    current_conns c' = current_conns c + 1 \<and> conn_sid c' = conn_sid c"
proof (cases "max_conns c")
  case None
  thus ?thesis using assms by (intro exI [of _ "c\<lparr>current_conns := current_conns c + 1\<rparr>"]) (simp add: table_connect_def Let_def has_room_def)
next
  case (Some m)
  hence lt: "unat (current_conns c) + Suc k \<le> unat m" using assms(2) by (simp add: has_room_def)
  hence "current_conns c < m" "unat (current_conns c + 1) = unat (current_conns c) + 1"
    using unat_inc [of "current_conns c" m] by (simp_all add: word_less_nat_alt)
  moreover have "current_conns c = 0" if "m = 1" using lt that by (simp add: unsigned_eq_0_iff)
  ultimately show ?thesis using assms Some lt by (auto simp: table_connect_def Let_def has_room_def)
qed

lemma has_room_disconnect:
  "\<lbrakk>table_get n t = Some c; has_room k c\<rbrakk> \<Longrightarrow> \<exists>c'. table_get n (snd (table_disconnect sid t)) = Some c' \<and>
    has_room k c' \<and> max_conns c' = max_conns c \<and> conn_sid c' = conn_sid c"
proof (induction sid t rule: table_disconnect.induct)
  case (2 sid m d t)
  have "has_room k d \<Longrightarrow> current_conns d > 0 \<Longrightarrow> has_room k (d\<lparr>current_conns := current_conns d - 1\<rparr>)"
    using unat_minus_one [of "current_conns d"] by (auto simp: has_room_def split: option.splits)
  thus ?case using 2 by (auto split: if_splits prod.splits)
qed simp

text \<open>One waiting client is answered, whatever the kernel says about its connection.\<close>

lemma respond_words_runs:
  assumes "waiter_ok w" "\<forall>n. ne_accepts env n" "length ws \<le> 6"
  shows "\<exists>s'. respond_words env ws w s = (Ok (), s') \<and> name_table s' = name_table s \<and> waiting_connections s' = waiting_connections s \<and>
    map event_sender (names_sent s') = map event_sender (names_sent s) @ [msg_sender w]"
proof -
  obtain m where b: "env_body (nm_env w) = MutableBorrow m" using assms(1) by (auto simp: waiter_ok_def split: Message.splits)
  have "6 \<le> length (nm_data w) div 4" using assms(1) div_le_mono [of 24 _ 4] by (simp add: waiter_ok_def)
  hence "length ws \<le> length (nm_data w) div 4" using assms(3) by simp
  thus ?thesis using b assms(2)
    by (simp add: respond_words_def names_drop_def names_send_def names_tick_def msg_update_def op_defs)
qed

lemma respond_runs:
  assumes "waiter_ok w" "\<forall>n. ne_accepts env n"
  shows "\<exists>s'. respond_connect_error env e w s = (Ok (), s') \<and> name_table s' = name_table s \<and> waiting_connections s' = waiting_connections s \<and>
      map event_sender (names_sent s') = map event_sender (names_sent s) @ [msg_sender w]"
    "\<exists>s'. respond_connect_success env cid disc w s = (Ok (), s') \<and> name_table s' = name_table s \<and> waiting_connections s' = waiting_connections s \<and>
      map event_sender (names_sent s') = map event_sender (names_sent s) @ [msg_sender w]"
proof -
  have "length (sid_to_u32 d) = 4" for d by (cases d) simp
  hence "length ([0, cid] @ (case disc of None \<Rightarrow> [0, 0, 0, 0] | Some d \<Rightarrow> sid_to_u32 d)) \<le> 6" by (simp split: option.split)
  thus "\<exists>s'. respond_connect_success env cid disc w s = (Ok (), s') \<and> name_table s' = name_table s \<and> waiting_connections s' = waiting_connections s \<and>
      map event_sender (names_sent s') = map event_sender (names_sent s) @ [msg_sender w]"
    unfolding respond_connect_success_def by (rule respond_words_runs [OF assms])
qed (simp add: respond_connect_error_def respond_words_runs [OF assms])

lemma blocking_connect_runs:
  assumes w: "name_from_msg w = Ok n" "sender_pid (env_sender (nm_env w)) = Some pid" "name_eq n name"
    and c: "table_get name (name_table s) = Some c" "has_room (Suc k) c"
  shows "\<exists>r s' c'. blocking_connect env w s = (r, s') \<and> r \<noteq> Panic \<and> r \<noteq> Ok Wait \<and>
    waiting_connections s' = waiting_connections s \<and> names_sent s' = names_sent s \<and>
    table_get name (name_table s') = Some c' \<and> has_room k c' \<and> max_conns c' = max_conns c \<and> conn_sid c' = conn_sid c"
proof -
  have g: "table_get n (name_table s) = Some c" using c(1) table_get_eq(1) [OF w(3)] by simp
  obtain c' where c': "table_connect n (name_table s) = ((Some (conn_sid c), conn_token c), table_set n c' (name_table s))" "has_room k c'"
      "max_conns c' = max_conns c" "conn_sid c' = conn_sid c"
    using has_room_connect [OF g c(2)] by blast
  let ?t = "table_set n c' (name_table s)" and ?r = "ne_connect env (names_calls s) pid (conn_sid c)"
  have t: "table_get name ?t = Some c'" using table_get_set [of n] g table_get_eq(1) [OF w(3)] by simp
  obtain c'' where c'': "table_get name (snd (table_disconnect (conn_sid c) ?t)) = Some c''" "has_room k c''"
      "max_conns c'' = max_conns c" "conn_sid c'' = conn_sid c"
    using has_room_disconnect [OF t c'(2)] c'(3,4) by auto
  show ?thesis
  proof (cases "\<exists>cid. ?r = Inr (R_ConnectionID cid)")
    case True
    thus ?thesis using w(1,2) c' t
      by (auto simp: blocking_connect_def names_table_op_def names_connect_for_process_def names_tick_def op_defs)
  next
    case False
    thus ?thesis using w(1,2) c' c''
      by (auto simp: blocking_connect_def names_table_op_def names_connect_for_process_def names_tick_def op_defs
          split: prod.split sum.split XResult.split)
  qed
qed

lemma answer_waiter_runs:
  assumes "waiter_ok w" "asks_for name w" "\<forall>n. ne_accepts env n" "table_get name (name_table s) = Some c" "has_room (Suc k) c"
  shows "\<exists>s' c'. answer_waiter env w s = (Ok (), s') \<and> waiting_connections s' = waiting_connections s \<and>
    map event_sender (names_sent s') = map event_sender (names_sent s) @ [msg_sender w] \<and>
    table_get name (name_table s') = Some c' \<and> has_room k c' \<and> max_conns c' = max_conns c \<and> conn_sid c' = conn_sid c"
proof -
  obtain n pid where w: "name_from_msg w = Ok n" "sender_pid (env_sender (nm_env w)) = Some pid" "name_eq n name"
    using assms(1,2) by (auto simp: waiter_ok_def asks_for_def split: outcome.splits)
  obtain r s1 c' where r: "blocking_connect env w s = (r, s1)" "r \<noteq> Panic" "r \<noteq> Ok Wait"
      "waiting_connections s1 = waiting_connections s" "names_sent s1 = names_sent s" "table_get name (name_table s1) = Some c'" "has_room k c'"
      "max_conns c' = max_conns c" "conn_sid c' = conn_sid c"
    using blocking_connect_runs [OF w assms(4,5)] by blast
  show ?thesis
  proof (cases r)
    case (Ok x)
    then obtain cid disc where "x = Connected cid disc" using r(3) by (cases x) auto
    thus ?thesis using r Ok respond_runs(2) [OF assms(1,3), of cid disc s1] by (auto simp: answer_waiter_def op_defs)
  next
    case (Err e)
    thus ?thesis using r respond_runs(1) [OF assms(1,3), of e s1] by (auto simp: answer_waiter_def op_defs)
  qed (use r(2) in simp)
qed

lemma connect_waiters_step:
  assumes "name_from_msg (waiting_connections s ! i) = Ok n"
  shows "connect_waiters env name (Suc i) s =
    (if asks_for name (waiting_connections s ! i)
     then thenM (answer_waiter env (waiting_connections s ! i)) (connect_waiters env name i)
       (s\<lparr>waiting_connections := take i (waiting_connections s) @ drop (Suc i) (waiting_connections s)\<rparr>)
     else connect_waiters env name i s)"
  using assms by (simp add: asks_for_def op_defs split: prod.split outcome.split)

lemma connect_waiters_runs:
  assumes "i \<le> length (waiting_connections s)" "list_all waiter_ok (waiting_connections s)" "\<forall>n. ne_accepts env n"
    "table_get name (name_table s) = Some c" "has_room (length (filter (asks_for name) (take i (waiting_connections s)))) c"
  shows "\<exists>s'. connect_waiters env name i s = (Ok (), s') \<and>
    waiting_connections s' = filter (\<lambda>w. \<not> asks_for name w) (take i (waiting_connections s)) @ drop i (waiting_connections s) \<and>
    map event_sender (names_sent s') =
      map event_sender (names_sent s) @ rev (map msg_sender (filter (asks_for name) (take i (waiting_connections s)))) \<and>
    (\<exists>c'. table_get name (name_table s') = Some c' \<and> max_conns c' = max_conns c \<and> conn_sid c' = conn_sid c)"
  using assms
proof (induction i arbitrary: s c)
  case 0
  thus ?case by (simp add: op_defs)
next
  case (Suc i)
  let ?W = "waiting_connections s"
  let ?w = "?W ! i" and ?s = "s\<lparr>waiting_connections := take i ?W @ drop (Suc i) ?W\<rparr>"
  have i: "i < length ?W" using Suc.prems(1) by simp
  have tk: "take (Suc i) ?W = take i ?W @ [?w]" "drop i ?W = ?w # drop (Suc i) ?W"
    using i by (simp_all add: take_Suc_conv_app_nth Cons_nth_drop_Suc)
  have ok: "waiter_ok ?w" using Suc.prems(2) i by (simp add: list_all_length)
  then obtain n where n: "name_from_msg ?w = Ok n" by (auto simp: waiter_ok_def split: outcome.splits)
  show ?case
  proof (cases "asks_for name ?w")
    case False
    hence "has_room (length (filter (asks_for name) (take i ?W))) c" using Suc.prems(5) tk(1) by simp
    with Suc.IH [of s c] Suc.prems(2-4) i obtain s' where s': "connect_waiters env name i s = (Ok (), s')"
        "waiting_connections s' = filter (\<lambda>w. \<not> asks_for name w) (take i ?W) @ drop i ?W"
        "map event_sender (names_sent s') = map event_sender (names_sent s) @ rev (map msg_sender (filter (asks_for name) (take i ?W)))"
        "\<exists>c'. table_get name (name_table s') = Some c' \<and> max_conns c' = max_conns c \<and> conn_sid c' = conn_sid c"
      by auto
    thus ?thesis using False connect_waiters_step [OF n, of env name] tk by simp
  next
    case True
    let ?k = "length (filter (asks_for name) (take i ?W))"
    have "has_room (Suc ?k) c" using Suc.prems(5) tk(1) True by simp
    then obtain s1 c1 where s1: "answer_waiter env ?w ?s = (Ok (), s1)" "waiting_connections s1 = take i ?W @ drop (Suc i) ?W"
        "map event_sender (names_sent s1) = map event_sender (names_sent s) @ [msg_sender ?w]"
        "table_get name (name_table s1) = Some c1" "has_room ?k c1" "max_conns c1 = max_conns c" "conn_sid c1 = conn_sid c"
      using answer_waiter_runs [OF ok True Suc.prems(3), of ?s c ?k] Suc.prems(4) by auto
    have t1: "take i (waiting_connections s1) = take i ?W" "drop i (waiting_connections s1) = drop (Suc i) ?W" using s1(2) i by simp_all
    have "i \<le> length (waiting_connections s1)" "list_all waiter_ok (waiting_connections s1)"
      using i Suc.prems(2) s1(2) by (auto simp: list_all_iff dest: in_set_takeD in_set_dropD)
    from Suc.IH [OF this Suc.prems(3) s1(4), unfolded t1, OF s1(5)] obtain s' where s': "connect_waiters env name i s1 = (Ok (), s')"
        "waiting_connections s' = filter (\<lambda>w. \<not> asks_for name w) (take i ?W) @ drop (Suc i) ?W"
        "map event_sender (names_sent s') = map event_sender (names_sent s1) @ rev (map msg_sender (filter (asks_for name) (take i ?W)))"
        "\<exists>c'. table_get name (name_table s') = Some c' \<and> max_conns c' = max_conns c1 \<and> conn_sid c' = conn_sid c1"
      by blast
    thus ?thesis using True connect_waiters_step [OF n, of env name] tk s1(1,3,6,7) by (simp add: thenM_Ok)
  qed
qed

text \<open>
  A registration up to the loop over the waiting messages.  The kernel draws
  the two ids and accepts the returned messages, and \<open>rkyv\<close> archives the
  response with the new server id into the buffer of the request, which has
  \<open>k\<close> bytes.
\<close>

definition env_answers :: "names_env \<Rightarrow> nat \<Rightarrow> bool" where
  "env_answers env k = ((\<forall>n. ne_server_id env n \<noteq> None) \<and> (\<forall>n. ne_accepts env n) \<and>
     (\<forall>sid. \<exists>bs. ne_serialize env (Ret_SID sid) = Some bs \<and> length bs \<le> k))"

definition fresh_registration :: "names_env \<Rightarrow> names_msg \<Rightarrow> names \<Rightarrow> registration \<Rightarrow> xous_server_name \<Rightarrow> bool" where
  "fresh_registration env msg s reg name =
     ((case env_body (nm_env msg) of MutableBorrow m \<Rightarrow> mm_id m = 0 | _ \<Rightarrow> False) \<and>
      buffer_to_original (ne_registration env) msg = (Ok reg :: (ConnectError, registration) outcome) \<and>
      name_from_str (reg_name reg) = (Ok name :: (ConnectError, xous_server_name) outcome) \<and> \<not> table_contains_key name (name_table s))"

lemma table_get_insert: "\<not> table_contains_key n t \<Longrightarrow> \<exists>c. table_get n (table_insert n sid limit token t) = Some c \<and>
    max_conns c = limit \<and> current_conns c = 0 \<and> conn_sid c = sid"
  by (simp add: table_insert_def Let_def)

lemma names_register_prefix:
  assumes "env_answers env (length (nm_data msg))" "fresh_registration env msg s reg name"
  shows "\<exists>s1 c. names_step env msg s = connect_waiters env name (length (waiting_connections s)) s1 \<and>
    waiting_connections s1 = waiting_connections s \<and>
    map event_sender (names_sent s1) = map event_sender (names_sent s) @ [msg_sender msg] \<and>
    table_get name (name_table s1) = Some c \<and> max_conns c = reg_conn_limit reg \<and> current_conns c = 0 \<and>
    ne_server_id env (names_calls s) = Some (conn_sid c)"
proof -
  obtain m where m: "env_body (nm_env msg) = MutableBorrow m" "mm_id m = 0"
    using assms(2) by (auto simp: fresh_registration_def split: Message.splits)
  obtain sid token where ids: "ne_server_id env (names_calls s) = Some sid" "ne_server_id env (Suc (names_calls s)) = Some token"
    using assms(1) by (fastforce simp: env_answers_def)
  obtain bs where bs: "ne_serialize env (Ret_SID sid) = Some bs" "length bs \<le> length (nm_data msg)"
    using assms(1) unfolding env_answers_def by blast
  have acc: "ne_accepts env n" for n using assms(1) by (simp add: env_answers_def)
  obtain c where c: "table_get name (table_insert name sid (reg_conn_limit reg) token (name_table s)) = Some c"
      "max_conns c = reg_conn_limit reg" "current_conns c = 0" "conn_sid c = sid"
    using table_get_insert [of name "name_table s"] assms(2) unfolding fresh_registration_def by blast
  have "names_step env msg s = names_register env msg s" using m by (simp add: names_step_def)
  thus ?thesis using assms(2) m ids bs acc c
    by (auto simp: fresh_registration_def names_register_def names_server_id_def names_tick_def buffer_replace_def names_drop_def
        names_send_def msg_update_def op_defs)
qed

text \<open>More waiting clients than the limit allows.\<close>

lemma answer_waiter_full:
  assumes "waiter_ok w" "asks_for name w" "table_get name (name_table s) = Some c" "max_conns c = Some m" "unat m \<le> unat (current_conns c)"
  shows "fst (answer_waiter env w s) = Panic"
proof -
  obtain n pid where w: "name_from_msg w = Ok n" "sender_pid (env_sender (nm_env w)) = Some pid" "name_eq n name"
    using assms(1,2) by (auto simp: waiter_ok_def asks_for_def split: outcome.splits)
  have "table_connect n (name_table s) = ((None, None), name_table s)"
    using assms(3-5) table_get_eq(1) [OF w(3)] by (auto simp: table_connect_def Let_def word_less_nat_alt)
  thus ?thesis using w by (simp add: answer_waiter_def blocking_connect_def names_table_op_def op_defs)
qed

lemma answer_waiter_connects:
  assumes w: "waiter_ok w" "asks_for name w" and env: "\<forall>n. ne_accepts env n" "\<forall>n pid sid. \<exists>cid. ne_connect env n pid sid = Inr (R_ConnectionID cid)"
    and c: "table_get name (name_table s) = Some c" "has_room 1 c"
  shows "\<exists>s' c'. answer_waiter env w s = (Ok (), s') \<and> waiting_connections s' = waiting_connections s \<and>
    table_get name (name_table s') = Some c' \<and> max_conns c' = max_conns c \<and> current_conns c' = current_conns c + 1"
proof -
  obtain n pid where n: "name_from_msg w = Ok n" "sender_pid (env_sender (nm_env w)) = Some pid" "name_eq n name"
    using w by (auto simp: waiter_ok_def asks_for_def split: outcome.splits)
  have g: "table_get n (name_table s) = Some c" using c(1) table_get_eq(1) [OF n(3)] by simp
  obtain c' where c': "table_connect n (name_table s) = ((Some (conn_sid c), conn_token c), table_set n c' (name_table s))"
      "max_conns c' = max_conns c" "current_conns c' = current_conns c + 1"
    using has_room_connect [OF g, of 0] c(2) by auto
  have t: "table_get name (table_set n c' (name_table s)) = Some c'" using table_get_set [of n] g table_get_eq(1) [OF n(3)] by simp
  obtain cid where "ne_connect env (names_calls s) pid (conn_sid c) = Inr (R_ConnectionID cid)" using env(2) by blast
  hence "answer_waiter env w s = respond_connect_success env cid (conn_token c) w
      (s\<lparr>name_table := table_set n c' (name_table s), names_calls := names_calls s + 1\<rparr>)"
    using n(1,2) c'(1)
    by (simp add: answer_waiter_def blocking_connect_def names_table_op_def names_connect_for_process_def names_tick_def op_defs)
  thus ?thesis using respond_runs(2) [OF w(1) env(1), of cid "conn_token c"] t c'(2,3) by fastforce
qed

lemma connect_waiters_full:
  assumes "i \<le> length (waiting_connections s)" "list_all waiter_ok (waiting_connections s)"
    "\<forall>n. ne_accepts env n" "\<forall>n pid sid. \<exists>cid. ne_connect env n pid sid = Inr (R_ConnectionID cid)"
    "table_get name (name_table s) = Some c" "max_conns c = Some m"
    "unat m < unat (current_conns c) + length (filter (asks_for name) (take i (waiting_connections s)))" "current_conns c \<le> m"
  shows "fst (connect_waiters env name i s) = Panic"
  using assms
proof (induction i arbitrary: s c)
  case 0
  thus ?case by (simp add: word_le_nat_alt)
next
  case (Suc i)
  let ?W = "waiting_connections s"
  let ?w = "?W ! i" and ?s = "s\<lparr>waiting_connections := take i ?W @ drop (Suc i) ?W\<rparr>"
  have i: "i < length ?W" using Suc.prems(1) by simp
  have tk: "take (Suc i) ?W = take i ?W @ [?w]" using i by (simp add: take_Suc_conv_app_nth)
  have ok: "waiter_ok ?w" using Suc.prems(2) i by (simp add: list_all_length)
  then obtain n where n: "name_from_msg ?w = Ok n" by (auto simp: waiter_ok_def split: outcome.splits)
  note step = connect_waiters_step [OF n, of env name]
  consider "\<not> asks_for name ?w" | "asks_for name ?w" "current_conns c = m" | "asks_for name ?w" "current_conns c < m"
    using Suc.prems(8) by (cases "current_conns c = m") (auto simp: order_less_le)
  thus ?case
  proof cases
    case 1
    thus ?thesis unfolding step using Suc.IH [of s c] Suc.prems i tk by simp
  next
    case 2
    hence "fst (answer_waiter env ?w ?s) = Panic" using answer_waiter_full [OF ok, of name ?s c m] Suc.prems(5,6) by simp
    then obtain s1 where "answer_waiter env ?w ?s = (Panic, s1)" by (metis prod.collapse)
    thus ?thesis unfolding step using 2(1) by (simp add: thenM_def bindM_def)
  next
    case 3
    hence room: "has_room 1 c" using Suc.prems(6) by (simp add: has_room_def word_less_nat_alt)
    obtain s1 c1 where s1: "answer_waiter env ?w ?s = (Ok (), s1)" "waiting_connections s1 = take i ?W @ drop (Suc i) ?W"
        "table_get name (name_table s1) = Some c1" "max_conns c1 = max_conns c" "current_conns c1 = current_conns c + 1"
      using answer_waiter_connects [OF ok 3(1) Suc.prems(3,4), of ?s c] Suc.prems(5) room by auto
    have u: "unat (current_conns c1) = unat (current_conns c) + 1"
      using unat_inc [of "current_conns c" m] 3(2) s1(5) by (simp add: word_less_nat_alt)
    have "fst (connect_waiters env name i s1) = Panic"
    proof (rule Suc.IH)
      show "list_all waiter_ok (waiting_connections s1)"
        using Suc.prems(2) s1(2) by (auto simp: list_all_iff dest: in_set_takeD in_set_dropD)
      show "current_conns c1 \<le> m" using u 3(2) by (simp add: word_le_nat_alt word_less_nat_alt)
      show "unat m < unat (current_conns c1) + length (filter (asks_for name) (take i (waiting_connections s1)))"
        using Suc.prems(7) tk 3(1) s1(2) u i by simp
    qed (use Suc.prems s1 i in auto)
    thus ?thesis unfolding step using 3(1) s1(1) by (simp add: thenM_def bindM_def)
  qed
qed

section \<open>Properties\<close>

text \<open>Requests that stop the server, from any client and in any state.\<close>

definition stops_server :: "names_msg \<Rightarrow> bool" where
  "stops_server msg = (let body = env_body (nm_env msg); opcode = message_id body in
     opcode = 2 \<or>
     (opcode = 0 \<or> opcode = 1 \<or> opcode = 4) \<and> memory_message_mut body = None \<or>
     opcode = 7 \<and> is_blocking body \<and> message_has_memory body \<and> memory_message_mut body = None \<or>
     (opcode = 6 \<or> opcode = 7) \<and> is_blocking body \<and> (case memory_message_of body of None \<Rightarrow> False | Some mem \<Rightarrow>
       let valid_bytes = (case mm_valid mem of None \<Rightarrow> length (nm_data msg) | Some v \<Rightarrow> unat v) in
       64 \<le> valid_bytes \<and> valid_bytes \<le> length (nm_data msg) \<and>
       utf8_valid (take valid_bytes (nm_data msg)) \<and> utf8_valid (take 64 (nm_data msg))))"

text \<open>
  C35: The connection limits of servers hold.  However clients register, connect,
  look up, disconnect and unregister, and whatever the kernel answers, no
  server in the table counts more connections than the limit it registered
  with, and no name is registered twice.
\<close>

theorem connection_limits_hold:
  assumes "names_run env msgs names_init = (Ok (), s)" "(n, c) \<in> set (name_table s)"
  shows "(\<forall>m. max_conns c = Some m \<longrightarrow> current_conns c \<le> m) \<and>
    (\<forall>n' c'. (n', c') \<in> set (name_table s) \<and> name_eq n' n \<longrightarrow> (n', c') = (n, c))"
proof -
  have inv: "names_inv s" using keepsD [OF keeps_names_run _ assms(1)] by (simp add: names_init_def table_inv_def)
  hence "conn_ok c" using assms(2) by (auto simp: table_inv_def list_all_iff)
  moreover have "(n', c') = (n, c)" if "(n', c') \<in> set (name_table s)" "name_eq n' n" for n' c'
  proof -
    have "inj_on (name_key \<circ> fst) (set (name_table s))" using inv by (simp add: table_inv_def distinct_map)
    thus ?thesis using inj_onD [of "name_key \<circ> fst" _ "(n', c')" "(n, c)"] assms(2) that name_eq_keyD [OF that(2)] by simp
  qed
  ultimately show ?thesis by (auto simp: conn_ok_def)
qed

text \<open>
  C36: A registration answers every client that waits for the name.  Let the
  request decode to a proper name that is not yet registered, let the kernel
  draw the server ids and accept the returned messages, let the archived
  response fit the buffer of the request, and let every waiting message be a
  mutable lend of at least 24 bytes, from a process, with a proper name.  Then
  the server registers the name, with the id the kernel drew and the
  requested limit, answers the registration first and then the waiting
  clients of that name, the latest first, each exactly once and whether or
  not the kernel grants its connection; the others keep waiting in their
  order.  This needs a limit that is not below the number of clients that
  wait for the name.
\<close>

theorem register_answers_waiters:
  assumes "env_answers env (length (nm_data msg))" "fresh_registration env msg s reg name"
    "list_all waiter_ok (waiting_connections s)"
    "case reg_conn_limit reg of None \<Rightarrow> True | Some m \<Rightarrow> length (filter (asks_for name) (waiting_connections s)) \<le> unat m"
  shows "\<exists>s'. names_step env msg s = (Ok (), s') \<and>
    waiting_connections s' = filter (\<lambda>w. \<not> asks_for name w) (waiting_connections s) \<and>
    map event_sender (names_sent s') = map event_sender (names_sent s) @ msg_sender msg #
      rev (map msg_sender (filter (asks_for name) (waiting_connections s))) \<and>
    (\<exists>c. table_get name (name_table s') = Some c \<and> max_conns c = reg_conn_limit reg \<and>
       ne_server_id env (names_calls s) = Some (conn_sid c))"
proof -
  obtain s1 c where s1: "names_step env msg s = connect_waiters env name (length (waiting_connections s)) s1"
      "waiting_connections s1 = waiting_connections s"
      "map event_sender (names_sent s1) = map event_sender (names_sent s) @ [msg_sender msg]"
      "table_get name (name_table s1) = Some c" "max_conns c = reg_conn_limit reg" "current_conns c = 0"
      "ne_server_id env (names_calls s) = Some (conn_sid c)"
    using names_register_prefix [OF assms(1,2)] by blast
  have "has_room (length (filter (asks_for name) (waiting_connections s))) c"
    using assms(4) s1(5,6) by (simp add: has_room_def split: option.splits)
  moreover have "\<forall>n. ne_accepts env n" using assms(1) by (simp add: env_answers_def)
  ultimately show ?thesis
    using connect_waiters_runs [of "length (waiting_connections s)" s1 env name c] s1 assms(3) by auto
qed

text \<open>
  C37: A registration with a limit below the number of clients that wait for
  the name stops the name server.  Under the conditions of the registration
  above (a proper new name, waiting messages that are mutable lends of at least
  24 bytes with proper names) and with a kernel that grants every connection,
  the limit is used up by the first clients that are answered, and the next
  one is told to wait again, which the loop takes for impossible.
\<close>

theorem crowded_registration_panics:
  assumes "env_answers env (length (nm_data msg))" "fresh_registration env msg s reg name"
    "list_all waiter_ok (waiting_connections s)" "\<forall>n pid sid. \<exists>cid. ne_connect env n pid sid = Inr (R_ConnectionID cid)"
    "reg_conn_limit reg = Some m" "unat m < length (filter (asks_for name) (waiting_connections s))"
  shows "fst (names_step env msg s) = Panic"
proof -
  obtain s1 c where s1: "names_step env msg s = connect_waiters env name (length (waiting_connections s)) s1"
      "waiting_connections s1 = waiting_connections s"
      "table_get name (name_table s1) = Some c" "max_conns c = reg_conn_limit reg" "current_conns c = 0"
    using names_register_prefix [OF assms(1,2)] by blast
  have "\<forall>n. ne_accepts env n" using assms(1) by (simp add: env_answers_def)
  thus ?thesis
    using connect_waiters_full [of "length (waiting_connections s)" s1 env name c m] s1 assms(3-6) by simp
qed

text \<open>
  C38: Single requests that stop the name server, in every state and whatever
  the kernel answers: an authenticated lookup; a registration, lookup or
  disconnection that is not a writable memory message; a connection attempt
  without waiting that lends its buffer read-only; and a blocking request to
  connect to a name of 64 bytes or more that is valid UTF-8 and whose first 64
  bytes are valid UTF-8 too (a name with a character across byte 64 is read as
  the empty name instead).
\<close>

theorem single_requests_panic:
  assumes "stops_server msg"
  shows "fst (names_step env msg s) = Panic"
proof -
  let ?body = "env_body (nm_env msg)"
  have respond: "fst (respond_words env ws msg s) = Panic" if "memory_message_mut ?body = None" for ws s
    using that by (simp add: respond_words_def op_defs)
  have name: "name_from_msg msg = Panic" if "case memory_message_of ?body of None \<Rightarrow> False | Some mem \<Rightarrow>
       let valid_bytes = (case mm_valid mem of None \<Rightarrow> length (nm_data msg) | Some v \<Rightarrow> unat v) in
       64 \<le> valid_bytes \<and> valid_bytes \<le> length (nm_data msg) \<and>
       utf8_valid (take valid_bytes (nm_data msg)) \<and> utf8_valid (take 64 (nm_data msg))"
    using that by (auto simp: name_from_msg_def name_from_str_cases Let_def min_def split: option.splits)
  have mem: "message_has_memory ?body" if "memory_message_of ?body \<noteq> None" using that by (cases ?body) auto
  consider "message_id ?body = 2" | "message_id ?body = 0 \<or> message_id ?body = 1 \<or> message_id ?body = 4" "memory_message_mut ?body = None"
    | "message_id ?body = 7" "is_blocking ?body" "message_has_memory ?body" "memory_message_mut ?body = None"
    | "message_id ?body = 6 \<or> message_id ?body = 7" "is_blocking ?body" "message_has_memory ?body" "name_from_msg msg = Panic"
    using assms name mem unfolding stops_server_def Let_def by (fastforce split: option.splits)
  thus ?thesis
  proof cases
    case 3
    have "tryM (blocking_connect env msg) s \<noteq> (Err e, s')" for e :: ConnectError and s' by (auto simp: tryM_def split: prod.split outcome.split)
    thus ?thesis using respond 3
      by (auto simp: names_step_def names_connect_def respond_connect_error_def respond_connect_success_def bindM_def
          split: prod.split outcome.split sum.split ConnectSuccess.split)
  next
    case 4
    thus ?thesis by (auto simp: names_step_def names_connect_def blocking_connect_def op_defs)
  qed (auto simp: names_step_def names_register_def names_lookup_def names_disconnect_def buffer_to_original_def op_defs)
qed

text \<open>
  C39: The token of a server with one connection works once.  After a client
  has connected, nobody else can connect until the token it was given is
  presented; another token changes nothing; the right one frees the server
  for the next client, who is given the new token, and is then worthless.
\<close>

theorem disconnect_token_once:
  assumes "table_get n t = Some c" "max_conns c = Some 1" "current_conns c = 0" "conn_token c = Some token" "new \<noteq> token"
  shows "\<exists>t1 t2. table_connect n t = ((Some (conn_sid c), Some token), t1) \<and> table_connect n t1 = ((None, None), t1) \<and>
    (\<forall>other fresh. other = token \<or> table_disconnect_with_token n other fresh t1 = (False, t1)) \<and>
    table_disconnect_with_token n token new t1 = (True, t2) \<and> fst (table_connect n t2) = (Some (conn_sid c), Some new) \<and>
    (\<forall>fresh. table_disconnect_with_token n token fresh t2 = (False, t2))"
proof -
  let ?t1 = "table_set n (c\<lparr>current_conns := 1\<rparr>) t"
  let ?t2 = "table_set n (c\<lparr>current_conns := 0, conn_token := Some new\<rparr>) ?t1"
  have g: "table_get n ?t1 = Some (c\<lparr>current_conns := 1\<rparr>)" "table_get n ?t2 = Some (c\<lparr>current_conns := 0, conn_token := Some new\<rparr>)"
    using assms(1) by (simp_all add: table_get_set)
  have "table_connect n t = ((Some (conn_sid c), Some token), ?t1)" "table_connect n ?t1 = ((None, None), ?t1)"
      "fst (table_connect n ?t2) = (Some (conn_sid c), Some new)"
    using assms g by (simp_all add: table_connect_def)
  moreover have "other = token \<or> table_disconnect_with_token n other fresh ?t1 = (False, ?t1)"
      "table_disconnect_with_token n token new ?t1 = (True, ?t2)" "table_disconnect_with_token n token fresh ?t2 = (False, ?t2)" for other fresh
    using assms(4,5) g by (simp_all add: table_disconnect_with_token_def)
  ultimately show ?thesis by blast
qed

subsection \<open>Witnesses\<close>

text \<open>An encoding of the responses that can be decoded: the variant, then its fields.\<close>

definition sid_bytes :: "SID \<Rightarrow> u8 list" where
  "sid_bytes sid = concat (map (le_bytes 4) (sid_to_u32 sid))"

fun demo_archive :: "names_return \<Rightarrow> u8 list option" where
  "demo_archive Ret_Failure = Some [0]"
| "demo_archive Ret_Success = Some [1]"
| "demo_archive (Ret_SID sid) = Some (2 # sid_bytes sid)"
| "demo_archive (Ret_CID cid None) = Some (3 # le_bytes 4 cid)"
| "demo_archive (Ret_CID cid (Some token)) = Some (4 # le_bytes 4 cid @ sid_bytes token)"
| "demo_archive (Ret_AuthenticateRequest r) =
     (if length (auth_name r) < 256 \<and> length (auth_pubkey_id r) = 20
      then Some (5 # sid_bytes (auth_challenge r) @ auth_pubkey_id r @ auth_name r) else None)"

lemma le_bytes_inj: "le_bytes 4 a = le_bytes 4 b \<Longrightarrow> a = b"
  by (metis from_to_le_bytes)

lemma length_sid_bytes [simp]: "length (sid_bytes sid) = 16"
  by (cases sid) (simp add: sid_bytes_def)

lemma sid_bytes_inj: "sid_bytes a = sid_bytes b \<Longrightarrow> a = b"
  by (cases a; cases b) (auto simp: sid_bytes_def dest!: le_bytes_inj)

lemma demo_archive_inj: "\<lbrakk>demo_archive r = Some bs; demo_archive r' = Some bs\<rbrakk> \<Longrightarrow> r = r'"
  by (cases r rule: demo_archive.cases; cases r' rule: demo_archive.cases)
    (auto dest!: le_bytes_inj sid_bytes_inj split: if_splits)

definition demo_env :: "u32 option \<Rightarrow> names_env" where
  "demo_env limit = \<lparr>ne_server_id = (\<lambda>n. Some (SID (of_nat n) 1 2 3)), ne_connect = (\<lambda>n pid sid. Inr (R_ConnectionID 5)),
     ne_accepts = (\<lambda>n. True), ne_registration = (\<lambda>bs. Some \<lparr>reg_name = bs, reg_conn_limit = limit\<rparr>), ne_string = Some,
     ne_disconnect = (\<lambda>bs. None), ne_serialize = demo_archive\<rparr>"

text \<open>A request with a one-letter name in a buffer of 32 bytes; the senders are threads of processes 2, 3 and so on.\<close>

definition demo_request :: "MessageSender \<Rightarrow> MessageId \<Rightarrow> u8 \<Rightarrow> names_msg" where
  "demo_request sender opcode letter = \<lparr>nm_env = \<lparr>env_sender = sender, env_body = MutableBorrow
     \<lparr>mm_id = opcode, mm_buf = \<lparr>mr_addr = 0x1000, mr_size = 32\<rparr>, mm_offset = Some 1, mm_valid = Some 1\<rparr>\<rparr>,
     nm_data = letter # replicate 31 0\<rparr>"

definition demo_waiting :: names where
  "demo_waiting = names_init\<lparr>waiting_connections :=
     [demo_request 0x02000000 6 0x61, demo_request 0x03000000 6 0x62, demo_request 0x04000000 6 0x61]\<rparr>"

definition demo_name :: "u8 \<Rightarrow> xous_server_name" where
  "demo_name letter = \<lparr>name_value = letter # replicate 63 0, name_length = 1\<rparr>"

lemma demo_request_name: "letter < 0x80 \<Longrightarrow> name_from_msg (demo_request sender opcode letter) = Ok (demo_name letter)"
  by (simp add: name_from_msg_def demo_request_def name_from_str_cases demo_name_def)

lemma demo_waiters:
  "list_all waiter_ok (waiting_connections demo_waiting)"
  "filter (asks_for (demo_name 0x61)) (waiting_connections demo_waiting) = [demo_request 0x02000000 6 0x61, demo_request 0x04000000 6 0x61]"
  "filter (\<lambda>w. \<not> asks_for (demo_name 0x61) w) (waiting_connections demo_waiting) = [demo_request 0x03000000 6 0x62]"
proof -
  have pid: "sender_pid 0x02000000 \<noteq> None" "sender_pid 0x03000000 \<noteq> None" "sender_pid 0x04000000 \<noteq> None"
    by (simp_all add: sender_pid_def nz_new_def)
  show "list_all waiter_ok (waiting_connections demo_waiting)" using pid
    by (simp add: demo_waiting_def waiter_ok_def demo_request_name) (simp add: demo_request_def)
qed (simp_all add: demo_waiting_def asks_for_def demo_request_name demo_name_def name_eq_def)

lemma demo_registration:
  "env_answers (demo_env limit) (length (nm_data (demo_request 0x05000000 0 0x61)))"
  "fresh_registration (demo_env limit) (demo_request 0x05000000 0 0x61) demo_waiting \<lparr>reg_name = [0x61], reg_conn_limit = limit\<rparr> (demo_name 0x61)"
  by (simp_all add: env_answers_def demo_env_def fresh_registration_def demo_request_def buffer_to_original_def
      name_from_str_cases demo_name_def demo_waiting_def names_init_def table_contains_key_def)

theorem register_answers_waiters_witness:
  "\<exists>s'. names_step (demo_env (Some 2)) (demo_request 0x05000000 0 0x61) demo_waiting = (Ok (), s') \<and>
    waiting_connections s' = [demo_request 0x03000000 6 0x62] \<and>
    map event_sender (names_sent s') = [Some 0x05000000, Some 0x04000000, Some 0x02000000] \<and>
    (\<exists>c. table_get (demo_name 0x61) (name_table s') = Some c \<and> max_conns c = Some 2 \<and> conn_sid c = SID 0 1 2 3)"
proof -
  have "names_sent demo_waiting = []" "ne_server_id (demo_env (Some 2)) (names_calls demo_waiting) = Some (SID 0 1 2 3)"
    by (simp_all add: demo_waiting_def names_init_def demo_env_def)
  thus ?thesis using register_answers_waiters [OF demo_registration demo_waiters(1), of "Some 2"] unfolding demo_waiters(2,3)
    by (auto simp: demo_request_def)
qed

theorem crowded_registration_panics_witness:
  "fst (names_step (demo_env (Some 1)) (demo_request 0x05000000 0 0x61) demo_waiting) = Panic"
proof -
  have "\<forall>n pid sid. \<exists>cid. ne_connect (demo_env (Some 1)) n pid sid = Inr (R_ConnectionID cid)" by (simp add: demo_env_def)
  thus ?thesis using crowded_registration_panics [OF demo_registration demo_waiters(1), of "Some 1" 1] demo_waiters(2) by simp
qed

text \<open>A request to connect to a name of 64 letters.\<close>

definition demo_long_request :: names_msg where
  "demo_long_request = \<lparr>nm_env = \<lparr>env_sender = 0x02000000, env_body = MutableBorrow
     \<lparr>mm_id = 6, mm_buf = \<lparr>mr_addr = 0x1000, mr_size = 128\<rparr>, mm_offset = None, mm_valid = Some 64\<rparr>\<rparr>,
     nm_data = replicate 128 0x61\<rparr>"

theorem single_requests_panic_witness:
  "fst (names_step (demo_env None) (demo_request 0x02000000 2 0x61) demo_waiting) = Panic \<and>
   fst (names_step (demo_env None) demo_long_request demo_waiting) = Panic"
proof -
  have u: "utf8_valid (replicate n 0x61)" for n by (induction n) simp_all
  have "stops_server (demo_request 0x02000000 2 0x61)" by (simp add: stops_server_def demo_request_def)
  moreover have "stops_server demo_long_request" using u [of 64]
    by (simp add: stops_server_def demo_long_request_def Let_def)
  ultimately show ?thesis using single_requests_panic by blast
qed

theorem disconnect_token_once_witness:
  "\<exists>t1 t2. table_connect (demo_name 0x61) (table_insert (demo_name 0x61) (SID 9 9 9 9) (Some 1) (SID 1 1 1 1) []) =
      ((Some (SID 9 9 9 9), Some (SID 1 1 1 1)), t1) \<and>
    table_disconnect_with_token (demo_name 0x61) (SID 1 1 1 1) (SID 2 2 2 2) t1 = (True, t2) \<and>
    table_disconnect_with_token (demo_name 0x61) (SID 1 1 1 1) (SID 3 3 3 3) t2 = (False, t2)"
  using disconnect_token_once [of "demo_name 0x61" "table_insert (demo_name 0x61) (SID 9 9 9 9) (Some 1) (SID 1 1 1 1) []" _ "SID 1 1 1 1" "SID 2 2 2 2"]
  by (fastforce simp: table_insert_def table_contains_key_def)

lemmas demo_evaluation = names_server_id_def names_tick_def buffer_replace_def names_drop_def names_send_def msg_update_def
  names_table_op_def names_connect_for_process_def respond_connect_success_def respond_words_def op_defs

lemma demo_first: "\<exists>s c. names_step (demo_env (Some 1)) (demo_request 0x02000000 0 0x61) names_init = (Ok (), s) \<and>
    names_running s \<and> name_table s = [(demo_name 0x61, c)] \<and> max_conns c = Some 1 \<and> current_conns c = 0"
  by (simp add: names_step_def names_register_def demo_request_def demo_env_def names_init_def buffer_to_original_def
      name_from_str_cases demo_name_def table_contains_key_def table_insert_def demo_evaluation)

lemma demo_second:
  assumes "name_table s = [(demo_name 0x61, c)]" "max_conns c = Some 1" "current_conns c = 0"
  shows "\<exists>s' c'. names_step (demo_env (Some 1)) (demo_request 0x03000000 6 0x61) s = (Ok (), s') \<and>
    name_table s' = [(demo_name 0x61, c')] \<and> max_conns c' = Some 1"
proof -
  have msg: "nm_data (demo_request 0x03000000 6 0x61) = 0x61 # replicate 31 0" "env_sender (nm_env (demo_request 0x03000000 6 0x61)) = 0x03000000"
      "env_body (nm_env (demo_request 0x03000000 6 0x61)) = MutableBorrow
         \<lparr>mm_id = 6, mm_buf = \<lparr>mr_addr = 0x1000, mr_size = 32\<rparr>, mm_offset = Some 1, mm_valid = Some 1\<rparr>"
      "ne_accepts (demo_env (Some 1)) n" "ne_connect (demo_env (Some 1)) n pid sid = Inr (R_ConnectionID 5)" for n pid sid
    by (simp_all add: demo_request_def demo_env_def)
  have pid: "sender_pid 0x03000000 = Some 3" by (simp add: sender_pid_def nz_new_def)
  have len: "length (sid_to_u32 d) = 4" for d by (cases d) simp
  have "length ([0, cid] @ (case disc of None \<Rightarrow> [0, 0, 0, 0] | Some d \<Rightarrow> sid_to_u32 d)) = 6" for cid disc
    by (simp add: len split: option.split)
  thus ?thesis using assms pid
    by (simp add: msg names_step_def names_connect_def blocking_connect_def demo_request_name table_connect_def table_set_def demo_evaluation)
qed

theorem connection_limits_hold_witness:
  "\<exists>s c. names_run (demo_env (Some 1)) [demo_request 0x02000000 0 0x61, demo_request 0x03000000 6 0x61] names_init = (Ok (), s) \<and>
    (demo_name 0x61, c) \<in> set (name_table s) \<and> max_conns c = Some 1 \<and> current_conns c \<le> 1"
proof -
  obtain s c where s: "names_step (demo_env (Some 1)) (demo_request 0x02000000 0 0x61) names_init = (Ok (), s)"
      "names_running s" "name_table s = [(demo_name 0x61, c)]" "max_conns c = Some 1" "current_conns c = 0"
    using demo_first by blast
  obtain s' c' where s': "names_step (demo_env (Some 1)) (demo_request 0x03000000 6 0x61) s = (Ok (), s')"
      "name_table s' = [(demo_name 0x61, c')]" "max_conns c' = Some 1"
    using demo_second [OF s(3-5)] by blast
  have "names_running names_init" by (simp add: names_init_def)
  hence run: "names_run (demo_env (Some 1)) [demo_request 0x02000000 0 0x61, demo_request 0x03000000 6 0x61] names_init = (Ok (), s')"
    using s(1,2) s'(1) by (simp add: names_run_def op_defs)
  thus ?thesis using connection_limits_hold [OF run, of "demo_name 0x61" c'] s'(2,3) by auto
qed

end
