(* ===== verification/Spec2Isabelle.thy ===== *)
theory Spec2Isabelle
  imports Prelude Xous_Defs Syscall_Abi Server_Queue Memory_State Page_Alloc Page_Table Mem_Manager
    Thread_Ctx Kernel_State Scheduler Memory_Ipc Server_Table Lifecycle Kernel_Syscall Trap
    Op_Frames Schedule_Inv Table_Inv Kernel_Inv Boot Reachable
    Connections Abi_Contract Interrupts Termination Message_Passing Address_Search Kernel_Errors Swap_Epoch Name_Table Name_Server
begin

text \<open>
  Verification library for the Xous microkernel and its system-call ABI.

  The configuration modelled is the bare-metal 32-bit RISC-V build without the
  optional features \<open>swap\<close>, \<open>gdb-stub\<close>, \<open>v2p\<close>, \<open>raw-trng\<close> and \<open>bao1x\<close>.
\<close>

end
